(* ===== verification/OSPrelude.thy ===== *)
theory OSPrelude
  imports Main "HOL-Library.Word"
begin

text \<open>
  Shared vocabulary of the development: the fragments of Go's standard library that the
  modelled code calls, written out as HOL functions, and the generic lemmas the component
  theories share.

  Conventions.  A Go string is a \<^typ>\<open>string\<close> (a list of bytes); case folding is the ASCII
  one, which is what the code is fed with (ffprobe names, capability keys, HTTP headers,
  playlist tags).  A Go \<open>int\<close>, \<open>int64\<close> or \<open>time.Duration\<close> is an \<^typ>\<open>int\<close>; where the code
  accumulates an unbounded input into a machine integer the wrap-around is written out
  (\<open>wrap64\<close>).  A nil pointer is \<^const>\<open>None\<close>, an \<open>error\<close> result a value of a sum type.
\<close>

named_theorems go_str "rewrite rules of the string helpers"

section \<open>Machine integers\<close>

text \<open>Two's-complement wrap-around of a 64-bit Go \<open>int\<close>.\<close>

definition wrap64 :: "int \<Rightarrow> int" where
  "wrap64 x = (x + 2 ^ 63) mod 2 ^ 64 - 2 ^ 63"

lemma wrap64_id: "- (2 ^ 63) \<le> x \<Longrightarrow> x < 2 ^ 63 \<Longrightarrow> wrap64 x = x"
  by (simp add: wrap64_def)

lemma wrap64_range: "- (2 ^ 63) \<le> wrap64 x \<and> wrap64 x < 2 ^ 63"
  by (simp add: wrap64_def)

text \<open>Go's \<open>/\<close> and \<open>%\<close> truncate towards zero.\<close>

definition go_div :: "int \<Rightarrow> int \<Rightarrow> int" where
  "go_div a b = sgn a * sgn b * (\<bar>a\<bar> div \<bar>b\<bar>)"

definition go_mod :: "int \<Rightarrow> int \<Rightarrow> int" where
  "go_mod a b = a - go_div a b * b"

lemma go_div_nonneg: "0 \<le> a \<Longrightarrow> 0 < b \<Longrightarrow> go_div a b = a div b"
  by (cases "a = 0") (auto simp: go_div_def sgn_if)

lemma go_mod_nonneg: "0 \<le> a \<Longrightarrow> 0 < b \<Longrightarrow> go_mod a b = a mod b"
  by (simp add: go_mod_def go_div_nonneg minus_div_mult_eq_mod)

section \<open>Strings\<close>

definition lower_char :: "char \<Rightarrow> char" where
  "lower_char c = (let n = of_char c :: nat in if 65 \<le> n \<and> n \<le> 90 then char_of (n + 32) else c)"

definition upper_char :: "char \<Rightarrow> char" where
  "upper_char c = (let n = of_char c :: nat in if 97 \<le> n \<and> n \<le> 122 then char_of (n - 32) else c)"

text \<open>\<open>strings.ToLower\<close>, \<open>strings.ToUpper\<close> and \<open>strings.EqualFold\<close> on ASCII text.\<close>

definition ToLower :: "string \<Rightarrow> string" where
  "ToLower s = map lower_char s"

definition ToUpper :: "string \<Rightarrow> string" where
  "ToUpper s = map upper_char s"

definition EqualFold :: "string \<Rightarrow> string \<Rightarrow> bool" where
  "EqualFold a b \<longleftrightarrow> ToLower a = ToLower b"

definition is_space :: "char \<Rightarrow> bool" where
  "is_space c \<longleftrightarrow> of_char c \<in> {9, 10, 11, 12, 13, 32 :: nat}"

definition is_digit :: "char \<Rightarrow> bool" where
  "is_digit c \<longleftrightarrow> 48 \<le> (of_char c :: nat) \<and> (of_char c :: nat) \<le> 57"

definition digit_val :: "char \<Rightarrow> int" where
  "digit_val c = int (of_char c) - 48"

definition TrimLeftBy :: "(char \<Rightarrow> bool) \<Rightarrow> string \<Rightarrow> string" where
  "TrimLeftBy p s = dropWhile p s"

definition TrimRightBy :: "(char \<Rightarrow> bool) \<Rightarrow> string \<Rightarrow> string" where
  "TrimRightBy p s = rev (dropWhile p (rev s))"

definition TrimSpace :: "string \<Rightarrow> string" where
  "TrimSpace s = TrimRightBy is_space (TrimLeftBy is_space s)"

definition HasPrefix :: "string \<Rightarrow> string \<Rightarrow> bool" where
  "HasPrefix s p \<longleftrightarrow> take (length p) s = p"

definition HasSuffix :: "string \<Rightarrow> string \<Rightarrow> bool" where
  "HasSuffix s p \<longleftrightarrow> length p \<le> length s \<and> drop (length s - length p) s = p"

text \<open>\<open>strings.CutPrefix\<close>: the rest after the prefix, \<^const>\<open>None\<close> when it is absent.\<close>

definition CutPrefix :: "string \<Rightarrow> string \<Rightarrow> string option" where
  "CutPrefix s p = (if HasPrefix s p then Some (drop (length p) s) else None)"

text \<open>\<open>strings.Cut\<close> at the first occurrence of a separator.\<close>

fun Cut :: "string \<Rightarrow> string \<Rightarrow> (string \<times> string) option" where
  "Cut [] sep = (if sep = [] then Some ([], []) else None)"
| "Cut (c # cs) sep =
     (if HasPrefix (c # cs) sep then Some ([], drop (length sep) (c # cs))
      else map_option (\<lambda>(a, b). (c # a, b)) (Cut cs sep))"

text \<open>
  Splitting at every character that satisfies a predicate; never the empty list.
  \<open>strings.Split\<close> on a one-byte separator and \<open>strings.FieldsFunc\<close> (the non-empty pieces)
  are both instances.
\<close>

fun SplitBy :: "(char \<Rightarrow> bool) \<Rightarrow> string \<Rightarrow> string list" where
  "SplitBy p [] = [[]]"
| "SplitBy p (c # cs) =
     (if p c then [] # SplitBy p cs
      else (case SplitBy p cs of [] \<Rightarrow> [[c]] | w # ws \<Rightarrow> (c # w) # ws))"

definition Split :: "string \<Rightarrow> char \<Rightarrow> string list" where
  "Split s sep = SplitBy (\<lambda>c. c = sep) s"

definition FieldsFunc :: "(char \<Rightarrow> bool) \<Rightarrow> string \<Rightarrow> string list" where
  "FieldsFunc p s = filter (\<lambda>w. w \<noteq> []) (SplitBy p s)"

definition Fields :: "string \<Rightarrow> string list" where
  "Fields s = FieldsFunc is_space s"

text \<open>\<open>strings.Join\<close>.\<close>

fun Join :: "string list \<Rightarrow> string \<Rightarrow> string" where
  "Join [] sep = []"
| "Join [w] sep = w"
| "Join (w # ws) sep = w @ sep @ Join ws sep"

definition Contains :: "string \<Rightarrow> string \<Rightarrow> bool" where
  "Contains s sub \<longleftrightarrow> Cut s sub \<noteq> None"

section \<open>Decimal numbers\<close>

text \<open>\<open>strconv.Itoa\<close>, and \<open>fmt\<close>'s zero-padded \<open>%0nd\<close> of a non-negative number.\<close>

function dec_digits :: "int \<Rightarrow> string" where
  "dec_digits n = (if n < 10 then [char_of (48 + n)] else dec_digits (n div 10) @ [char_of (48 + n mod 10)])"
  by pat_completeness auto
termination
  by (relation "measure nat") auto

declare dec_digits.simps [simp del]

definition Itoa :: "int \<Rightarrow> string" where
  "Itoa i = (if i < 0 then CHR ''-'' # dec_digits (- i) else dec_digits i)"

definition pad0 :: "nat \<Rightarrow> int \<Rightarrow> string" where
  "pad0 w i = (let d = Itoa i in replicate (w - length d) (CHR ''0'') @ d)"

definition digits_val :: "string \<Rightarrow> int" where
  "digits_val s = foldl (\<lambda>n c. n * 10 + digit_val c) 0 s"

text \<open>
  \<open>strconv.Atoi\<close> / \<open>ParseInt(s, 10, 64)\<close>: an optional sign, at least one digit, nothing
  else, and a value that fits 64 bits; \<^const>\<open>None\<close> is the error.
\<close>

definition split_sign :: "string \<Rightarrow> bool \<times> string" where
  "split_sign s = (case s of [] \<Rightarrow> (False, [])
     | c # cs \<Rightarrow> if c = CHR ''-'' then (True, cs) else if c = CHR ''+'' then (False, cs) else (False, s))"

definition Atoi :: "string \<Rightarrow> int option" where
  "Atoi s = (let (neg, ds) = split_sign s in
     if ds = [] \<or> \<not> list_all is_digit ds then None
     else let v = (if neg then - digits_val ds else digits_val ds) in
       if - (2 ^ 63) \<le> v \<and> v < 2 ^ 63 then Some v else None)"

section \<open>Facts about strings and numbers\<close>

lemma SplitBy_not_Nil [simp]: "SplitBy p s \<noteq> []"
  by (induction s) (auto split: list.splits)

lemma SplitBy_plain: "list_all (\<lambda>c. \<not> p c) s \<Longrightarrow> SplitBy p s = [s]"
  by (induction s) auto

lemma SplitBy_sep:
  "list_all (\<lambda>c. \<not> p c) w \<Longrightarrow> p c \<Longrightarrow> SplitBy p (w @ c # s) = w # SplitBy p s"
  by (induction w) auto

lemma HasPrefix_append [simp]: "HasPrefix (p @ s) p"
  by (simp add: HasPrefix_def)

lemma CutPrefix_append [simp]: "CutPrefix (p @ s) p = Some s"
  by (simp add: CutPrefix_def)

lemma of_char_digit:
  assumes "0 \<le> n" "n < 10"
  shows "(of_char (char_of (48 + n :: int) :: char) :: nat) = nat (48 + n)"
proof -
  have "char_of (int m) = (char_of m :: char)" for m by simp
  from this [of "nat (48 + n)"] have "char_of (48 + n :: int) = (char_of (nat (48 + n)) :: char)"
    unfolding int_nat_eq using assms by simp
  then show ?thesis using assms by (simp add: nat_less_iff)
qed

lemma is_digit_char_of [simp]: "0 \<le> n \<Longrightarrow> n < 10 \<Longrightarrow> is_digit (char_of (48 + n :: int))"
  by (auto simp: is_digit_def of_char_digit nat_le_iff le_nat_iff)

lemma digit_val_char_of [simp]: "0 \<le> n \<Longrightarrow> n < 10 \<Longrightarrow> digit_val (char_of (48 + n :: int)) = n"
  by (simp add: digit_val_def of_char_digit)

lemma digits_val_snoc: "digits_val (s @ [c]) = digits_val s * 10 + digit_val c"
  by (simp add: digits_val_def)

lemma dec_digits_ne [simp]: "dec_digits n \<noteq> []"
  by (subst dec_digits.simps) simp

lemma dec_digits_all: "0 \<le> n \<Longrightarrow> list_all is_digit (dec_digits n)"
proof (induction n rule: dec_digits.induct)
  case (1 n)
  then show ?case by (subst dec_digits.simps) simp
qed

lemma dec_digits_val: "0 \<le> n \<Longrightarrow> digits_val (dec_digits n) = n"
proof (induction n rule: dec_digits.induct)
  case (1 n)
  show ?case
  proof (cases "n < 10")
    case True
    then show ?thesis using 1 by (subst dec_digits.simps) (simp add: digits_val_def)
  next
    case False
    then have "digits_val (dec_digits (n div 10)) = n div 10" using 1 by simp
    then show ?thesis using False
      by (subst dec_digits.simps) (simp add: digits_val_snoc)
  qed
qed

lemma digits_val_zeros: "digits_val (replicate k (CHR ''0'') @ s) = digits_val s"
  by (induction k) (auto simp: digits_val_def digit_val_def)

lemma digit_not_sign: "is_digit c \<Longrightarrow> c \<noteq> CHR ''-'' \<and> c \<noteq> CHR ''+''"
  by (auto simp: is_digit_def)

lemma Atoi_digits:
  assumes "s \<noteq> []" "list_all is_digit s" "digits_val s < 2 ^ 63" "0 \<le> digits_val s"
  shows "Atoi s = Some (digits_val s)"
proof -
  obtain c cs where s: "s = c # cs" using assms(1) by (cases s) auto
  then have "split_sign s = (False, s)"
    using assms(2) digit_not_sign [of c] by (auto simp: split_sign_def)
  then show ?thesis using assms by (simp add: Atoi_def)
qed

text \<open>Printing and parsing a non-negative number, padded or not, is the identity.\<close>

lemma Atoi_pad0:
  assumes "0 \<le> i" "i < 2 ^ 63"
  shows "Atoi (pad0 w i) = Some i"
proof -
  let ?d = "dec_digits i"
  let ?s = "replicate (w - length ?d) (CHR ''0'') @ ?d"
  have p: "pad0 w i = ?s" using assms by (simp add: pad0_def Itoa_def Let_def)
  have v: "digits_val ?s = i"
    using assms by (simp add: digits_val_zeros dec_digits_val)
  have "list_all is_digit ?s"
    using dec_digits_all [OF assms(1)] by (auto simp: list_all_iff is_digit_def)
  then have "Atoi ?s = Some (digits_val ?s)" using v assms by (intro Atoi_digits) auto
  then show ?thesis by (simp only: p v)
qed

lemma Atoi_Itoa: "0 \<le> i \<Longrightarrow> i < 2 ^ 63 \<Longrightarrow> Atoi (Itoa i) = Some i"
  using Atoi_pad0 [of i 0] by (simp add: pad0_def Let_def)

lemmas str_eval =
  ToLower_def ToUpper_def EqualFold_def lower_char_def upper_char_def is_space_def is_digit_def
  digit_val_def TrimLeftBy_def TrimRightBy_def TrimSpace_def HasPrefix_def HasSuffix_def
  CutPrefix_def Split_def FieldsFunc_def Fields_def Contains_def Let_def char_of_def bit_0

section \<open>Reachable states\<close>

lemma reach_inv:
  assumes "r\<^sup>*\<^sup>* a b" "P a" "\<And>x y. P x \<Longrightarrow> r x y \<Longrightarrow> P y"
  shows "P b"
  using assms by (induction rule: rtranclp_induct) auto

section \<open>Scanning for the best element\<close>

text \<open>
  The loop \<open>for each x: if score(x) > score(best) then best = x\<close> occurs in several components.  Its
  contract, for whatever function runs it: the result is one of the candidates, no candidate scores
  higher, and among the best it is the earliest.
\<close>

locale scan_best =
  fixes score :: "'a \<Rightarrow> 'b :: linorder"
    and pick :: "'a \<Rightarrow> 'a list \<Rightarrow> 'a"
  assumes pick_Nil: "pick b [] = b"
    and pick_Cons: "pick b (x # xs) = pick (if score x > score b then x else b) xs"
begin

lemma pick_in: "pick b xs \<in> set (b # xs)"
  by (induction xs arbitrary: b) (auto simp: pick_Nil pick_Cons split: if_splits)

lemma pick_ge: "x \<in> set (b # xs) \<Longrightarrow> score x \<le> score (pick b xs)"
proof (induction xs arbitrary: b x)
  case Nil
  then show ?case by (simp add: pick_Nil)
next
  case (Cons y ys)
  let ?b = "if score y > score b then y else b"
  have "score ?b \<le> score (pick ?b ys)" by (rule Cons.IH) simp
  moreover have "score b \<le> score ?b" "score y \<le> score ?b" by auto
  moreover have "x \<in> set ys \<Longrightarrow> score x \<le> score (pick ?b ys)" by (rule Cons.IH) simp
  ultimately show ?case using Cons.prems unfolding pick_Cons by (auto intro: order_trans)
qed

lemma pick_keeps: "(\<And>x. x \<in> set xs \<Longrightarrow> score x \<le> score b) \<Longrightarrow> pick b xs = b"
  by (induction xs) (auto simp: pick_Nil pick_Cons leD)

end

end
