(* ===== verification/GoFloat.thy ===== *)
theory GoFloat
  imports Complex_Main "HOL-Library.Log_Nat" OSPrelude
begin

text \<open>
  Go's \<open>float64\<close> where the code computes with it: a double is a rational number, and every
  arithmetic operation rounds its exact result to 53 significant bits, ties to even.  The
  modelled values (picture sizes, bitrates, frame rates, seconds) stay far inside the range of
  normal doubles, so overflow, subnormal numbers and NaN are left out.
\<close>

definition rnd_even :: "rat \<Rightarrow> int" where
  "rnd_even x = (let f = floor x; r = x - of_int f in
     if r < 1 / 2 then f else if 1 / 2 < r then f + 1 else if even f then f else f + 1)"

definition scale2 :: "rat \<Rightarrow> int \<Rightarrow> rat" where
  "scale2 x k = (if 0 \<le> k then x * 2 ^ nat k else x / 2 ^ nat (- k))"

definition f64_pos :: "rat \<Rightarrow> rat" where
  "f64_pos x = (let (p, q) = quotient_of x;
       l = bitlen p - bitlen q;
       e = (if scale2 1 l \<le> x then l else l - 1)
     in scale2 (of_int (rnd_even (scale2 x (52 - e)))) (e - 52))"

text \<open>The nearest double of an exact value, and the operations of the code on doubles.\<close>

definition f64 :: "rat \<Rightarrow> rat" where
  "f64 x = (if x = 0 then 0 else if 0 < x then f64_pos x else - f64_pos (- x))"

definition fmul :: "rat \<Rightarrow> rat \<Rightarrow> rat" where
  "fmul a b = f64 (a * b)"

definition fdiv :: "rat \<Rightarrow> rat \<Rightarrow> rat" where
  "fdiv a b = f64 (a / b)"

definition fadd :: "rat \<Rightarrow> rat \<Rightarrow> rat" where
  "fadd a b = f64 (a + b)"

definition fsub :: "rat \<Rightarrow> rat \<Rightarrow> rat" where
  "fsub a b = f64 (a - b)"

text \<open>\<open>int(math.Round(x))\<close> rounds half away from zero; \<open>int(x)\<close> truncates.\<close>

definition go_round :: "rat \<Rightarrow> int" where
  "go_round x = (if 0 \<le> x then floor (x + 1 / 2) else - floor (1 / 2 - x))"

definition go_trunc :: "rat \<Rightarrow> int" where
  "go_trunc x = (if 0 \<le> x then floor x else ceiling x)"

lemma rnd_even_nonneg: "0 \<le> x \<Longrightarrow> 0 \<le> rnd_even x"
proof -
  assume "0 \<le> x"
  then have "0 \<le> floor x" by simp
  then show ?thesis by (simp add: rnd_even_def Let_def)
qed

lemma scale2_nonneg: "0 \<le> x \<Longrightarrow> 0 \<le> scale2 x k"
  by (simp add: scale2_def)

lemma f64_nonneg: "0 \<le> x \<Longrightarrow> 0 \<le> f64 x"
  by (auto simp: f64_def f64_pos_def Let_def rnd_even_nonneg scale2_nonneg split: prod.splits)

lemma go_round_nonneg: "0 \<le> x \<Longrightarrow> 0 \<le> go_round x"
  by (simp add: go_round_def)

lemma go_trunc_nonneg: "0 \<le> x \<Longrightarrow> 0 \<le> go_trunc x"
  by (simp add: go_trunc_def)

section \<open>The rounding error\<close>

text \<open>A double is off by at most one part in 2 to the 53rd.\<close>

lemma rnd_even_err: "\<bar>of_int (rnd_even x) - x\<bar> \<le> 1 / 2"
  unfolding rnd_even_def Let_def using of_int_floor_le [of x] floor_correct [of x] by (auto simp: abs_le_iff split: if_splits)

lemma scale2_powi: "scale2 x k = x * 2 powi k"
  by (simp add: scale2_def power_int_def power_one_over field_simps)

lemma f64_pos_err:
  assumes "0 < x"
  shows "\<bar>f64_pos x - x\<bar> \<le> x / 2 ^ 53"
proof -
  obtain p q where pq: "quotient_of x = (p, q)" by fastforce
  have x: "x = of_int p / of_int q" "0 < q" using pq quotient_of_div quotient_of_denom_pos by blast+
  then have p: "0 < p" using assms by (simp add: zero_less_divide_iff)
  define l where "l = bitlen p - bitlen q"
  define e where "e = (if scale2 1 l \<le> x then l else l - 1)"
  have bp: "2 ^ nat (bitlen p - 1) \<le> p" using bitlen_bounds [OF p] by blast
  have bq: "q < 2 ^ nat (bitlen q)" using bitlen_bounds [OF x(2)] by blast
  have "(2 :: rat) powi (l - 1) * of_int q \<le> of_int p"
  proof -
    have "bitlen p \<noteq> 0" using bitlen_bounds [OF p] p by auto
    then have n: "0 < bitlen p" "0 \<le> bitlen q" using bitlen_nonneg [of p] bitlen_nonneg [of q] by simp_all
    have "of_int q \<le> (2 :: rat) powi bitlen q" using bq n by (simp add: power_int_def flip: of_int_power)
    then have "(2 :: rat) powi (l - 1) * of_int q \<le> 2 powi (l - 1) * 2 powi bitlen q" by (intro mult_left_mono) auto
    also have "\<dots> = 2 powi (bitlen p - 1)" by (simp add: l_def flip: power_int_add)
    also have "\<dots> \<le> of_int p" using bp n by (simp add: power_int_def)
    finally show ?thesis .
  qed
  then have "(2 :: rat) powi (l - 1) \<le> x" using x by (simp add: pos_le_divide_eq)
  then have e: "(2 :: rat) powi e \<le> x" by (auto simp: e_def scale2_powi)
  define y where "y = scale2 x (52 - e)"
  have "x = y * 2 powi (e - 52)" by (simp add: y_def scale2_powi flip: power_int_add)
  moreover have "f64_pos x = of_int (rnd_even y) * 2 powi (e - 52)"
    by (simp add: f64_pos_def pq Let_def y_def e_def l_def scale2_powi)
  ultimately have "f64_pos x - x = (of_int (rnd_even y) - y) * 2 powi (e - 52)" by (simp add: algebra_simps)
  then have "\<bar>f64_pos x - x\<bar> = \<bar>of_int (rnd_even y) - y\<bar> * 2 powi (e - 52)" by (simp add: abs_mult)
  also have "\<dots> \<le> 1 / 2 * 2 powi (e - 52)" using rnd_even_err by (intro mult_right_mono) auto
  also have "\<dots> = 2 powi e / 2 ^ 53" by (simp add: power_int_diff)
  also have "\<dots> \<le> x / 2 ^ 53" using e by (intro divide_right_mono) auto
  finally show ?thesis .
qed

lemma f64_err: "0 \<le> x \<Longrightarrow> \<bar>f64 x - x\<bar> \<le> x / 2 ^ 53"
  using f64_pos_err [of x] by (auto simp: f64_def)

lemma f64_near: "0 \<le> x \<Longrightarrow> x * (1 - 1 / 2 ^ 53) \<le> f64 x \<and> f64 x \<le> x * (1 + 1 / 2 ^ 53)"
proof -
  assume "0 \<le> x"
  then have "f64 x - x \<le> x / 2 ^ 53" "- (f64 x - x) \<le> x / 2 ^ 53" using f64_err abs_le_D1 abs_le_D2 by blast+
  then show ?thesis by (simp add: right_diff_distrib distrib_left)
qed

end
