(* ===== verification/ProfileLevel.thy ===== *)
theory ProfileLevel
  imports GoFloat
begin

text \<open>
  Video profiles and levels (\<open>internal/transcode/profilelevel.go\<close>, with the codec aliases of
  \<open>internal/transcode/decision.go\<close>): the rank order of profiles, the declared client limits,
  the level tables, and the search for the tallest picture that fits a level.
\<close>

section \<open>Codec aliases\<close>

definition canonicalVideoCodec :: "string \<Rightarrow> string" where
  "canonicalVideoCodec codec = (let c = ToLower codec in
     if c \<in> {''h264'', ''avc'', ''avc1''} then ''h264''
     else if c \<in> {''hevc'', ''h265'', ''hvc1''} then ''h265''
     else if c = ''av1'' then ''av1''
     else if c = ''vp9'' then ''vp9''
     else if c = ''mpeg4'' then ''mpeg4''
     else c)"

definition CanonicalAudioCodec :: "string \<Rightarrow> string" where
  "CanonicalAudioCodec codec = (let c = ToLower codec in
     if c = ''aac'' then ''aac''
     else if c \<in> {''ac3'', ''ac-3''} then ''ac3''
     else if c \<in> {''eac3'', ''e-ac-3'', ''eac-3''} then ''eac3''
     else if c = ''truehd'' then ''truehd''
     else if c \<in> {''dts'', ''dts-hd'', ''dtshd''} then ''dts''
     else if c \<in> {''mp3'', ''mp2''} then ''mp3''
     else if c = ''flac'' then ''flac''
     else if c = ''vorbis'' then ''vorbis''
     else if c = ''opus'' then ''opus''
     else c)"

definition canonicalContainer :: "string \<Rightarrow> string" where
  "canonicalContainer container = (let c = ToLower container in
     if c \<in> {''matroska'', ''mkv''} then ''mkv''
     else if c \<in> {''mp4'', ''m4v'', ''mov'', ''isom''} then ''mp4''
     else if c = ''avi'' then ''avi''
     else if c \<in> {''ts'', ''mpeg-ts'', ''mpegts''} then ''ts''
     else c)"

section \<open>Declared limits\<close>

text \<open>The zero fields of a limit are \<open>not declared\<close>.\<close>

record VideoLimit =
  vl_Profile :: string
  vl_Level :: int

definition no_limit :: VideoLimit where
  "no_limit = \<lparr>vl_Profile = [], vl_Level = 0\<rparr>"

definition declared :: "VideoLimit \<Rightarrow> bool" where
  "declared l \<longleftrightarrow> vl_Profile l \<noteq> [] \<or> vl_Level l > 0"

datatype limit_field = FieldProfile | FieldLevel

fun limitCodec_from :: "(string \<times> string) list \<Rightarrow> string \<Rightarrow> (string \<times> limit_field) option" where
  "limitCodec_from [] key = None"
| "limitCodec_from ((prefix, codec) # ps) key =
     (case CutPrefix key prefix of
        Some rest \<Rightarrow>
          if rest \<in> {''profile'', ''maxprofile''} then Some (codec, FieldProfile)
          else if rest \<in> {''level'', ''maxlevel''} then Some (codec, FieldLevel)
          else limitCodec_from ps key
      | None \<Rightarrow> limitCodec_from ps key)"

definition limitCodec :: "string \<Rightarrow> (string \<times> limit_field) option" where
  "limitCodec key = limitCodec_from
     [(''h264'', ''h264''), (''avc'', ''h264''), (''hevc'', ''h265''), (''h265'', ''h265''),
      (''av1'', ''av1'')] key"

definition normaliseProfile :: "string \<Rightarrow> string" where
  "normaliseProfile name = filter (\<lambda>r. (97 \<le> (of_char r :: nat) \<and> (of_char r :: nat) \<le> 122) \<or> is_digit r)
     (ToLower name)"

definition profileRank :: "string \<Rightarrow> string \<Rightarrow> int" where
  "profileRank codec pname =
    (if codec = ''h264'' then
       (if pname \<in> {''baseline'', ''constrainedbaseline''} then 1
        else if pname = ''main'' then 2
        else if pname \<in> {''high'', ''progressivehigh'', ''constrainedhigh''} then 3
        else if pname \<in> {''high10'', ''high10intra''} then 4
        else if pname \<in> {''high422'', ''high422intra''} then 5
        else if pname \<in> {''high444'', ''high444predictive'', ''high444intra'', ''cavlc444'', ''cavlc444intra''} then 6
        else 0)
     else if codec = ''h265'' then
       (if pname \<in> {''main'', ''mainstillpicture''} then 1
        else if pname \<in> {''main10'', ''main10stillpicture''} then 2
        else if pname \<in> {''rext'', ''main12'', ''main42210'', ''main444'', ''main44410'', ''scc''} then 3
        else 0)
     else if codec = ''av1'' then
       (if pname = ''main'' then 1 else if pname = ''high'' then 2
        else if pname = ''professional'' then 3 else 0)
     else 0)"

definition profile_names :: "string \<Rightarrow> string list" where
  "profile_names codec =
    (if codec = ''h264'' then ['''', ''baseline'', ''main'', ''high'', ''high10'', ''high422'', ''high444'']
     else if codec = ''h265'' then ['''', ''main'', ''main10'', ''rext'']
     else if codec = ''av1'' then ['''', ''main'', ''high'', ''professional'']
     else [])"

definition canonicalProfile :: "string \<Rightarrow> string \<Rightarrow> string" where
  "canonicalProfile codec pname = (let rank = profileRank codec pname; names = profile_names codec in
     if rank \<le> 0 \<or> int (length names) \<le> rank then '''' else names ! nat rank)"

definition parseClientLevel :: "string \<Rightarrow> string \<Rightarrow> int" where
  "parseClientLevel codec v0 = (let v = TrimSpace v0 in
     case Cut v ''.'' of
       Some (major, minor) \<Rightarrow>
         (case (Atoi major, Atoi minor) of
            (Some ma, Some mi) \<Rightarrow> if ma \<le> 0 \<or> mi < 0 \<or> mi > 9 then 0 else wrap64 (ma * 10 + mi)
          | _ \<Rightarrow> 0)
     | None \<Rightarrow>
         (case Atoi v of
            None \<Rightarrow> 0
          | Some n \<Rightarrow>
              if n \<le> 0 then 0 else if n < 10 then n * 10 else if n < 100 then n
              else if codec = ''h265'' \<and> n mod 3 = 0 then n div 3 else 0))"

definition VideoLevelTenths :: "string \<Rightarrow> int \<Rightarrow> int" where
  "VideoLevelTenths codec raw =
    (if raw \<le> 0 then 0
     else let c = canonicalVideoCodec codec in
       if c = ''h264'' then (if raw = 9 then 10 else raw)
       else if c = ''h265'' then raw div 3
       else if c = ''av1'' then (if raw > 23 then 0 else (2 + raw div 4) * 10 + raw mod 4)
       else 0)"

definition levelDotted :: "int \<Rightarrow> string" where
  "levelDotted tenths = Itoa (go_div tenths 10) @ ''.'' @ Itoa (go_mod tenths 10)"

definition FormatLevel :: "int \<Rightarrow> string" where
  "FormatLevel tenths = (if go_mod tenths 10 = 0 then Itoa (go_div tenths 10)
     else Itoa (go_div tenths 10) @ ''.'' @ Itoa (go_mod tenths 10))"

definition profileLabel :: "string \<Rightarrow> string \<Rightarrow> string" where
  "profileLabel codec token =
    (if token = ''baseline'' then ''Baseline'' else if token = ''main'' then ''Main''
     else if token = ''high'' then ''High'' else if token = ''high10'' then ''High 10''
     else if token = ''high422'' then ''High 4:2:2'' else if token = ''high444'' then ''High 4:4:4''
     else if token = ''main10'' then ''Main 10'' else if token = ''rext'' then ''RExt''
     else if token = ''professional'' then ''Professional'' else token)"

section \<open>Level tables\<close>

record levelSpec =
  ls_tenths :: int
  ls_maxPicture :: int
  ls_maxRate :: int
  ls_maxKbps :: int

definition spec_row :: "int \<times> int \<times> int \<times> int \<Rightarrow> levelSpec" where
  "spec_row = (\<lambda>(t, p, r, k). \<lparr>ls_tenths = t, ls_maxPicture = p, ls_maxRate = r, ls_maxKbps = k\<rparr>)"

definition h264Levels :: "levelSpec list" where
  "h264Levels = map spec_row
    [(10, 99 * 256, 1485 * 256, 64), (11, 396 * 256, 3000 * 256, 192),
     (12, 396 * 256, 6000 * 256, 384), (13, 396 * 256, 11880 * 256, 768),
     (20, 396 * 256, 11880 * 256, 2000), (21, 792 * 256, 19800 * 256, 4000),
     (22, 1620 * 256, 20250 * 256, 4000), (30, 1620 * 256, 40500 * 256, 10000),
     (31, 3600 * 256, 108000 * 256, 14000), (32, 5120 * 256, 216000 * 256, 20000),
     (40, 8192 * 256, 245760 * 256, 20000), (41, 8192 * 256, 245760 * 256, 50000),
     (42, 8704 * 256, 522240 * 256, 50000), (50, 22080 * 256, 589824 * 256, 135000),
     (51, 36864 * 256, 983040 * 256, 240000), (52, 36864 * 256, 2073600 * 256, 240000),
     (60, 139264 * 256, 4177920 * 256, 240000), (61, 139264 * 256, 8355840 * 256, 480000),
     (62, 139264 * 256, 16711680 * 256, 800000)]"

definition hevcLevels :: "levelSpec list" where
  "hevcLevels = map spec_row
    [(10, 36864, 552960, 128), (20, 122880, 3686400, 1500), (21, 245760, 7372800, 3000),
     (30, 552960, 16588800, 6000), (31, 983040, 33177600, 10000), (40, 2228224, 66846720, 12000),
     (41, 2228224, 133693440, 20000), (50, 8912896, 267386880, 25000),
     (51, 8912896, 534773760, 40000), (52, 8912896, 1069547520, 60000),
     (60, 35651584, 1069547520, 60000), (61, 35651584, 2139095040, 120000),
     (62, 35651584, 4278190080, 240000)]"

definition av1Levels :: "levelSpec list" where
  "av1Levels = map spec_row
    [(20, 147456, 4423680, 1500), (21, 278784, 8363520, 3000), (30, 665856, 19975680, 6000),
     (31, 1065024, 31950720, 10000), (40, 2359296, 70778880, 12000), (41, 2359296, 141557760, 20000),
     (50, 8912896, 267386880, 30000), (51, 8912896, 534773760, 40000),
     (52, 8912896, 1069547520, 60000), (53, 8912896, 1069547520, 60000),
     (60, 35651584, 1069547520, 60000), (61, 35651584, 2139095040, 100000),
     (62, 35651584, 4278190080, 160000), (63, 35651584, 4278190080, 160000)]"

definition level_table :: "string \<Rightarrow> levelSpec list option" where
  "level_table codec = (let c = canonicalVideoCodec codec in
     if c = ''h264'' then Some h264Levels else if c = ''h265'' then Some hevcLevels
     else if c = ''av1'' then Some av1Levels else None)"

text \<open>The loop keeps the last row at or below the level.\<close>

fun last_row_le :: "levelSpec list \<Rightarrow> int \<Rightarrow> levelSpec option \<Rightarrow> levelSpec option" where
  "last_row_le [] tenths best = best"
| "last_row_le (s # ss) tenths best =
     last_row_le ss tenths (if ls_tenths s \<le> tenths then Some s else best)"

definition levelLimits :: "string \<Rightarrow> int \<Rightarrow> levelSpec option" where
  "levelLimits codec tenths =
     (case level_table codec of None \<Rightarrow> None | Some t \<Rightarrow> last_row_le t tenths None)"

definition pictureSamples :: "string \<Rightarrow> int \<Rightarrow> int \<Rightarrow> int" where
  "pictureSamples codec w h =
    (if canonicalVideoCodec codec = ''h264''
     then go_div (w + 15) 16 * go_div (h + 15) 16 * 256 else w * h)"

definition FitsLevel :: "string \<Rightarrow> int \<Rightarrow> int \<Rightarrow> int \<Rightarrow> rat \<Rightarrow> bool" where
  "FitsLevel codec tenths w h fps =
    (case levelLimits codec tenths of
       None \<Rightarrow> True
     | Some spec \<Rightarrow>
         if w \<le> 0 \<or> h \<le> 0 then True
         else let samples = pictureSamples codec w h in
           if samples > ls_maxPicture spec then False
           else fps \<le> 0 \<or> fmul (of_int samples) fps \<le> of_int (ls_maxRate spec))"

text \<open>
  The width \<open>LevelMaxHeight\<close> gives a height: the source's aspect, rounded, then made even.
  \<open>level_search\<close> is its loop \<open>for h := srcH &^ 1; h >= 2; h -= 2\<close>.
\<close>

definition even_width :: "rat \<Rightarrow> int \<Rightarrow> int" where
  "even_width aspect h = (let w = go_round (fmul (of_int h) aspect) in w + w mod 2)"

function level_search :: "(int \<Rightarrow> bool) \<Rightarrow> int \<Rightarrow> int" where
  "level_search fits h = (if h < 2 then 2 else if fits h then h else level_search fits (h - 2))"
  by pat_completeness auto
termination
  by (relation "measure (\<lambda>(fits, h). nat h)") auto

declare level_search.simps [simp del]

definition LevelMaxHeight :: "string \<Rightarrow> int \<Rightarrow> int \<Rightarrow> int \<Rightarrow> rat \<Rightarrow> int" where
  "LevelMaxHeight codec tenths srcW srcH fps =
    (if tenths \<le> 0 \<or> srcW \<le> 0 \<or> srcH \<le> 0 then 0
     else if levelLimits codec tenths = None \<or> FitsLevel codec tenths srcW srcH fps then 0
     else let aspect = fdiv (of_int srcW) (of_int srcH) in
       level_search (\<lambda>h. FitsLevel codec tenths (even_width aspect h) h fps) (srcH - srcH mod 2))"

definition LevelMaxKbps :: "string \<Rightarrow> int \<Rightarrow> int" where
  "LevelMaxKbps codec tenths =
    (case levelLimits codec tenths of
       None \<Rightarrow> 0
     | Some spec \<Rightarrow> if tenths \<le> 0 then 0 else ls_maxKbps spec * 2 div 3)"

section \<open>The tables are monotone, and so is fitting a level\<close>

definition row_le :: "levelSpec \<Rightarrow> levelSpec \<Rightarrow> bool" where
  "row_le a b \<longleftrightarrow> ls_tenths a \<le> ls_tenths b \<and> ls_maxPicture a \<le> ls_maxPicture b
     \<and> ls_maxRate a \<le> ls_maxRate b \<and> ls_maxKbps a \<le> ls_maxKbps b"

lemma row_le_refl [simp]: "row_le a a"
  by (simp add: row_le_def)

lemma row_le_trans: "row_le a b \<Longrightarrow> row_le b c \<Longrightarrow> row_le a c"
  by (auto simp: row_le_def)

lemma last_row_le_filter:
  "last_row_le t x best =
     (let r = filter (\<lambda>s. ls_tenths s \<le> x) t in if r = [] then best else Some (last r))"
  by (induction t arbitrary: best) (auto simp: Let_def)

lemma sorted_wrt_last:
  "sorted_wrt P xs \<Longrightarrow> x \<in> set xs \<Longrightarrow> (\<And>y. P y y) \<Longrightarrow> P x (last xs)"
  by (induction xs) auto

lemma last_row_le_mono:
  assumes srt: "sorted_wrt row_le t" and le: "x \<le> y"
    and a: "last_row_le t x None = Some a"
  shows "\<exists>b. last_row_le t y None = Some b \<and> row_le a b"
proof -
  let ?r = "filter (\<lambda>s. ls_tenths s \<le> x) t" and ?q = "filter (\<lambda>s. ls_tenths s \<le> y) t"
  from a have ne: "?r \<noteq> []" and al: "a = last ?r"
    by (auto simp: last_row_le_filter Let_def split: if_splits)
  then have "a \<in> set ?r" by (metis last_in_set)
  then have m: "a \<in> set ?q" using le by auto
  have "sorted_wrt row_le ?q" using srt by (rule sorted_wrt_filter)
  then have "row_le a (last ?q)" using m by (rule sorted_wrt_last) simp
  moreover have "?q \<noteq> []" using m by (metis list.set(1) empty_iff)
  ultimately show ?thesis by (simp add: last_row_le_filter Let_def)
qed

lemma level_tables_sorted:
  "level_table codec = Some t \<Longrightarrow> sorted_wrt row_le t"
  by (auto simp: level_table_def Let_def row_le_def spec_row_def h264Levels_def hevcLevels_def
      av1Levels_def split: if_splits)

lemma levelLimits_mono:
  assumes "levelLimits codec x = Some a" "x \<le> y"
  shows "\<exists>b. levelLimits codec y = Some b \<and> row_le a b"
  using assms last_row_le_mono level_tables_sorted
  by (auto simp: levelLimits_def split: option.splits)

text \<open>
  A picture and frame rate that fit a level the table knows
  fit every higher level, and the bitrate cap of a higher level is no lower.
\<close>

theorem FitsLevel_mono:
  assumes "levelLimits codec x \<noteq> None" "x \<le> y" "FitsLevel codec x w h fps"
  shows "FitsLevel codec y w h fps \<and> (0 < x \<longrightarrow> LevelMaxKbps codec x \<le> LevelMaxKbps codec y)"
proof -
  obtain a where a: "levelLimits codec x = Some a" using assms(1) by auto
  then obtain b where b: "levelLimits codec y = Some b" and ab: "row_le a b"
    using levelLimits_mono assms(2) by blast
  have r: "(of_int (ls_maxRate a) :: rat) \<le> of_int (ls_maxRate b)" using ab by (simp add: row_le_def)
  have "FitsLevel codec y w h fps"
    using assms(3) ab r by (auto simp: FitsLevel_def a b row_le_def Let_def split: if_splits)
  moreover have "ls_maxKbps a * 2 div 3 \<le> ls_maxKbps b * 2 div 3"
    using ab by (intro zdiv_mono1) (auto simp: row_le_def)
  ultimately show ?thesis using assms(2) by (auto simp: LevelMaxKbps_def a b)
qed

theorem FitsLevel_mono_witness:
  "FitsLevel ''hevc'' 51 1920 1080 30 \<and> LevelMaxKbps ''hevc'' 40 \<le> LevelMaxKbps ''hevc'' 51"
proof -
  have 1: "levelLimits ''hevc'' 40 \<noteq> None" by code_simp
  have 2: "FitsLevel ''hevc'' 40 1920 1080 30" by code_simp
  show ?thesis using FitsLevel_mono [OF 1 _ 2, of 51] by simp
qed

section \<open>The height search\<close>

lemma level_search_result:
  assumes "even h"
  shows "even (level_search fits h) \<and> 2 \<le> level_search fits h
     \<and> level_search fits h \<le> max 2 h
     \<and> (level_search fits h = 2 \<or> fits (level_search fits h))
     \<and> (\<forall>k. even k \<and> level_search fits h < k \<and> k \<le> h \<longrightarrow> \<not> fits k)"
  using assms
proof (induction fits h rule: level_search.induct)
  case (1 fits h)
  show ?case
  proof (cases "h < 2 \<or> fits h")
    case True
    then show ?thesis using "1.prems" by (subst (1 2 3 4 5 6) level_search.simps) auto
  next
    case False
    then have e: "level_search fits h = level_search fits (h - 2)"
      by (subst level_search.simps) simp
    have "even (h - 2)" using "1.prems" by simp
    then have IH: "even (level_search fits (h - 2)) \<and> 2 \<le> level_search fits (h - 2)
       \<and> level_search fits (h - 2) \<le> max 2 (h - 2)
       \<and> (level_search fits (h - 2) = 2 \<or> fits (level_search fits (h - 2)))
       \<and> (\<forall>k. even k \<and> level_search fits (h - 2) < k \<and> k \<le> h - 2 \<longrightarrow> \<not> fits k)"
      using "1.IH" False by blast
    have no: "\<not> fits k" if "even k" "level_search fits (h - 2) < k" "k \<le> h" for k
    proof (cases "k = h")
      case True
      with False show ?thesis by simp
    next
      case kh: False
      then have "k \<noteq> h - 1" using that(1) "1.prems" by auto
      then have "k \<le> h - 2" using kh that(3) by linarith
      then show ?thesis using IH that by blast
    qed
    have "level_search fits (h - 2) \<le> max 2 h" using IH by linarith
    then show ?thesis using IH no unfolding e by blast
  qed
qed

text \<open>
  A non-zero \<open>LevelMaxHeight\<close> is an even height of at least 2 and at most the
  source's, its picture fits the client's level (unless nothing does and the floor of 2 is
  returned), and no taller even height at the source's aspect does.
\<close>

theorem LevelMaxHeight_tallest:
  assumes "LevelMaxHeight codec t W H fps = h" "h \<noteq> 0"
  shows "even h \<and> 2 \<le> h \<and> h \<le> max 2 H
    \<and> (h = 2 \<or> FitsLevel codec t (even_width (fdiv (of_int W) (of_int H)) h) h fps)
    \<and> (\<forall>k. even k \<and> h < k \<and> k \<le> H
        \<longrightarrow> \<not> FitsLevel codec t (even_width (fdiv (of_int W) (of_int H)) k) k fps)"
proof -
  let ?f = "\<lambda>h. FitsLevel codec t (even_width (fdiv (of_int W) (of_int H)) h) h fps"
  have h: "h = level_search ?f (H - H mod 2)"
    using assms by (auto simp: LevelMaxHeight_def Let_def split: if_splits)
  have e: "even (H - H mod 2)" by presburger
  have b: "k \<le> H - H mod 2" if "even k" "k \<le> H" for k :: int using that by presburger
  note R = level_search_result [OF e, of ?f, folded h]
  have "h \<le> max 2 H"
  proof -
    have "h \<le> max 2 (H - H mod 2)" using R by blast
    also have "\<dots> \<le> max 2 H" by auto
    finally show ?thesis .
  qed
  then show ?thesis using R b by blast
qed

theorem LevelMaxHeight_tallest_witness:
  "LevelMaxHeight ''hevc'' 10 256 146 0 = 144 \<and> even (144 :: int)
     \<and> \<not> FitsLevel ''hevc'' 10 (even_width (fdiv (of_int 256) (of_int 146)) 146) 146 0"
proof -
  let ?f = "\<lambda>h. FitsLevel ''hevc'' 10 (even_width (fdiv (of_int 256) (of_int 146)) h) h 0"
  have f: "\<not> ?f 146" "?f 144" by code_simp+
  have s: "level_search ?f 146 = 144"
    using f by (subst level_search.simps, subst level_search.simps) simp
  have l: "levelLimits ''hevc'' 10 \<noteq> None" "\<not> FitsLevel ''hevc'' 10 256 146 0" by code_simp+
  have v: "LevelMaxHeight ''hevc'' 10 256 146 0 = 144"
    using s l by (simp only: LevelMaxHeight_def Let_def) simp
  have "even (146 :: int) \<and> (144 :: int) < 146 \<and> (146 :: int) \<le> 146" by simp
  moreover have "(144 :: int) \<noteq> 0" by simp
  ultimately show ?thesis using LevelMaxHeight_tallest [OF v] v by blast
qed

section \<open>Levels as text\<close>

lemma is_digit_simp: "is_digit c \<Longrightarrow> c \<noteq> CHR ''.'' \<and> \<not> is_space c"
  by (auto simp: is_digit_def is_space_def)

lemma Itoa_digits: "0 \<le> n \<Longrightarrow> list_all is_digit (Itoa n) \<and> Itoa n \<noteq> []"
  by (simp add: Itoa_def dec_digits_all)

lemma TrimSpace_id:
  assumes "list_all (\<lambda>c. \<not> is_space c) s"
  shows "TrimSpace s = s"
proof -
  have "dropWhile is_space s = s" using assms by (cases s) auto
  moreover have "dropWhile is_space (rev s) = rev s"
    using assms by (cases "rev s") (auto simp: list_all_iff dest: arg_cong [of _ _ set])
  ultimately show ?thesis by (simp add: TrimSpace_def TrimRightBy_def TrimLeftBy_def)
qed

lemma list_all_nospace: "list_all is_digit s \<Longrightarrow> list_all (\<lambda>c. \<not> is_space c) s"
  by (induction s) (auto dest: is_digit_simp)

lemma Cut_dot_None: "list_all is_digit s \<Longrightarrow> Cut s ''.'' = None"
  by (induction s) (auto simp: HasPrefix_def dest: is_digit_simp)

lemma Cut_dot_Some: "list_all is_digit a \<Longrightarrow> Cut (a @ CHR ''.'' # b) ''.'' = Some (a, b)"
  by (induction a) (auto simp: HasPrefix_def dest: is_digit_simp)

lemma parse_whole:
  assumes "1 \<le> a" "a < 10"
  shows "parseClientLevel codec (Itoa a) = a * 10"
proof -
  have d: "list_all is_digit (Itoa a)" using Itoa_digits assms by simp
  then have "TrimSpace (Itoa a) = Itoa a"
    by (intro TrimSpace_id) (rule list_all_nospace)
  moreover have "Atoi (Itoa a) = Some a" using assms by (intro Atoi_Itoa) auto
  ultimately show ?thesis using d assms by (simp add: parseClientLevel_def Cut_dot_None)
qed

lemma parse_dotted:
  assumes "1 \<le> a" "a < 10" "0 \<le> b" "b \<le> 9"
  shows "parseClientLevel codec (Itoa a @ ''.'' @ Itoa b) = a * 10 + b"
proof -
  have d: "list_all is_digit (Itoa a)" "list_all is_digit (Itoa b)"
    using Itoa_digits assms by simp_all
  then have "TrimSpace (Itoa a @ ''.'' @ Itoa b) = Itoa a @ ''.'' @ Itoa b"
    by (intro TrimSpace_id) (simp add: list_all_nospace, simp add: is_space_def)
  moreover have "Atoi (Itoa a) = Some a" "Atoi (Itoa b) = Some b"
    using assms by (auto intro: Atoi_Itoa)
  moreover have "wrap64 (a * 10 + b) = a * 10 + b" using assms by (intro wrap64_id) auto
  ultimately show ?thesis using d assms by (simp add: parseClientLevel_def Cut_dot_Some)
qed

lemma parse_plain:
  assumes "10 \<le> t" "t < 100"
  shows "parseClientLevel codec (Itoa t) = t"
proof -
  have d: "list_all is_digit (Itoa t)" using Itoa_digits assms by simp
  then have "TrimSpace (Itoa t) = Itoa t"
    by (intro TrimSpace_id) (rule list_all_nospace)
  then show ?thesis using d assms by (simp add: parseClientLevel_def Cut_dot_None Atoi_Itoa)
qed

lemma parse_printed:
  assumes "10 \<le> t" "t < 100"
  shows "parseClientLevel codec (FormatLevel t) = t" "parseClientLevel codec (levelDotted t) = t"
proof -
  have q: "go_div t 10 = t div 10" "go_mod t 10 = t mod 10"
    using assms by (simp_all add: go_div_nonneg go_mod_nonneg)
  have r: "1 \<le> t div 10" "t div 10 < 10" "0 \<le> t mod 10" "t mod 10 \<le> 9" using assms by auto
  have s: "t div 10 * 10 + t mod 10 = t" by simp
  then show "parseClientLevel codec (FormatLevel t) = t" "parseClientLevel codec (levelDotted t) = t"
    using parse_dotted [OF r, of codec] parse_whole [OF r(1,2), of codec]
    by (auto simp: FormatLevel_def levelDotted_def q)
qed

text \<open>
  A level between 1.0 and 9.9 printed for the worker or the admin, with or
  without a trailing \<open>.0\<close>, reads back as the same level.
\<close>

theorem parseClientLevel_format:
  assumes "10 \<le> t" "t < 100"
  shows "parseClientLevel codec (FormatLevel t) = t \<and> parseClientLevel codec (levelDotted t) = t"
  using parse_printed [OF assms] by simp

theorem parseClientLevel_format_witness:
  "parseClientLevel ''h264'' (FormatLevel 50) = 50 \<and> parseClientLevel ''h264'' (levelDotted 50) = 50"
  using parseClientLevel_format [of 50 "''h264''"] by simp

end
