(* ===== verification/Caps.thy ===== *)
theory Caps
  imports ProfileLevel
begin

text \<open>
  What a client says it can play (\<open>internal/transcode/capability.go\<close>): the capability record,
  the parser of the \<open>X-Client-Capabilities\<close> header and the lookups on the record.
\<close>

section \<open>The capability record\<close>

text \<open>
  \<open>SupportsHLG\<close> is a nil-able pointer in the code (\<^const>\<open>None\<close> when the profile does not
  mention HLG), \<open>VideoLimits\<close> a Go map with the zero limit for a missing key.
\<close>

record ClientCapabilities =
  VideoCodecs :: "string list"
  AudioCodecs :: "string list"
  Containers :: "string list"
  cc_MaxWidth :: int
  cc_MaxHeight :: int
  MaxAudioChannels :: int
  MaxVideoBitDepth :: int
  MaxVP9BitDepth :: int
  SupportsHDR :: bool
  SupportsHLG :: "bool option"
  SupportsDV :: bool
  DVProfiles :: "string list"
  SupportsHEVC :: bool
  SupportsAV1 :: bool
  AcceptsOptimized :: bool
  AudioPassthrough :: "string list"
  VideoLimits :: "string \<Rightarrow> VideoLimit option"

text \<open>The record \<open>ParseCapabilities\<close> starts from.\<close>

definition initial_caps :: ClientCapabilities where
  "initial_caps = \<lparr>VideoCodecs = [], AudioCodecs = [], Containers = [], cc_MaxWidth = 1920,
     cc_MaxHeight = 1080, MaxAudioChannels = 6, MaxVideoBitDepth = 8, MaxVP9BitDepth = 0,
     SupportsHDR = False, SupportsHLG = None, SupportsDV = False, DVProfiles = [],
     SupportsHEVC = False, SupportsAV1 = False, AcceptsOptimized = False, AudioPassthrough = [],
     VideoLimits = (\<lambda>_. None)\<rparr>"

section \<open>Lookups\<close>

definition SupportsVideoCodec :: "ClientCapabilities \<Rightarrow> string \<Rightarrow> bool" where
  "SupportsVideoCodec c codec \<longleftrightarrow> list_ex (\<lambda>v. ToLower v = ToLower codec) (VideoCodecs c)"

definition SupportsAudioCodec :: "ClientCapabilities \<Rightarrow> string \<Rightarrow> bool" where
  "SupportsAudioCodec c codec \<longleftrightarrow> list_ex (\<lambda>v. ToLower v = ToLower codec) (AudioCodecs c)"

definition PassesThroughAudio :: "ClientCapabilities \<Rightarrow> string \<Rightarrow> bool" where
  "PassesThroughAudio c codec \<longleftrightarrow> list_ex (\<lambda>v. v = CanonicalAudioCodec codec) (AudioPassthrough c)"

definition passthroughCodec :: "string \<Rightarrow> bool" where
  "passthroughCodec codec \<longleftrightarrow> codec \<in> {''ac3'', ''eac3'', ''truehd'', ''dts''}"

definition SupportsContainer :: "ClientCapabilities \<Rightarrow> string \<Rightarrow> bool" where
  "SupportsContainer c container0 = (let container = ToLower container0 in
     if list_ex (\<lambda>v. ToLower v = container) (Containers c) then True
     else if Containers c = [] then container \<in> {''mkv'', ''mp4'', ''mov''}
     else False)"

definition SupportsDVProfile :: "ClientCapabilities \<Rightarrow> string \<Rightarrow> bool" where
  "SupportsDVProfile c key \<longleftrightarrow> key \<noteq> '''' \<and> list_ex (\<lambda>p. p = key) (DVProfiles c)"

definition VideoLimitFor :: "ClientCapabilities \<Rightarrow> string \<Rightarrow> VideoLimit" where
  "VideoLimitFor c codec =
     (case VideoLimits c (canonicalVideoCodec codec) of None \<Rightarrow> no_limit | Some l \<Rightarrow> l)"

definition HEVCMain8Only :: "ClientCapabilities \<Rightarrow> bool" where
  "HEVCMain8Only c \<longleftrightarrow> vl_Profile (VideoLimitFor c ''h265'') = ''main''"

section \<open>Parsing\<close>

text \<open>
  \<open>parseInt\<close> reads leading digits and ignores the rest; its accumulator is a 64-bit \<open>int\<close> that
  wraps around.
\<close>

fun parseInt_from :: "string \<Rightarrow> int \<Rightarrow> int" where
  "parseInt_from [] n = n"
| "parseInt_from (c # cs) n =
     (if \<not> is_digit c then n else parseInt_from cs (wrap64 (n * 10 + digit_val c)))"

definition parseInt :: "string \<Rightarrow> int" where
  "parseInt s = parseInt_from s 0"

definition flag_value :: "string \<Rightarrow> bool" where
  "flag_value v \<longleftrightarrow> parseInt v > 0 \<or> EqualFold v ''true''"

definition add_unique :: "string list \<Rightarrow> string \<Rightarrow> string list" where
  "add_unique out k = (if k \<in> set out then out else out @ [k])"

fun parseDVProfiles_loop :: "string list \<Rightarrow> string list \<Rightarrow> string list" where
  "parseDVProfiles_loop [] out = out"
| "parseDVProfiles_loop (v # vs) out = (let k = ToLower (TrimSpace v) in
     parseDVProfiles_loop vs
       (if k \<in> {''5'', ''05''} then add_unique out ''5''
        else if k \<in> {''7'', ''07''} then add_unique out ''7''
        else if k \<in> {''8'', ''08'', ''8.1'', ''08.1''} then add_unique out ''8.1''
        else if k \<in> {''8.4'', ''08.4''} then add_unique out ''8.4''
        else if k = ''8.x'' then add_unique (add_unique out ''8.1'') ''8.4''
        else out))"

definition parseDVProfiles :: "string \<Rightarrow> string list \<Rightarrow> string list" where
  "parseDVProfiles v vals = (let k = ToLower (TrimSpace v) in
     if k \<in> {'''', ''0'', ''false''} then []
     else if k \<in> {''1'', ''true''} then [''5'', ''8.1'', ''8.4'']
     else parseDVProfiles_loop vals [])"

definition setVideoLimit :: "ClientCapabilities \<Rightarrow> string \<Rightarrow> limit_field \<Rightarrow> string \<Rightarrow> ClientCapabilities" where
  "setVideoLimit c codec field v =
    (let lim = (case VideoLimits c codec of None \<Rightarrow> no_limit | Some l \<Rightarrow> l) in
     case field of
       FieldProfile \<Rightarrow>
         (let p = normaliseProfile v in
          if profileRank codec p = 0 then c
          else c\<lparr>VideoLimits := (VideoLimits c)(codec \<mapsto> lim\<lparr>vl_Profile := canonicalProfile codec p\<rparr>)\<rparr>)
     | FieldLevel \<Rightarrow>
         (let l = parseClientLevel codec v in
          if l \<le> 0 then c
          else c\<lparr>VideoLimits := (VideoLimits c)(codec \<mapsto> lim\<lparr>vl_Level := l\<rparr>)\<rparr>))"

fun add_passthrough :: "string list \<Rightarrow> ClientCapabilities \<Rightarrow> ClientCapabilities" where
  "add_passthrough [] caps = caps"
| "add_passthrough (v # vs) caps = (let c = CanonicalAudioCodec (TrimSpace v) in
     add_passthrough vs
       (if passthroughCodec c \<and> \<not> PassesThroughAudio caps c
        then caps\<lparr>AudioPassthrough := AudioPassthrough caps @ [c]\<rparr> else caps))"

text \<open>\<open>if n := parseInt(val); n > 0\<close>: a positive number replaces the default.\<close>

definition pos_or :: "string \<Rightarrow> int \<Rightarrow> int" where
  "pos_or v old = (let n = parseInt v in if n > 0 then n else old)"

text \<open>One \<open>key=value\<close> pair: the body of the parser's loop, its \<open>switch key\<close>.\<close>

definition parse_pair :: "string \<Rightarrow> string \<Rightarrow> ClientCapabilities \<Rightarrow> ClientCapabilities" where
  "parse_pair key v caps = (let vals = Split v (CHR '':'') in
     if key = ''videodecoder'' then
       caps\<lparr>VideoCodecs := VideoCodecs caps @ vals,
            SupportsHEVC := SupportsHEVC caps \<or> list_ex (\<lambda>w. ToLower w \<in> {''h265'', ''hevc''}) vals,
            SupportsAV1 := SupportsAV1 caps \<or> list_ex (\<lambda>w. ToLower w = ''av1'') vals\<rparr>
     else if key = ''audiodecoder'' then caps\<lparr>AudioCodecs := AudioCodecs caps @ vals\<rparr>
     else if key = ''audiopassthrough'' then add_passthrough vals caps
     else if key = ''protocols'' then caps\<lparr>Containers := Containers caps @ vals\<rparr>
     else if key = ''maxwidth'' then caps\<lparr>cc_MaxWidth := pos_or v (cc_MaxWidth caps)\<rparr>
     else if key = ''maxheight'' then caps\<lparr>cc_MaxHeight := pos_or v (cc_MaxHeight caps)\<rparr>
     else if key = ''maxaudiochannels'' then caps\<lparr>MaxAudioChannels := pos_or v (MaxAudioChannels caps)\<rparr>
     else if key \<in> {''maxbitdepth'', ''videobitdepth''} then
       caps\<lparr>MaxVideoBitDepth := pos_or v (MaxVideoBitDepth caps)\<rparr>
     else if key = ''vp9maxbitdepth'' then caps\<lparr>MaxVP9BitDepth := pos_or v (MaxVP9BitDepth caps)\<rparr>
     else if key = ''hdr'' then caps\<lparr>SupportsHDR := flag_value v\<rparr>
     else if key = ''hlg'' then caps\<lparr>SupportsHLG := Some (flag_value v)\<rparr>
     else if key \<in> {''dovi'', ''dolbyvision''} then
       (let ps = parseDVProfiles v vals in caps\<lparr>DVProfiles := ps, SupportsDV := ps \<noteq> []\<rparr>)
     else if key = ''optimized'' then caps\<lparr>AcceptsOptimized := flag_value v\<rparr>
     else (case limitCodec key of
             Some (codec, field) \<Rightarrow> setVideoLimit caps codec field v
           | None \<Rightarrow> caps))"

text \<open>A part without \<open>=\<close> is skipped (\<open>SplitN(part, "=", 2)\<close> has one element).\<close>

definition parse_part :: "ClientCapabilities \<Rightarrow> string \<Rightarrow> ClientCapabilities" where
  "parse_part caps part =
     (case Cut (TrimSpace part) ''='' of
        None \<Rightarrow> caps
      | Some (k, v) \<Rightarrow> parse_pair (ToLower k) v caps)"

definition default_codecs :: "ClientCapabilities \<Rightarrow> ClientCapabilities" where
  "default_codecs caps =
     caps\<lparr>VideoCodecs := (if VideoCodecs caps = [] then [''h264''] else VideoCodecs caps),
          AudioCodecs := (if AudioCodecs caps = [] then [''aac''] else AudioCodecs caps)\<rparr>"

definition header_parts :: "string \<Rightarrow> string list" where
  "header_parts header = FieldsFunc (\<lambda>r. r = CHR ''&'' \<or> r = CHR '','') header"

definition ParseCapabilities :: "string \<Rightarrow> ClientCapabilities" where
  "ParseCapabilities header = default_codecs (foldl parse_part initial_caps (header_parts header))"

section \<open>The invariant of a parsed capability record\<close>

definition dv_keys :: "string set" where
  "dv_keys = {''5'', ''7'', ''8.1'', ''8.4''}"

definition limit_ok :: "string \<Rightarrow> VideoLimit \<Rightarrow> bool" where
  "limit_ok codec l \<longleftrightarrow> codec \<in> {''h264'', ''h265'', ''av1''} \<and> declared l \<and> 0 \<le> vl_Level l
     \<and> (vl_Profile l = [] \<or> 0 < profileRank codec (vl_Profile l))"

definition limits_inv :: "(string \<Rightarrow> VideoLimit option) \<Rightarrow> bool" where
  "limits_inv m \<longleftrightarrow> (\<forall>codec l. m codec = Some l \<longrightarrow> limit_ok codec l)"

definition numbers_inv :: "ClientCapabilities \<Rightarrow> bool" where
  "numbers_inv c \<longleftrightarrow> 0 < cc_MaxWidth c \<and> 0 < cc_MaxHeight c \<and> 0 < MaxAudioChannels c
     \<and> 0 < MaxVideoBitDepth c \<and> 0 \<le> MaxVP9BitDepth c"

definition lists_inv :: "ClientCapabilities \<Rightarrow> bool" where
  "lists_inv c \<longleftrightarrow> (SupportsHEVC c \<longleftrightarrow> list_ex (\<lambda>w. ToLower w \<in> {''h265'', ''hevc''}) (VideoCodecs c))
     \<and> (SupportsAV1 c \<longleftrightarrow> list_ex (\<lambda>w. ToLower w = ''av1'') (VideoCodecs c))
     \<and> (SupportsDV c \<longleftrightarrow> DVProfiles c \<noteq> [])
     \<and> distinct (DVProfiles c) \<and> set (DVProfiles c) \<subseteq> dv_keys
     \<and> distinct (AudioPassthrough c) \<and> list_all passthroughCodec (AudioPassthrough c)"

definition caps_inv :: "ClientCapabilities \<Rightarrow> bool" where
  "caps_inv c \<longleftrightarrow> numbers_inv c \<and> lists_inv c \<and> limits_inv (VideoLimits c)"

lemmas caps_inv_defs = caps_inv_def numbers_inv_def lists_inv_def

lemma pos_or_pos: "0 < old \<Longrightarrow> 0 < pos_or v old"
  by (simp add: pos_or_def Let_def)

lemma pos_or_nonneg: "0 \<le> old \<Longrightarrow> 0 \<le> pos_or v old"
  by (simp add: pos_or_def Let_def)

lemma add_unique_inv:
  "distinct out \<Longrightarrow> distinct (add_unique out k) \<and> set (add_unique out k) = insert k (set out)"
  by (auto simp: add_unique_def)

lemma parseDVProfiles_loop_inv:
  "distinct out \<Longrightarrow> set out \<subseteq> dv_keys
   \<Longrightarrow> distinct (parseDVProfiles_loop vs out) \<and> set (parseDVProfiles_loop vs out) \<subseteq> dv_keys"
proof (induction vs out rule: parseDVProfiles_loop.induct)
  case (1 out)
  then show ?case by simp
next
  case (2 v vs out)
  have step: "distinct (add_unique o' k) \<and> set (add_unique o' k) \<subseteq> dv_keys"
    if "distinct o'" "set o' \<subseteq> dv_keys" "k \<in> dv_keys" for o' k
    using that add_unique_inv by auto
  show ?case
    unfolding parseDVProfiles_loop.simps Let_def
    by (rule "2.IH" [OF refl])
      (use "2.prems" step in \<open>auto simp: dv_keys_def\<close>)
qed

lemma parseDVProfiles_inv:
  "distinct (parseDVProfiles v vals) \<and> set (parseDVProfiles v vals) \<subseteq> dv_keys"
  using parseDVProfiles_loop_inv [of "[]" vals]
  by (simp add: parseDVProfiles_def Let_def dv_keys_def)

lemma canonicalVideoCodec_idem [simp]:
  "canonicalVideoCodec ''h264'' = ''h264''" "canonicalVideoCodec ''h265'' = ''h265''"
  "canonicalVideoCodec ''av1'' = ''av1''"
  by code_simp+

text \<open>Storing a profile under its canonical name keeps its rank.\<close>

lemma canonicalProfile_rank:
  "profileRank codec p \<noteq> 0 \<Longrightarrow> profileRank codec (canonicalProfile codec p) = profileRank codec p"
  unfolding canonicalProfile_def Let_def
  by (simp add: profileRank_def profile_names_def split: if_splits)

lemma profileRank_nonneg: "0 \<le> profileRank codec p"
  by (simp add: profileRank_def)

lemma profileRank_codec: "profileRank codec p \<noteq> 0 \<Longrightarrow> codec \<in> {''h264'', ''h265'', ''av1''}"
  by (auto simp: profileRank_def split: if_splits)

lemma limitCodec_codec: "limitCodec key = Some (codec, f) \<Longrightarrow> codec \<in> {''h264'', ''h265'', ''av1''}"
  by (auto simp: limitCodec_def split: option.splits if_splits)

lemma limits_inv_upd: "limits_inv m \<Longrightarrow> limit_ok codec l \<Longrightarrow> limits_inv (m(codec \<mapsto> l))"
  by (simp add: limits_inv_def)

lemma setVideoLimit_limits:
  assumes "limits_inv (VideoLimits c)" "codec \<in> {''h264'', ''h265'', ''av1''}"
  shows "limits_inv (VideoLimits (setVideoLimit c codec field v))"
proof -
  let ?l = "case VideoLimits c codec of None \<Rightarrow> no_limit | Some l \<Rightarrow> l"
  have l: "0 \<le> vl_Level ?l \<and> (vl_Profile ?l = [] \<or> 0 < profileRank codec (vl_Profile ?l))"
    using assms(1) by (auto simp: limits_inv_def limit_ok_def no_limit_def split: option.splits)
  show ?thesis
  proof (cases field)
    case FieldProfile
    let ?p = "normaliseProfile v"
    have "limit_ok codec (?l\<lparr>vl_Profile := canonicalProfile codec ?p\<rparr>)"
      if nz: "profileRank codec ?p \<noteq> 0"
    proof -
      have r: "0 < profileRank codec (canonicalProfile codec ?p)"
        using nz canonicalProfile_rank profileRank_nonneg [of codec ?p] by simp
      then have "canonicalProfile codec ?p \<noteq> []"
        by (auto simp: profileRank_def split: if_splits)
      then show ?thesis using l r assms(2) by (simp add: limit_ok_def declared_def)
    qed
    then show ?thesis using assms(1) FieldProfile
      by (simp add: setVideoLimit_def Let_def limits_inv_upd)
  next
    case FieldLevel
    have "limit_ok codec (?l\<lparr>vl_Level := k\<rparr>)" if "0 < k" for k
      using that l assms(2) by (simp add: limit_ok_def declared_def)
    then show ?thesis using assms(1) FieldLevel
      by (simp add: setVideoLimit_def Let_def limits_inv_upd)
  qed
qed

lemma setVideoLimit_rest:
  "numbers_inv (setVideoLimit c codec f v) = numbers_inv c"
  "lists_inv (setVideoLimit c codec f v) = lists_inv c"
  by (auto simp: setVideoLimit_def Let_def numbers_inv_def lists_inv_def split: limit_field.splits)

lemma CanonicalAudio_passthrough: "passthroughCodec c \<Longrightarrow> CanonicalAudioCodec c = c"
  by (auto simp: passthroughCodec_def CanonicalAudioCodec_def str_eval)

lemma add_passthrough_inv: "caps_inv c \<Longrightarrow> caps_inv (add_passthrough vs c)"
proof (induction vs c rule: add_passthrough.induct)
  case (2 v vs caps)
  let ?a = "CanonicalAudioCodec (TrimSpace v)"
  have "caps_inv (caps\<lparr>AudioPassthrough := AudioPassthrough caps @ [?a]\<rparr>)"
    if "passthroughCodec ?a" "\<not> PassesThroughAudio caps ?a"
  proof -
    have "?a \<notin> set (AudioPassthrough caps)"
      using that CanonicalAudio_passthrough [of ?a] by (auto simp: PassesThroughAudio_def list_ex_iff)
    then show ?thesis using "2.prems" that by (simp add: caps_inv_defs)
  qed
  then show ?case using "2.IH" [OF refl] "2.prems" by (auto simp: Let_def)
qed simp

lemma parse_pair_inv: "caps_inv c \<Longrightarrow> caps_inv (parse_pair key v c)"
proof -
  assume c: "caps_inv c"
  have num: "caps_inv (c\<lparr>cc_MaxWidth := pos_or v (cc_MaxWidth c)\<rparr>)"
    "caps_inv (c\<lparr>cc_MaxHeight := pos_or v (cc_MaxHeight c)\<rparr>)"
    "caps_inv (c\<lparr>MaxAudioChannels := pos_or v (MaxAudioChannels c)\<rparr>)"
    "caps_inv (c\<lparr>MaxVideoBitDepth := pos_or v (MaxVideoBitDepth c)\<rparr>)"
    "caps_inv (c\<lparr>MaxVP9BitDepth := pos_or v (MaxVP9BitDepth c)\<rparr>)"
    using c by (auto simp: caps_inv_defs pos_or_pos pos_or_nonneg)
  have flg: "caps_inv (c\<lparr>SupportsHDR := b\<rparr>)" "caps_inv (c\<lparr>SupportsHLG := Some b\<rparr>)"
    "caps_inv (c\<lparr>AcceptsOptimized := b\<rparr>)" "caps_inv (c\<lparr>AudioCodecs := xs\<rparr>)"
    "caps_inv (c\<lparr>Containers := xs\<rparr>)" for b xs
    using c by (auto simp: caps_inv_defs)
  have dv: "caps_inv (c\<lparr>DVProfiles := parseDVProfiles v vals,
      SupportsDV := parseDVProfiles v vals \<noteq> []\<rparr>)" for vals
    using c parseDVProfiles_inv [of v vals] by (auto simp: caps_inv_defs)
  have vid: "caps_inv (c\<lparr>VideoCodecs := VideoCodecs c @ vals,
     SupportsHEVC := SupportsHEVC c \<or> list_ex (\<lambda>w. ToLower w \<in> {''h265'', ''hevc''}) vals,
     SupportsAV1 := SupportsAV1 c \<or> list_ex (\<lambda>w. ToLower w = ''av1'') vals\<rparr>)" for vals
    using c by (simp add: caps_inv_defs)
  have lim: "caps_inv (setVideoLimit c codec f v)" if "limitCodec key = Some (codec, f)" for codec f
    using c limitCodec_codec [OF that] setVideoLimit_limits
    by (simp add: caps_inv_def setVideoLimit_rest)
  show ?thesis
    unfolding parse_pair_def Let_def
    using c num flg dv vid lim add_passthrough_inv [OF c] by (simp split: option.split)
qed

lemma parse_part_inv: "caps_inv c \<Longrightarrow> caps_inv (parse_part c part)"
  by (auto simp: parse_part_def parse_pair_inv split: option.splits)

lemma initial_caps_inv: "caps_inv initial_caps"
  by (simp add: caps_inv_defs initial_caps_def limits_inv_def)

lemma foldl_inv: "P z \<Longrightarrow> (\<And>a x. P a \<Longrightarrow> P (f a x)) \<Longrightarrow> P (foldl f z xs)"
  by (induction xs arbitrary: z) auto

text \<open>
  C40 (type invariant).  Whatever header a client sends, the parsed record is well formed: sizes,
  channel and depth limits are positive, the flags agree with the lists they summarise, the
  Dolby Vision and passthrough lists hold known keys once, every stored limit is declared for a
  codec with a table, and at least one video and one audio codec is listed.
\<close>

theorem ParseCapabilities_inv:
  "caps_inv (ParseCapabilities header) \<and> VideoCodecs (ParseCapabilities header) \<noteq> []
     \<and> AudioCodecs (ParseCapabilities header) \<noteq> []"
proof -
  let ?c = "foldl parse_part initial_caps (header_parts header)"
  have "caps_inv ?c" by (rule foldl_inv) (rule initial_caps_inv, rule parse_part_inv)
  then have "caps_inv (default_codecs ?c)"
    by (auto simp: caps_inv_defs default_codecs_def str_eval)
  then show ?thesis by (simp add: ParseCapabilities_def default_codecs_def)
qed

end
