(* ===== verification/Decision.thy ===== *)
theory Decision
  imports Caps
begin

text \<open>
  The play decision (\<open>internal/transcode/decision.go\<close>, \<open>dolbyvision.go\<close>,
  \<open>decision_reasons.go\<close>): direct play, remux, re-encode or refusal for a file and a client, and
  the reasons shown for it.

  A \<open>media.File\<close> is reduced to the fields the decision reads.  \<open>mf_AudioStreams\<close> is the decoded
  \<open>audio_streams\<close> JSON, \<^const>\<open>None\<close> when it is missing or does not parse.
\<close>

section \<open>Files\<close>

record sourceAudioStream =
  as_Codec :: string
  as_Channels :: int

record File =
  mf_Container :: "string option"
  mf_VideoCodec :: "string option"
  mf_AudioCodec :: "string option"
  mf_ResolutionW :: "int option"
  mf_ResolutionH :: "int option"
  mf_HDRType :: "string option"
  mf_DVProfile :: "int option"
  mf_AudioStreams :: "sourceAudioStream list option"
  mf_VideoBitDepth :: "int option"
  mf_VideoProfile :: "string option"
  mf_VideoLevel :: "int option"
  mf_IntegrityStatus :: string

definition deref :: "string option \<Rightarrow> string" where
  "deref s = (case s of None \<Rightarrow> [] | Some v \<Rightarrow> v)"

definition derefInt :: "int option \<Rightarrow> int" where
  "derefInt i = (case i of None \<Rightarrow> 0 | Some v \<Rightarrow> v)"

definition parseSourceAudioStreams :: "sourceAudioStream list option \<Rightarrow> sourceAudioStream list" where
  "parseSourceAudioStreams js = (case js of None \<Rightarrow> [] | Some ss \<Rightarrow> ss)"

definition SourceAudioChannels :: "sourceAudioStream list option \<Rightarrow> int \<Rightarrow> int" where
  "SourceAudioChannels js idx =
    (let streams = parseSourceAudioStreams js; i = (if idx < 0 then 0 else idx) in
     if i \<ge> int (length streams) then 0 else as_Channels (streams ! nat i))"

definition SourceAudioStreamCount :: "sourceAudioStream list option \<Rightarrow> int" where
  "SourceAudioStreamCount js = int (length (parseSourceAudioStreams js))"

definition SourceAudioCodec :: "File \<Rightarrow> int \<Rightarrow> string" where
  "SourceAudioCodec f idx =
    (let first = deref (mf_AudioCodec f) in
     if idx < 0 then first
     else let streams = parseSourceAudioStreams (mf_AudioStreams f) in
       if idx < int (length streams) then as_Codec (streams ! nat idx)
       else if idx = 0 \<and> length streams = 0 then first
       else [])"

text \<open>Server-level limits.\<close>

record ServerCaps =
  sc_MaxBitrateKbps :: int
  sc_MaxWidth :: int
  sc_MaxHeight :: int
  sc_DVConvert :: bool
  sc_DVTonemap :: bool

section \<open>Dolby Vision and HDR\<close>

datatype DVMode = DVNone | DVKeep | DVToP81

definition DVProfileKey :: "File \<Rightarrow> string" where
  "DVProfileKey f = (let hdr = ToLower (deref (mf_HDRType f)) in
     if hdr = ''dolby_vision'' then ''5''
     else (case mf_DVProfile f of
             None \<Rightarrow> []
           | Some p \<Rightarrow>
               if p = 7 then (if hdr = ''hdr10'' \<or> hdr = ''hdr10plus'' then ''7'' else [])
               else if p = 8 then
                 (if hdr \<in> {''hdr10'', ''hdr10plus''} then ''8.1''
                  else if hdr = ''hlg'' then ''8.4'' else [])
               else []))"

definition PlanDolbyVision :: "File \<Rightarrow> ClientCapabilities \<Rightarrow> bool \<Rightarrow> DVMode" where
  "PlanDolbyVision f caps canConvert = (let key = DVProfileKey f in
     if key = [] then DVNone
     else if SupportsDVProfile caps key then DVKeep
     else if key = ''7'' \<and> canConvert \<and> SupportsDVProfile caps ''8.1'' then DVToP81
     else DVNone)"

definition isHDR :: "string \<Rightarrow> bool" where
  "isHDR hdrType \<longleftrightarrow> ToLower hdrType \<in> {''hdr10'', ''hdr10plus'', ''hlg'', ''dolby_vision''}"

definition clientSupportsHDR :: "ClientCapabilities \<Rightarrow> string \<Rightarrow> bool" where
  "clientSupportsHDR caps hdrType = (let t = ToLower hdrType in
     if t = ''dolby_vision'' then SupportsDVProfile caps ''5''
     else if t \<in> {''hdr10'', ''hdr10plus''} then SupportsHDR caps
     else if t = ''hlg'' then
       (case SupportsHLG caps of Some b \<Rightarrow> b | None \<Rightarrow> SupportsHDR caps)
     else False)"

definition containerCarriesAudio :: "string \<Rightarrow> string \<Rightarrow> bool" where
  "containerCarriesAudio container audio \<longleftrightarrow> \<not> (audio = ''truehd'' \<and> container = ''ts'')"

definition videoLimitExceeded :: "File \<Rightarrow> ClientCapabilities \<Rightarrow> bool \<times> bool" where
  "videoLimitExceeded f caps =
    (let codec = canonicalVideoCodec (deref (mf_VideoCodec f)); lim = VideoLimitFor caps codec in
     if \<not> declared lim then (False, False)
     else
       ((case mf_VideoProfile f of
           Some p \<Rightarrow> vl_Profile lim \<noteq> [] \<and>
             (let src = profileRank codec (normaliseProfile p) in
              src > 0 \<and> src > profileRank codec (vl_Profile lim))
         | None \<Rightarrow> False),
        (case mf_VideoLevel f of
           Some l \<Rightarrow> vl_Level lim > 0 \<and>
             (let src = VideoLevelTenths codec l in src > 0 \<and> src > vl_Level lim)
         | None \<Rightarrow> False)))"

section \<open>The decision\<close>

datatype Decision =
  DecisionDirectPlay | DecisionDirectStream | DecisionTranscode | DecisionUnsupported | DecisionDamaged

fun Decision_String :: "Decision \<Rightarrow> string" where
  "Decision_String DecisionDirectPlay = ''directPlay''"
| "Decision_String DecisionDirectStream = ''directStream''"
| "Decision_String DecisionUnsupported = ''unsupported''"
| "Decision_String DecisionDamaged = ''damaged''"
| "Decision_String DecisionTranscode = ''transcode''"

text \<open>The local values \<open>decide\<close> computes before its checks.\<close>

definition audio_only :: "File \<Rightarrow> bool" where
  "audio_only f \<longleftrightarrow> canonicalVideoCodec (deref (mf_VideoCodec f)) = []
     \<and> CanonicalAudioCodec (deref (mf_AudioCodec f)) \<noteq> []"

definition client_supports_video :: "File \<Rightarrow> ClientCapabilities \<Rightarrow> bool" where
  "client_supports_video f caps \<longleftrightarrow>
     audio_only f \<or> SupportsVideoCodec caps (canonicalVideoCodec (deref (mf_VideoCodec f)))"

definition channels_fit :: "File \<Rightarrow> ClientCapabilities \<Rightarrow> bool" where
  "channels_fit f caps \<longleftrightarrow> (let src = SourceAudioChannels (mf_AudioStreams f) (-1) in
     MaxAudioChannels caps \<le> 0 \<or> src \<le> 0 \<or> src \<le> MaxAudioChannels caps)"

definition client_supports_audio :: "File \<Rightarrow> ClientCapabilities \<Rightarrow> bool" where
  "client_supports_audio f caps \<longleftrightarrow>
    (let a = CanonicalAudioCodec (deref (mf_AudioCodec f)) in
     a = [] \<or> (((SupportsAudioCodec caps a \<and> channels_fit f caps) \<or> PassesThroughAudio caps a)
              \<and> containerCarriesAudio (canonicalContainer (deref (mf_Container f))) a))"

definition client_supports_container :: "File \<Rightarrow> ClientCapabilities \<Rightarrow> bool" where
  "client_supports_container f caps \<longleftrightarrow>
     SupportsContainer caps (canonicalContainer (deref (mf_Container f)))"

definition too_deep :: "File \<Rightarrow> ClientCapabilities \<Rightarrow> bool" where
  "too_deep f caps \<longleftrightarrow>
    (let bd = derefInt (mf_VideoBitDepth f); v = canonicalVideoCodec (deref (mf_VideoCodec f)) in
     bd \<ge> 10 \<and>
       (if v = ''h264'' then True
        else if v = ''h265'' then MaxVideoBitDepth caps < bd
        else if v = ''vp9'' then MaxVP9BitDepth caps > 0 \<and> MaxVP9BitDepth caps < bd
        else False))"

definition too_large :: "File \<Rightarrow> ClientCapabilities \<Rightarrow> bool" where
  "too_large f caps \<longleftrightarrow>
    (let w = derefInt (mf_ResolutionW f); h = derefInt (mf_ResolutionH f) in
     (w > 0 \<and> cc_MaxWidth caps > 0 \<and> w > cc_MaxWidth caps) \<or>
     (h > 0 \<and> cc_MaxHeight caps > 0 \<and> h > cc_MaxHeight caps))"

definition remuxable :: "string \<Rightarrow> bool" where
  "remuxable v \<longleftrightarrow> v = ''h264'' \<or> v = ''h265'' \<or> v = ''av1''"

definition decide :: "File \<Rightarrow> ClientCapabilities \<Rightarrow> ServerCaps \<Rightarrow> Decision" where
  "decide f caps srv =
    (if mf_IntegrityStatus f = ''damaged'' then DecisionDamaged
     else if EqualFold (deref (mf_HDRType f)) ''dolby_vision'' \<and> \<not> SupportsDVProfile caps ''5''
             \<and> \<not> sc_DVTonemap srv then DecisionUnsupported
     else let dv = PlanDolbyVision f caps (sc_DVConvert srv) in
       if dv = DVNone \<and> isHDR (deref (mf_HDRType f)) \<and> \<not> clientSupportsHDR caps (deref (mf_HDRType f))
       then DecisionTranscode
       else if too_deep f caps then DecisionTranscode
       else if \<not> audio_only f \<and> (fst (videoLimitExceeded f caps) \<or> snd (videoLimitExceeded f caps))
       then DecisionTranscode
       else if too_large f caps then DecisionTranscode
       else if \<not> client_supports_video f caps then DecisionTranscode
       else if client_supports_audio f caps \<and> client_supports_container f caps \<and> dv \<noteq> DVToP81
       then DecisionDirectPlay
       else if audio_only f \<or> remuxable (canonicalVideoCodec (deref (mf_VideoCodec f)))
       then DecisionDirectStream
       else DecisionTranscode)"

definition Decide :: "File \<Rightarrow> ClientCapabilities \<Rightarrow> ServerCaps \<Rightarrow> Decision" where
  "Decide f caps srv = (let d = decide f caps srv in
     if d = DecisionTranscode \<and> DVProfileKey f = ''5'' \<and> \<not> sc_DVTonemap srv
     then DecisionUnsupported else d)"

definition ForStack :: "Decision \<Rightarrow> File \<Rightarrow> Decision" where
  "ForStack d f =
    (if d \<noteq> DecisionDirectPlay then d
     else let v = canonicalVideoCodec (deref (mf_VideoCodec f)) in
       if (v = [] \<and> deref (mf_AudioCodec f) \<noteq> []) \<or> remuxable v then DecisionDirectStream
       else DecisionTranscode)"

section \<open>Reasons\<close>

datatype ReasonKind = ReasonFile | ReasonVideo | ReasonAudio | ReasonContainer

record Reason =
  r_Kind :: ReasonKind
  r_Text :: string

text \<open>The two non-ASCII signs of the texts, as the UTF-8 bytes of the Go literals.\<close>

definition times_sign :: string where
  "times_sign = map char_of [195, 151 :: nat]"

definition to_client_max :: string where
  "to_client_max = '' '' @ map char_of [226, 134, 146 :: nat] @ '' client max ''"

definition not_supported :: string where
  "not_supported = '' not supported by client''"

definition ChannelLabel :: "int \<Rightarrow> string" where
  "ChannelLabel ch =
    (if ch = 1 then ''mono'' else if ch = 2 then ''stereo'' else if ch = 3 then ''2.1''
     else if ch = 6 then ''5.1'' else if ch = 7 then ''6.1'' else if ch = 8 then ''7.1''
     else Itoa ch @ ''-channel'')"

definition videoCodecLabel :: "string \<Rightarrow> string" where
  "videoCodecLabel alias =
    (if alias = ''h264'' then ''H.264'' else if alias = ''h265'' then ''HEVC''
     else if alias = ''av1'' then ''AV1'' else if alias = ''vp9'' then ''VP9''
     else if alias = ''vp8'' then ''VP8'' else if alias = ''mpeg4'' then ''MPEG-4''
     else if alias = ''mpeg2video'' then ''MPEG-2'' else if alias = ''vc1'' then ''VC-1''
     else ToUpper alias)"

definition audioCodecLabel :: "string \<Rightarrow> string" where
  "audioCodecLabel alias =
    (if alias = ''aac'' then ''AAC'' else if alias = ''ac3'' then ''AC-3''
     else if alias = ''eac3'' then ''E-AC-3'' else if alias = ''truehd'' then ''TrueHD''
     else if alias = ''dts'' then ''DTS'' else if alias = ''mp3'' then ''MP3''
     else if alias = ''flac'' then ''FLAC'' else if alias = ''vorbis'' then ''Vorbis''
     else if alias = ''opus'' then ''Opus'' else ToUpper alias)"

definition containerLabel :: "string \<Rightarrow> string" where
  "containerLabel alias =
    (if alias = ''mkv'' then ''MKV'' else if alias = ''mp4'' then ''MP4''
     else if alias = ''avi'' then ''AVI'' else if alias = ''ts'' then ''MPEG-TS''
     else ToUpper alias)"

definition hdrLabel :: "string \<Rightarrow> string" where
  "hdrLabel hdrType = (let t = ToLower hdrType in
     if t = ''hdr10'' then ''HDR10'' else if t = ''hdr10plus'' then ''HDR10+''
     else if t = ''hlg'' then ''HLG'' else ''HDR'')"

definition VideoCodecLabel :: "string \<Rightarrow> string" where
  "VideoCodecLabel codec = videoCodecLabel (canonicalVideoCodec codec)"

definition AudioCodecLabel :: "string \<Rightarrow> string" where
  "AudioCodecLabel codec = audioCodecLabel (CanonicalAudioCodec codec)"

definition dims :: "int \<Rightarrow> int \<Rightarrow> string" where
  "dims w h = (if w > 0 \<and> h > 0 then Itoa w @ times_sign @ Itoa h
     else if h > 0 then Itoa h @ ''p''
     else Itoa w @ ''px wide'')"

definition videoCodecSupported :: "ClientCapabilities \<Rightarrow> string \<Rightarrow> bool" where
  "videoCodecSupported caps alias \<longleftrightarrow> SupportsVideoCodec caps alias
     \<or> (alias = ''h265'' \<and> (SupportsHEVC caps \<or> SupportsVideoCodec caps ''hevc''))
     \<or> (alias = ''av1'' \<and> SupportsAV1 caps)"

text \<open>
  \<open>DecisionReasons\<close> appends to one list; each group below is the list of texts one part of the
  function adds, in order.
\<close>

definition hdr_reasons :: "File \<Rightarrow> ClientCapabilities \<Rightarrow> string list" where
  "hdr_reasons f caps = (let hdrType = deref (mf_HDRType f) in
     if EqualFold hdrType ''dolby_vision'' \<and> \<not> SupportsDVProfile caps ''5''
     then [''Dolby Vision profile 5'' @ not_supported @ '' (tonemapped to SDR)'']
     else if isHDR hdrType \<and> \<not> clientSupportsHDR caps hdrType
     then [hdrLabel hdrType @ not_supported @ '' (tonemapped to SDR)'']
     else [])"

definition depth_reasons :: "File \<Rightarrow> ClientCapabilities \<Rightarrow> string list" where
  "depth_reasons f caps =
    (let bd = derefInt (mf_VideoBitDepth f); v = canonicalVideoCodec (deref (mf_VideoCodec f)) in
     if bd \<ge> 10 then
       (if v = ''h264'' then [Itoa bd @ ''-bit H.264 not decodable by client'']
        else if v = ''h265'' then
          (if MaxVideoBitDepth caps < bd
           then [Itoa bd @ ''-bit HEVC'' @ to_client_max @ Itoa (MaxVideoBitDepth caps) @ ''-bit''] else [])
        else if v = ''vp9'' then
          (if MaxVP9BitDepth caps > 0 \<and> MaxVP9BitDepth caps < bd
           then [Itoa bd @ ''-bit VP9'' @ to_client_max @ Itoa (MaxVP9BitDepth caps) @ ''-bit''] else [])
        else [])
     else [])"

definition limit_reasons :: "File \<Rightarrow> ClientCapabilities \<Rightarrow> string list" where
  "limit_reasons f caps =
    (let v = canonicalVideoCodec (deref (mf_VideoCodec f)); lim = VideoLimitFor caps v in
     (if fst (videoLimitExceeded f caps)
      then [videoCodecLabel v @ '' '' @ deref (mf_VideoProfile f) @ '' profile'' @ to_client_max
              @ profileLabel v (vl_Profile lim)] else [])
     @ (if snd (videoLimitExceeded f caps)
        then [videoCodecLabel v @ '' level '' @ FormatLevel (VideoLevelTenths v (derefInt (mf_VideoLevel f)))
                @ to_client_max @ FormatLevel (vl_Level lim)] else []))"

definition size_reasons :: "File \<Rightarrow> ClientCapabilities \<Rightarrow> string list" where
  "size_reasons f caps =
    (if too_large f caps
     then [dims (derefInt (mf_ResolutionW f)) (derefInt (mf_ResolutionH f)) @ '' exceeds client max ''
             @ dims (cc_MaxWidth caps) (cc_MaxHeight caps)] else [])"

definition video_reasons :: "File \<Rightarrow> ClientCapabilities \<Rightarrow> string list" where
  "video_reasons f caps = (let v = canonicalVideoCodec (deref (mf_VideoCodec f)) in
     if \<not> audio_only f \<and> v \<noteq> [] then
       hdr_reasons f caps
       @ (if \<not> videoCodecSupported caps v then [videoCodecLabel v @ not_supported] else [])
       @ depth_reasons f caps @ limit_reasons f caps @ size_reasons f caps
     else [])"

text \<open>Each non-empty result of the audio switch also sets \<open>audioBad\<close>.\<close>

definition audio_reasons :: "File \<Rightarrow> ClientCapabilities \<Rightarrow> string list" where
  "audio_reasons f caps =
    (let a = CanonicalAudioCodec (deref (mf_AudioCodec f));
         k = canonicalContainer (deref (mf_Container f)) in
     if a \<noteq> [] then
       (let srcCh = SourceAudioChannels (mf_AudioStreams f) (-1); pass = PassesThroughAudio caps a in
        if \<not> SupportsAudioCodec caps a \<and> \<not> pass then [audioCodecLabel a @ '' audio'' @ not_supported]
        else if \<not> containerCarriesAudio k a
        then [audioCodecLabel a @ '' audio in '' @ containerLabel k @ not_supported]
        else if \<not> pass \<and> MaxAudioChannels caps > 0 \<and> srcCh > MaxAudioChannels caps
        then [ChannelLabel srcCh @ '' audio'' @ to_client_max @ ChannelLabel (MaxAudioChannels caps)]
        else [])
     else [])"

definition container_reasons :: "File \<Rightarrow> ClientCapabilities \<Rightarrow> string list" where
  "container_reasons f caps = (let k = canonicalContainer (deref (mf_Container f)) in
     if k \<noteq> [] \<and> \<not> SupportsContainer caps k then [containerLabel k @ '' container'' @ not_supported] else [])"

definition remux_reasons :: "File \<Rightarrow> ClientCapabilities \<Rightarrow> string list" where
  "remux_reasons f caps = (let v = canonicalVideoCodec (deref (mf_VideoCodec f)) in
     if (audio_reasons f caps \<noteq> [] \<or> container_reasons f caps \<noteq> []) \<and> \<not> audio_only f \<and> v \<noteq> []
        \<and> videoCodecSupported caps v \<and> \<not> remuxable v
     then [videoCodecLabel v @ '' can'' @ [CHR 0x27] @ ''t be remuxed for streaming''] else [])"

definition DecisionReasons :: "File \<Rightarrow> ClientCapabilities \<Rightarrow> Reason list" where
  "DecisionReasons f caps =
    (if mf_IntegrityStatus f = ''damaged'' then [\<lparr>r_Kind = ReasonFile, r_Text = ''File is damaged''\<rparr>]
     else map (\<lambda>t. \<lparr>r_Kind = ReasonVideo, r_Text = t\<rparr>) (video_reasons f caps)
       @ map (\<lambda>t. \<lparr>r_Kind = ReasonAudio, r_Text = t\<rparr>) (audio_reasons f caps)
       @ map (\<lambda>t. \<lparr>r_Kind = ReasonContainer, r_Text = t\<rparr>) (container_reasons f caps)
       @ map (\<lambda>t. \<lparr>r_Kind = ReasonVideo, r_Text = t\<rparr>) (remux_reasons f caps))"

definition ReasonTexts :: "Reason list \<Rightarrow> string list" where
  "ReasonTexts rs = map r_Text rs"

definition DecideWithReasons ::
  "File \<Rightarrow> ClientCapabilities \<Rightarrow> ServerCaps \<Rightarrow> Decision \<times> string list" where
  "DecideWithReasons f caps srv = (let d = Decide f caps srv in
     if d = DecisionDirectPlay then (d, []) else (d, ReasonTexts (DecisionReasons f caps)))"

section \<open>What the verdicts promise\<close>

lemmas copy_checks = too_deep_def too_large_def videoLimitExceeded_def

definition copy_ok :: "File \<Rightarrow> ClientCapabilities \<Rightarrow> bool" where
  "copy_ok f caps \<longleftrightarrow> client_supports_video f caps \<and> \<not> too_deep f caps \<and> \<not> too_large f caps
     \<and> (audio_only f \<or> videoLimitExceeded f caps = (False, False))"

definition hdr_ok :: "File \<Rightarrow> ClientCapabilities \<Rightarrow> ServerCaps \<Rightarrow> bool" where
  "hdr_ok f caps srv \<longleftrightarrow> PlanDolbyVision f caps (sc_DVConvert srv) \<noteq> DVNone
     \<or> \<not> isHDR (deref (mf_HDRType f)) \<or> clientSupportsHDR caps (deref (mf_HDRType f))"

lemma dv5_key: "DVProfileKey f = ''5'' \<longleftrightarrow> EqualFold (deref (mf_HDRType f)) ''dolby_vision''"
proof -
  have t: "ToLower ''dolby_vision'' = ''dolby_vision''" by code_simp
  show ?thesis
    by (cases "mf_DVProfile f") (auto simp: DVProfileKey_def EqualFold_def t Let_def)
qed

lemma dv5_hdr:
  assumes "DVProfileKey f = ''5''"
  shows "isHDR (deref (mf_HDRType f)) \<and> clientSupportsHDR caps (deref (mf_HDRType f)) = SupportsDVProfile caps ''5''
    \<and> (PlanDolbyVision f caps conv = (if SupportsDVProfile caps ''5'' then DVKeep else DVNone))"
proof -
  have "ToLower (deref (mf_HDRType f)) = ''dolby_vision''"
    using assms dv5_key [of f] by (simp add: EqualFold_def) code_simp
  then show ?thesis using assms by (simp add: isHDR_def clientSupportsHDR_def PlanDolbyVision_def)
qed

text \<open>The four ways out of \<open>Decide\<close>, with the checks grouped.\<close>

lemma Decide_eq:
  "Decide f caps srv =
    (if mf_IntegrityStatus f = ''damaged'' then DecisionDamaged
     else if hdr_ok f caps srv \<and> copy_ok f caps then
       (if client_supports_audio f caps \<and> client_supports_container f caps
           \<and> PlanDolbyVision f caps (sc_DVConvert srv) \<noteq> DVToP81 then DecisionDirectPlay
        else if audio_only f \<or> remuxable (canonicalVideoCodec (deref (mf_VideoCodec f)))
        then DecisionDirectStream
        else if DVProfileKey f = ''5'' \<and> \<not> sc_DVTonemap srv then DecisionUnsupported
        else DecisionTranscode)
     else if DVProfileKey f = ''5'' \<and> \<not> sc_DVTonemap srv then DecisionUnsupported
     else DecisionTranscode)"
proof -
  have lim: "videoLimitExceeded f caps = (False, False) \<longleftrightarrow>
      \<not> fst (videoLimitExceeded f caps) \<and> \<not> snd (videoLimitExceeded f caps)"
    by (cases "videoLimitExceeded f caps") simp
  have un: "DVProfileKey f = ''5'' \<Longrightarrow> \<not> SupportsDVProfile caps ''5'' \<Longrightarrow> \<not> hdr_ok f caps srv"
    using dv5_hdr [of f caps "sc_DVConvert srv"] by (simp add: hdr_ok_def)
  show ?thesis
    using un unfolding Decide_def decide_def Let_def copy_ok_def hdr_ok_def lim dv5_key [symmetric]
    by auto
qed

text \<open>
  C1 (safety).  A verdict that sends the video bitstream as it is, directly or as one part of a
  stack, is only given for an undamaged file whose codec, depth, size, profile, level and dynamic
  range the client takes; a remux only for a codec HLS carries; and a re-encode of Dolby Vision
  profile 5 is only ordered where a worker applies its metadata.
\<close>

theorem Decide_copy_safe:
  assumes "d = Decide f caps srv \<or> d = ForStack (Decide f caps srv) f"
  shows "(d \<in> {DecisionDirectPlay, DecisionDirectStream} \<longrightarrow>
         mf_IntegrityStatus f \<noteq> ''damaged'' \<and> copy_ok f caps \<and> hdr_ok f caps srv)
    \<and> (d = DecisionDirectStream \<longrightarrow>
         deref (mf_VideoCodec f) = [] \<or> remuxable (canonicalVideoCodec (deref (mf_VideoCodec f))))
    \<and> (d = DecisionDirectPlay \<longrightarrow> client_supports_audio f caps \<and> client_supports_container f caps)
    \<and> (Decide f caps srv = DecisionTranscode \<and> DVProfileKey f = ''5'' \<longrightarrow> sc_DVTonemap srv)
    \<and> ForStack d f \<noteq> DecisionDirectPlay"
proof -
  have e: "canonicalVideoCodec s = [] \<Longrightarrow> s = []" for s
    by (auto simp: canonicalVideoCodec_def ToLower_def Let_def split: if_splits)
  show ?thesis
    using assms e [of "deref (mf_VideoCodec f)"]
    by (auto simp: Decide_eq ForStack_def Let_def audio_only_def split: if_splits)
qed

text \<open>Three concrete inputs the witnesses share.\<close>

definition sample_file :: File where
  "sample_file = \<lparr>mf_Container = Some ''matroska'', mf_VideoCodec = Some ''hevc'',
     mf_AudioCodec = Some ''truehd'', mf_ResolutionW = Some 3840, mf_ResolutionH = Some 2160,
     mf_HDRType = Some ''hdr10'', mf_DVProfile = Some 8,
     mf_AudioStreams = Some [\<lparr>as_Codec = ''truehd'', as_Channels = 8\<rparr>],
     mf_VideoBitDepth = Some 10, mf_VideoProfile = Some ''Main 10'', mf_VideoLevel = Some 153,
     mf_IntegrityStatus = ''ok''\<rparr>"

definition sample_caps :: ClientCapabilities where
  "sample_caps = ParseCapabilities (''videoDecoder=h264:h265&audioDecoder=aac:eac3&protocols=mp4'' @
     ''&maxWidth=3840&maxHeight=2160&maxBitDepth=10&hdr=1&dovi=8'')"

definition sample_server :: ServerCaps where
  "sample_server = \<lparr>sc_MaxBitrateKbps = 20000, sc_MaxWidth = 1920, sc_MaxHeight = 1080,
     sc_DVConvert = False, sc_DVTonemap = False\<rparr>"

theorem Decide_copy_safe_witness:
  "Decide sample_file sample_caps sample_server = DecisionDirectStream
   \<and> copy_ok sample_file sample_caps \<and> hdr_ok sample_file sample_caps sample_server"
proof -
  have d: "Decide sample_file sample_caps sample_server = DecisionDirectStream" by code_simp
  show ?thesis
    using Decide_copy_safe [OF disjI1 [OF refl], of sample_file sample_caps sample_server] d by simp
qed

section \<open>Declaring more never gives a worse verdict\<close>

fun verdict_cost :: "Decision \<Rightarrow> nat" where
  "verdict_cost DecisionDirectPlay = 0"
| "verdict_cost DecisionDirectStream = 1"
| "verdict_cost DecisionTranscode = 2"
| "verdict_cost DecisionUnsupported = 3"
| "verdict_cost DecisionDamaged = 4"

text \<open>
  \<open>caps_le c d\<close>: the client \<open>d\<close> declares at least what \<open>c\<close> does.  A limit of zero is \<open>no limit\<close>,
  an empty container list stands for the three defaults, and the Dolby Vision profiles agree
  (a client that adds 8.1 turns the direct play of a profile 7 file into a remux, on purpose).
\<close>

definition hlg_ok :: "ClientCapabilities \<Rightarrow> bool" where
  "hlg_ok c \<longleftrightarrow> (case SupportsHLG c of Some b \<Rightarrow> b | None \<Rightarrow> SupportsHDR c)"

definition limit_le :: "string \<Rightarrow> VideoLimit \<Rightarrow> VideoLimit \<Rightarrow> bool" where
  "limit_le codec a b \<longleftrightarrow>
     (vl_Profile b = [] \<or> (vl_Profile a \<noteq> [] \<and> profileRank codec (vl_Profile a) \<le> profileRank codec (vl_Profile b)))
   \<and> (vl_Level b \<le> 0 \<or> (0 < vl_Level a \<and> vl_Level a \<le> vl_Level b))"

definition cap_le :: "int \<Rightarrow> int \<Rightarrow> bool" where
  "cap_le a b \<longleftrightarrow> b \<le> 0 \<or> (0 < a \<and> a \<le> b)"

definition caps_le :: "ClientCapabilities \<Rightarrow> ClientCapabilities \<Rightarrow> bool" where
  "caps_le c d \<longleftrightarrow> set (VideoCodecs c) \<subseteq> set (VideoCodecs d) \<and> set (AudioCodecs c) \<subseteq> set (AudioCodecs d)
   \<and> Containers c \<noteq> [] \<and> set (Containers c) \<subseteq> set (Containers d)
   \<and> cap_le (cc_MaxWidth c) (cc_MaxWidth d) \<and> cap_le (cc_MaxHeight c) (cc_MaxHeight d)
   \<and> cap_le (MaxAudioChannels c) (MaxAudioChannels d) \<and> cap_le (MaxVP9BitDepth c) (MaxVP9BitDepth d)
   \<and> MaxVideoBitDepth c \<le> MaxVideoBitDepth d \<and> (SupportsHDR c \<longrightarrow> SupportsHDR d)
   \<and> (hlg_ok c \<longrightarrow> hlg_ok d) \<and> set (DVProfiles c) = set (DVProfiles d)
   \<and> set (AudioPassthrough c) \<subseteq> set (AudioPassthrough d)
   \<and> (\<forall>v. limit_le (canonicalVideoCodec v) (VideoLimitFor c (canonicalVideoCodec v))
             (VideoLimitFor d (canonicalVideoCodec v)))"

lemma list_ex_mono: "set xs \<subseteq> set ys \<Longrightarrow> list_ex p xs \<Longrightarrow> list_ex p ys"
  by (auto simp: list_ex_iff)

lemma caps_le_dv:
  assumes "caps_le c d"
  shows "SupportsDVProfile d k = SupportsDVProfile c k" "PlanDolbyVision f d b = PlanDolbyVision f c b"
proof -
  have s: "SupportsDVProfile d x = SupportsDVProfile c x" for x
    using assms by (auto simp: caps_le_def SupportsDVProfile_def list_ex_iff)
  show "SupportsDVProfile d k = SupportsDVProfile c k" by (rule s)
  show "PlanDolbyVision f d b = PlanDolbyVision f c b" by (simp add: PlanDolbyVision_def s Let_def)
qed

lemma caps_le_hdr: "caps_le c d \<Longrightarrow> hdr_ok f c srv \<Longrightarrow> hdr_ok f d srv"
  using caps_le_dv [of c d]
  by (auto simp: hdr_ok_def clientSupportsHDR_def caps_le_def hlg_ok_def Let_def split: if_splits)

lemma caps_le_limit:
  assumes "limit_le (canonicalVideoCodec v) (VideoLimitFor c (canonicalVideoCodec v)) (VideoLimitFor d (canonicalVideoCodec v))"
    "v = deref (mf_VideoCodec f)" "videoLimitExceeded f c = (False, False)"
  shows "videoLimitExceeded f d = (False, False)"
proof (cases "declared (VideoLimitFor c (canonicalVideoCodec v))")
  case True
  then show ?thesis using assms
    by (cases "mf_VideoProfile f"; cases "mf_VideoLevel f")
      (auto simp: videoLimitExceeded_def limit_le_def Let_def)
next
  case False
  then have "\<not> declared (VideoLimitFor d (canonicalVideoCodec v))"
    using assms(1) by (auto simp: limit_le_def declared_def)
  then show ?thesis using assms(2) by (simp add: videoLimitExceeded_def Let_def)
qed

lemma caps_le_copy:
  assumes le: "caps_le c d" and ok: "copy_ok f c"
  shows "copy_ok f d"
proof -
  have sub: "set (VideoCodecs c) \<subseteq> set (VideoCodecs d)" using le by (simp add: caps_le_def)
  have "client_supports_video f d"
    using ok list_ex_mono [OF sub, of "\<lambda>v. ToLower v = ToLower (canonicalVideoCodec (deref (mf_VideoCodec f)))"]
    unfolding copy_ok_def client_supports_video_def SupportsVideoCodec_def by argo
  moreover have "\<not> too_deep f d"
  proof -
    have "cap_le (MaxVP9BitDepth c) (MaxVP9BitDepth d)" "MaxVideoBitDepth c \<le> MaxVideoBitDepth d"
      using le by (simp_all add: caps_le_def)
    then show ?thesis using ok by (auto simp: copy_ok_def too_deep_def cap_le_def Let_def split: if_splits)
  qed
  moreover have "\<not> too_large f d"
  proof -
    have "cap_le (cc_MaxWidth c) (cc_MaxWidth d)" "cap_le (cc_MaxHeight c) (cc_MaxHeight d)"
      using le by (simp_all add: caps_le_def)
    moreover have "\<not> too_large f c" using ok by (simp add: copy_ok_def)
    ultimately show ?thesis by (simp add: too_large_def cap_le_def Let_def) linarith
  qed
  moreover have "audio_only f \<or> videoLimitExceeded f d = (False, False)"
    using caps_le_limit [OF _ refl] le ok by (simp add: caps_le_def copy_ok_def) blast
  ultimately show ?thesis by (simp add: copy_ok_def)
qed

lemma caps_le_audio: "caps_le c d \<Longrightarrow> client_supports_audio f c \<Longrightarrow> client_supports_audio f d"
proof -
  assume le: "caps_le c d" and ok: "client_supports_audio f c"
  have ch: "channels_fit f c \<Longrightarrow> channels_fit f d"
    using le by (auto simp: caps_le_def channels_fit_def cap_le_def Let_def)
  have su: "SupportsAudioCodec c a \<Longrightarrow> SupportsAudioCodec d a" for a
    using le list_ex_mono [of "AudioCodecs c" "AudioCodecs d"] by (simp add: caps_le_def SupportsAudioCodec_def)
  have pa: "PassesThroughAudio c a \<Longrightarrow> PassesThroughAudio d a" for a
    using le list_ex_mono [of "AudioPassthrough c" "AudioPassthrough d"] by (simp add: caps_le_def PassesThroughAudio_def)
  show ?thesis using ok ch su pa by (auto simp: client_supports_audio_def Let_def)
qed

lemma caps_le_container:
  assumes le: "caps_le c d" and ok: "client_supports_container f c"
  shows "client_supports_container f d"
proof -
  have sub: "Containers c \<noteq> []" "set (Containers c) \<subseteq> set (Containers d)" using le by (simp_all add: caps_le_def)
  let ?p = "\<lambda>v. ToLower v = ToLower (canonicalContainer (deref (mf_Container f)))"
  have "list_ex ?p (Containers c)"
    using ok sub(1) by (simp add: client_supports_container_def SupportsContainer_def Let_def split: if_splits)
  then show ?thesis using list_ex_mono [OF sub(2), of ?p]
    by (simp add: client_supports_container_def SupportsContainer_def Let_def)
qed

text \<open>
  A client that declares more codecs, containers, passthrough codecs or higher
  limits never gets a costlier verdict: direct play stays direct play, a remux never becomes a
  re-encode, and a playable file never becomes unsupported.
\<close>

theorem Decide_caps_mono:
  assumes "caps_le c d"
  shows "verdict_cost (Decide f d srv) \<le> verdict_cost (Decide f c srv)"
  using caps_le_dv(2) [OF assms, of f "sc_DVConvert srv"] caps_le_hdr [OF assms, of f srv]
    caps_le_copy [OF assms, of f] caps_le_audio [OF assms, of f] caps_le_container [OF assms, of f]
  by (simp add: Decide_eq)

theorem Decide_caps_mono_witness:
  "verdict_cost (Decide sample_file (initial_caps\<lparr>Containers := [''mp4'', ''mkv''], SupportsHDR := True\<rparr>) sample_server)
   \<le> verdict_cost (Decide sample_file (initial_caps\<lparr>Containers := [''mp4'']\<rparr>) sample_server)"
  by (rule Decide_caps_mono)
    (simp add: caps_le_def cap_le_def limit_le_def hlg_ok_def initial_caps_def VideoLimitFor_def no_limit_def)

section \<open>The reasons agree with the verdict\<close>

text \<open>
  A record in which the \<open>SupportsHEVC\<close> / \<open>SupportsAV1\<close> flags say no more than the codec list: what
  \<open>ParseCapabilities\<close> gives for a client that lists HEVC as \<open>h265\<close>.
\<close>

definition flags_agree :: "ClientCapabilities \<Rightarrow> bool" where
  "flags_agree c \<longleftrightarrow>
     (SupportsHEVC c \<or> SupportsVideoCodec c ''hevc'' \<longrightarrow> SupportsVideoCodec c ''h265'')
   \<and> (SupportsAV1 c \<longrightarrow> SupportsVideoCodec c ''av1'')"

lemma videoCodecSupported_flags: "flags_agree c \<Longrightarrow> videoCodecSupported c v = SupportsVideoCodec c v"
  by (auto simp: flags_agree_def videoCodecSupported_def)

lemma hdr_reasons_Nil:
  "PlanDolbyVision f caps (sc_DVConvert srv) = DVNone \<Longrightarrow> hdr_reasons f caps = [] \<longleftrightarrow> hdr_ok f caps srv"
proof -
  assume n: "PlanDolbyVision f caps (sc_DVConvert srv) = DVNone"
  show ?thesis
  proof (cases "DVProfileKey f = ''5''")
    case True
    then show ?thesis using n dv5_hdr [OF True, of caps "sc_DVConvert srv"] dv5_key [of f]
      by (simp add: hdr_reasons_def hdr_ok_def split: if_splits)
  next
    case False
    then show ?thesis using n dv5_key [of f] by (simp add: hdr_reasons_def hdr_ok_def Let_def)
  qed
qed

lemma depth_reasons_Nil: "depth_reasons f caps = [] \<longleftrightarrow> \<not> too_deep f caps"
  by (simp add: depth_reasons_def too_deep_def Let_def)

lemma limit_reasons_Nil: "limit_reasons f caps = [] \<longleftrightarrow> videoLimitExceeded f caps = (False, False)"
  by (cases "videoLimitExceeded f caps") (auto simp: limit_reasons_def Let_def)

lemma size_reasons_Nil: "size_reasons f caps = [] \<longleftrightarrow> \<not> too_large f caps"
  by (simp add: size_reasons_def)

lemma audioCodecLabel_append: "audioCodecLabel a @ (CHR '' '' # x) \<noteq> []"
  by simp

lemma audio_reasons_Nil: "audio_reasons f caps = [] \<longleftrightarrow> client_supports_audio f caps"
  by (auto simp: audio_reasons_def client_supports_audio_def channels_fit_def Let_def)

lemma container_reasons_Nil:
  "canonicalContainer (deref (mf_Container f)) \<noteq> []
   \<Longrightarrow> container_reasons f caps = [] \<longleftrightarrow> client_supports_container f caps"
  by (simp add: container_reasons_def client_supports_container_def Let_def)

lemmas reasons_Nil =
  depth_reasons_Nil limit_reasons_Nil size_reasons_Nil audio_reasons_Nil container_reasons_Nil

text \<open>
  For a video file with a known container, a client whose flags
  agree with its codec list and no Dolby Vision to deliver, the list of reasons is empty exactly when
  the verdict is direct play: the two separately written walks over file and client agree.
\<close>

theorem DecisionReasons_iff_DirectPlay:
  assumes "canonicalVideoCodec (deref (mf_VideoCodec f)) \<noteq> []"
    "canonicalContainer (deref (mf_Container f)) \<noteq> []"
    "flags_agree caps" "PlanDolbyVision f caps (sc_DVConvert srv) = DVNone"
  shows "DecisionReasons f caps = [] \<longleftrightarrow> Decide f caps srv = DecisionDirectPlay"
proof -
  have ao: "\<not> audio_only f" using assms(1) by (simp add: audio_only_def)
  have v: "video_reasons f caps = [] \<longleftrightarrow> hdr_ok f caps srv \<and> copy_ok f caps"
    using ao assms by (auto simp: video_reasons_def hdr_reasons_Nil reasons_Nil copy_ok_def
        client_supports_video_def videoCodecSupported_flags Let_def)
  have r: "remux_reasons f caps = []" if "audio_reasons f caps = []" "container_reasons f caps = []"
    using that by (simp add: remux_reasons_def)
  show ?thesis
    using r assms(2) by (auto simp: DecisionReasons_def Decide_eq v assms(4) reasons_Nil)
qed

theorem DecisionReasons_iff_DirectPlay_witness:
  "DecisionReasons (sample_file\<lparr>mf_DVProfile := None, mf_AudioCodec := Some ''aac'', mf_AudioStreams := None,
       mf_Container := Some ''mp4''\<rparr>) sample_caps = []"
proof -
  let ?f = "sample_file\<lparr>mf_DVProfile := None, mf_AudioCodec := Some ''aac'', mf_AudioStreams := None,
       mf_Container := Some ''mp4''\<rparr>"
  have "canonicalVideoCodec (deref (mf_VideoCodec ?f)) \<noteq> []"
    "canonicalContainer (deref (mf_Container ?f)) \<noteq> []"
    "flags_agree sample_caps" "PlanDolbyVision ?f sample_caps (sc_DVConvert sample_server) = DVNone"
    by code_simp+
  then have "DecisionReasons ?f sample_caps = [] \<longleftrightarrow> Decide ?f sample_caps sample_server = DecisionDirectPlay"
    by (rule DecisionReasons_iff_DirectPlay)
  moreover have "Decide ?f sample_caps sample_server = DecisionDirectPlay" by code_simp
  ultimately show ?thesis by simp
qed

text \<open>
  With Dolby Vision to deliver the two differ: the file below direct-plays, as Dolby Vision, and is
  still given the reason that its HDR10 base is not supported.
\<close>

lemma reasons_of_direct_play:
  "Decide (sample_file\<lparr>mf_Container := Some ''mp4'', mf_AudioCodec := Some ''aac'',
       mf_AudioStreams := None\<rparr>) (sample_caps\<lparr>SupportsHDR := False\<rparr>) sample_server = DecisionDirectPlay
   \<and> DecisionReasons (sample_file\<lparr>mf_Container := Some ''mp4'', mf_AudioCodec := Some ''aac'',
       mf_AudioStreams := None\<rparr>) (sample_caps\<lparr>SupportsHDR := False\<rparr>) \<noteq> []"
  by code_simp

end
