(* ===== verification/Encoders.thy ===== *)
theory Encoders
  imports Caps
begin

text \<open>
  Encoder selection (\<open>internal/transcode/hardware.go\<close>, the encoder constants and predicates of
  \<open>ffmpeg.go\<close>), what the video stream of the output is (\<open>videooutput.go\<close>) and the limits a
  re-encode is held to (\<open>OutputLimits\<close> of \<open>profilelevel.go\<close>).  An encoder is the string ffmpeg
  knows it by.
\<close>

type_synonym Encoder = string

section \<open>Encoder names and families\<close>

definition IsNVENCEncoder :: "Encoder \<Rightarrow> bool" where
  "IsNVENCEncoder e \<longleftrightarrow> e \<in> {''h264_nvenc'', ''hevc_nvenc'', ''av1_nvenc''}"

definition IsQSVEncoder :: "Encoder \<Rightarrow> bool" where
  "IsQSVEncoder e \<longleftrightarrow> e \<in> {''h264_qsv'', ''hevc_qsv'', ''av1_qsv''}"

definition IsVAAPIEncoder :: "Encoder \<Rightarrow> bool" where
  "IsVAAPIEncoder e \<longleftrightarrow> e \<in> {''h264_vaapi'', ''hevc_vaapi'', ''av1_vaapi''}"

definition IsHEVCEncoder :: "Encoder \<Rightarrow> bool" where
  "IsHEVCEncoder e \<longleftrightarrow> e \<in> {''hevc_nvenc'', ''hevc_qsv'', ''hevc_vaapi'', ''hevc_amf'', ''libx265''}"

definition IsAV1Encoder :: "Encoder \<Rightarrow> bool" where
  "IsAV1Encoder e \<longleftrightarrow> e \<in> {''libsvtav1'', ''av1_nvenc'', ''av1_qsv'', ''av1_vaapi'', ''av1_amf''}"

definition IsVideoCopy :: "Encoder \<Rightarrow> bool" where
  "IsVideoCopy e \<longleftrightarrow> e = ''copy''"

definition vendorClass :: "Encoder \<Rightarrow> string" where
  "vendorClass e =
    (if IsNVENCEncoder e then ''nvenc'' else if IsQSVEncoder e then ''qsv''
     else if IsVAAPIEncoder e then ''vaapi''
     else if e = ''h264_amf'' \<or> e = ''hevc_amf'' \<or> e = ''av1_amf'' then ''amf''
     else ''software'')"

definition IsHardwareEncoder :: "Encoder \<Rightarrow> bool" where
  "IsHardwareEncoder e \<longleftrightarrow> vendorClass e \<noteq> ''software'' \<and> e \<noteq> ''copy''"

definition codecFamily :: "Encoder \<Rightarrow> string" where
  "codecFamily e = (if IsAV1Encoder e then ''av1'' else if IsHEVCEncoder e then ''hevc'' else ''h264'')"

definition softwareEncoderForFamily :: "string \<Rightarrow> Encoder" where
  "softwareEncoderForFamily family =
    (if family = ''av1'' then ''libsvtav1'' else if family = ''hevc'' then ''libx265'' else ''libx264'')"

definition EncoderLabel :: "Encoder \<Rightarrow> string" where
  "EncoderLabel e =
    (if e \<in> {''h264_nvenc'', ''hevc_nvenc'', ''av1_nvenc''} then ''NVIDIA GPU''
     else if e \<in> {''h264_amf'', ''hevc_amf'', ''av1_amf''} then ''AMD GPU''
     else if e \<in> {''h264_qsv'', ''hevc_qsv'', ''av1_qsv''} then ''Intel Quick Sync''
     else if e \<in> {''h264_vaapi'', ''hevc_vaapi'', ''av1_vaapi''} then ''VA-API''
     else if e \<in> {''libx264'', ''libx265'', ''libsvtav1''} then ''Software (CPU)''
     else e)"

section \<open>Detection and selection\<close>

text \<open>One entry of a \<open>TRANSCODE_ENCODERS\<close> override.\<close>

definition override_encoder :: "string \<Rightarrow> Encoder option" where
  "override_encoder s = (let t = TrimSpace (ToLower s) in
     if t \<in> {''nvenc'', ''h264_nvenc''} then Some ''h264_nvenc''
     else if t = ''hevc_nvenc'' then Some ''hevc_nvenc''
     else if t = ''av1_nvenc'' then Some ''av1_nvenc''
     else if t \<in> {''amf'', ''h264_amf''} then Some ''h264_amf''
     else if t = ''hevc_amf'' then Some ''hevc_amf''
     else if t = ''av1_amf'' then Some ''av1_amf''
     else if t \<in> {''vaapi'', ''h264_vaapi''} then Some ''h264_vaapi''
     else if t = ''hevc_vaapi'' then Some ''hevc_vaapi''
     else if t = ''av1_vaapi'' then Some ''av1_vaapi''
     else if t \<in> {''qsv'', ''h264_qsv''} then Some ''h264_qsv''
     else if t = ''hevc_qsv'' then Some ''hevc_qsv''
     else if t = ''av1_qsv'' then Some ''av1_qsv''
     else if t \<in> {''software'', ''libx264''} then Some ''libx264''
     else if t \<in> {''hevc_software'', ''libx265''} then Some ''libx265''
     else if t \<in> {''av1_software'', ''libsvtav1''} then Some ''libsvtav1''
     else None)"

definition ParseOverride :: "string \<Rightarrow> Encoder list" where
  "ParseOverride ov = (let es = List.map_filter override_encoder (Split ov (CHR '','')) in
     if es = [] then [''libx264''] else es)"

text \<open>
  \<open>DetectEncoders\<close> probes ffmpeg and the device files; the operating system, \<open>fileExists\<close> and
  \<open>probeEncoder\<close> are parameters.
\<close>

definition when_probed :: "(string \<Rightarrow> bool) \<Rightarrow> Encoder \<Rightarrow> Encoder list" where
  "when_probed probe e = (if probe e then [e] else [])"

definition detect_nvenc :: "(string \<Rightarrow> bool) \<Rightarrow> Encoder list" where
  "detect_nvenc probe =
     when_probed probe ''h264_nvenc'' @ when_probed probe ''hevc_nvenc'' @ when_probed probe ''av1_nvenc''"

definition detect_amf :: "(string \<Rightarrow> bool) \<Rightarrow> Encoder list" where
  "detect_amf probe =
     when_probed probe ''h264_amf'' @ when_probed probe ''hevc_amf'' @ when_probed probe ''av1_amf''"

definition detect_vaapi :: "(string \<Rightarrow> bool) \<Rightarrow> Encoder list" where
  "detect_vaapi probe =
     (if probe ''h264_vaapi''
      then [''h264_vaapi''] @ when_probed probe ''hevc_vaapi'' @ when_probed probe ''av1_vaapi'' else [])"

definition detect_qsv :: "(string \<Rightarrow> bool) \<Rightarrow> Encoder list" where
  "detect_qsv probe =
     (if probe ''h264_qsv''
      then [''h264_qsv''] @ when_probed probe ''hevc_qsv'' @ when_probed probe ''av1_qsv'' else [])"

definition DetectEncoders ::
  "string \<Rightarrow> (string \<Rightarrow> bool) \<Rightarrow> (string \<Rightarrow> bool) \<Rightarrow> string \<Rightarrow> Encoder list" where
  "DetectEncoders goos exists probe ov =
    (if ov \<noteq> [] then ParseOverride ov
     else let skipNVENC = (goos = ''linux'' \<and> \<not> exists ''/dev/nvidia0'' \<and> \<not> exists ''/dev/dxg'');
              skipDRI = (goos = ''linux'' \<and> \<not> exists ''/dev/dri/renderD128'')
       in (if skipNVENC then [] else detect_nvenc probe)
          @ (if goos = ''windows'' then detect_amf probe else [])
          @ (if skipDRI then [] else detect_vaapi probe @ detect_qsv probe)
          @ [''libx264''])"

definition BestEncoder :: "Encoder list \<Rightarrow> Encoder" where
  "BestEncoder es = (if es = [] then ''libx264'' else es ! 0)"

text \<open>The three \<open>Best*Encoder\<close> loops return the first entry of their family.\<close>

definition first_such :: "(Encoder \<Rightarrow> bool) \<Rightarrow> Encoder \<Rightarrow> Encoder list \<Rightarrow> Encoder" where
  "first_such p none es = (case find p es of Some e \<Rightarrow> e | None \<Rightarrow> none)"

definition BestH264Encoder :: "Encoder list \<Rightarrow> Encoder" where
  "BestH264Encoder es = first_such (\<lambda>e. \<not> IsHEVCEncoder e \<and> \<not> IsAV1Encoder e) ''libx264'' es"

definition HasHEVCEncoder :: "Encoder list \<Rightarrow> bool" where
  "HasHEVCEncoder es \<longleftrightarrow> list_ex IsHEVCEncoder es"

definition BestHEVCEncoder :: "Encoder list \<Rightarrow> Encoder" where
  "BestHEVCEncoder es = first_such IsHEVCEncoder [] es"

definition HasAV1Encoder :: "Encoder list \<Rightarrow> bool" where
  "HasAV1Encoder es \<longleftrightarrow> list_ex IsAV1Encoder es"

definition BestAV1Encoder :: "Encoder list \<Rightarrow> Encoder" where
  "BestAV1Encoder es = first_such IsAV1Encoder [] es"

definition FilterAvailable :: "Encoder list \<Rightarrow> Encoder list \<Rightarrow> Encoder list" where
  "FilterAvailable wanted detected = (let r = filter (\<lambda>e. e \<in> set detected) wanted in
     if r = [] then [''libx264''] else r)"

text \<open>The loop of \<open>FallbackEncoders\<close>; the first argument is its \<open>seen\<close> map.\<close>

fun fallback_loop :: "Encoder list \<Rightarrow> Encoder \<Rightarrow> Encoder list \<Rightarrow> Encoder list" where
  "fallback_loop seen primary [] =
     (let sw = softwareEncoderForFamily (codecFamily primary) in if sw \<notin> set seen then [sw] else [])"
| "fallback_loop seen primary (e # es) =
     (if e \<in> set seen \<or> codecFamily e \<noteq> codecFamily primary \<or> \<not> IsHardwareEncoder e
         \<or> vendorClass e = vendorClass primary
      then fallback_loop seen primary es
      else e # fallback_loop (e # seen) primary es)"

definition FallbackEncoders :: "Encoder \<Rightarrow> Encoder list \<Rightarrow> Encoder list" where
  "FallbackEncoders primary available =
    (if \<not> IsHardwareEncoder primary then [] else fallback_loop [primary] primary available)"

section \<open>What the output stream is\<close>

record VideoOutput =
  vo_HEVC :: bool
  vo_AV1 :: bool
  ForcedFMP4 :: bool
  TSSegments :: bool

definition ResolveVideoOutput :: "Encoder \<Rightarrow> bool \<Rightarrow> bool \<Rightarrow> bool \<Rightarrow> bool \<Rightarrow> VideoOutput" where
  "ResolveVideoOutput e sourceHEVC sourceAV1 forceFMP4 tsSegments =
    (if IsVideoCopy e
     then \<lparr>vo_HEVC = sourceHEVC, vo_AV1 = sourceAV1, ForcedFMP4 = forceFMP4, TSSegments = tsSegments\<rparr>
     else \<lparr>vo_HEVC = IsHEVCEncoder e, vo_AV1 = IsAV1Encoder e, ForcedFMP4 = forceFMP4,
           TSSegments = tsSegments\<rparr>)"

definition NeedsFMP4 :: "VideoOutput \<Rightarrow> bool" where
  "NeedsFMP4 v \<longleftrightarrow> vo_AV1 v \<or> ForcedFMP4 v \<or> (vo_HEVC v \<and> \<not> TSSegments v)"

definition SegExt :: "VideoOutput \<Rightarrow> string" where
  "SegExt v = (if NeedsFMP4 v then ''.m4s'' else ''.ts'')"

definition SegType :: "VideoOutput \<Rightarrow> string" where
  "SegType v = (if NeedsFMP4 v then ''fmp4'' else ''mpegts'')"

definition TagV :: "VideoOutput \<Rightarrow> string" where
  "TagV v = (if vo_HEVC v \<and> \<not> NeedsFMP4 v then [] else if vo_HEVC v then ''hvc1''
     else if vo_AV1 v then ''av01'' else [])"

section \<open>Fail-over\<close>

lemma software_family [simp]: "codecFamily (softwareEncoderForFamily (codecFamily e)) = codecFamily e"
  by (simp add: codecFamily_def softwareEncoderForFamily_def IsAV1Encoder_def IsHEVCEncoder_def)

lemma software_not_hardware [simp]: "\<not> IsHardwareEncoder (softwareEncoderForFamily f)"
  by (simp add: softwareEncoderForFamily_def IsHardwareEncoder_def vendorClass_def IsNVENCEncoder_def
      IsQSVEncoder_def IsVAAPIEncoder_def)

lemma software_vendor [simp]: "vendorClass (softwareEncoderForFamily f) = ''software''"
  by (simp add: softwareEncoderForFamily_def vendorClass_def IsNVENCEncoder_def
      IsQSVEncoder_def IsVAAPIEncoder_def)

lemma fallback_loop_props:
  assumes "list_all IsHardwareEncoder seen" "IsHardwareEncoder primary"
  shows "\<exists>hw. fallback_loop seen primary es = hw @ [softwareEncoderForFamily (codecFamily primary)]
    \<and> distinct hw \<and> set hw \<inter> set seen = {} \<and> set hw \<subseteq> set es
    \<and> (\<forall>e \<in> set hw. IsHardwareEncoder e \<and> codecFamily e = codecFamily primary
         \<and> vendorClass e \<noteq> vendorClass primary)"
  using assms
proof (induction seen primary es rule: fallback_loop.induct)
  case (1 seen primary)
  then have "softwareEncoderForFamily (codecFamily primary) \<notin> set seen"
    by (auto simp: list_all_iff)
  then show ?case by (simp add: Let_def)
next
  case (2 seen primary e es)
  show ?case
  proof (cases "e \<in> set seen \<or> codecFamily e \<noteq> codecFamily primary \<or> \<not> IsHardwareEncoder e
         \<or> vendorClass e = vendorClass primary")
    case True
    then show ?thesis using "2.IH"(1) [OF True "2.prems"] by auto
  next
    case False
    then obtain hw where hw: "fallback_loop (e # seen) primary es
        = hw @ [softwareEncoderForFamily (codecFamily primary)]"
      "distinct hw \<and> set hw \<inter> set (e # seen) = {} \<and> set hw \<subseteq> set es"
      "\<forall>e \<in> set hw. IsHardwareEncoder e \<and> codecFamily e = codecFamily primary
         \<and> vendorClass e \<noteq> vendorClass primary"
      using "2.IH"(2) [OF False] "2.prems" by auto
    then show ?thesis using False by (intro exI [of _ "e # hw"]) auto
  qed
qed

lemma family_output:
  "codecFamily a = codecFamily b \<Longrightarrow> IsAV1Encoder a = IsAV1Encoder b \<and> IsHEVCEncoder a = IsHEVCEncoder b"
proof -
  have "\<not> (IsAV1Encoder e \<and> IsHEVCEncoder e)" for e by (auto simp: IsAV1Encoder_def IsHEVCEncoder_def)
  then show "codecFamily a = codecFamily b \<Longrightarrow> ?thesis" by (auto simp: codecFamily_def split: if_splits)
qed

lemma hardware_not_copy: "IsHardwareEncoder e \<Longrightarrow> \<not> IsVideoCopy e"
  by (simp add: IsHardwareEncoder_def IsVideoCopy_def)

lemma software_not_copy: "\<not> IsVideoCopy (softwareEncoderForFamily f)"
  by (simp add: softwareEncoderForFamily_def IsVideoCopy_def)

text \<open>
  C18 (safety of fail-over).  The encoders tried after a hardware encoder fails are distinct, write
  the same codec, so segment extension, segment type and codec tag of the session stay what its
  playlist promised, run on another vendor's device, come from the detected list, and end with the
  software encoder of the family.
\<close>

theorem FallbackEncoders_safe:
  assumes "IsHardwareEncoder primary"
  shows "distinct (FallbackEncoders primary available)
    \<and> last (FallbackEncoders primary available) = softwareEncoderForFamily (codecFamily primary)
    \<and> (\<forall>e \<in> set (FallbackEncoders primary available).
         vendorClass e \<noteq> vendorClass primary \<and> (IsHardwareEncoder e \<longrightarrow> e \<in> set available)
         \<and> ResolveVideoOutput e h a f t = ResolveVideoOutput primary h a f t)"
proof -
  obtain hw where hw: "FallbackEncoders primary available = hw @ [softwareEncoderForFamily (codecFamily primary)]"
      "distinct hw" "set hw \<subseteq> set available"
      "\<forall>e \<in> set hw. IsHardwareEncoder e \<and> codecFamily e = codecFamily primary
         \<and> vendorClass e \<noteq> vendorClass primary"
    using fallback_loop_props [of "[primary]" primary available] assms
    by (auto simp: FallbackEncoders_def)
  have res: "ResolveVideoOutput e h a f t = ResolveVideoOutput primary h a f t"
    if "codecFamily e = codecFamily primary" "\<not> IsVideoCopy e" for e
    using that family_output [OF that(1)] hardware_not_copy [OF assms] by (simp add: ResolveVideoOutput_def)
  have pv: "vendorClass primary \<noteq> ''software''" using assms by (simp add: IsHardwareEncoder_def)
  have "softwareEncoderForFamily (codecFamily primary) \<notin> set hw" using hw(4) by auto
  then show ?thesis using hw res pv software_not_copy hardware_not_copy by auto
qed

theorem FallbackEncoders_safe_witness:
  "FallbackEncoders ''h264_nvenc'' [''h264_nvenc'', ''hevc_nvenc'', ''h264_qsv'', ''hevc_qsv'', ''libx264'']
     = [''h264_qsv'', ''libx264'']
   \<and> ResolveVideoOutput ''h264_qsv'' False False False False
     = ResolveVideoOutput ''h264_nvenc'' False False False False"
proof -
  let ?l = "[''h264_nvenc'', ''hevc_nvenc'', ''h264_qsv'', ''hevc_qsv'', ''libx264'']"
  have h: "IsHardwareEncoder ''h264_nvenc''" by code_simp
  have f: "FallbackEncoders ''h264_nvenc'' ?l = [''h264_qsv'', ''libx264'']" by code_simp
  show ?thesis using FallbackEncoders_safe [OF h, of ?l False False False False] f by simp
qed

section \<open>Detection\<close>

text \<open>
  The functions that pick from a list, on the list \<open>DetectEncoders\<close> gives: an auto-detected list is
  never empty, ends with the software encoder, and holds only encoders whose probe ran.
\<close>

lemma first_such_in: "(\<exists>e \<in> set es. p e) \<Longrightarrow> first_such p z es \<in> set es \<and> p (first_such p z es)"
  by (induction es) (auto simp: first_such_def)

lemma first_such_none: "\<not> (\<exists>e \<in> set es. p e) \<Longrightarrow> first_such p z es = z"
  by (induction es) (auto simp: first_such_def)

lemma ParseOverride_known:
  "ParseOverride ov \<noteq> [] \<and> (\<forall>e \<in> set (ParseOverride ov). vendorClass e \<noteq> ''software''
      \<or> e \<in> {''libx264'', ''libx265'', ''libsvtav1''})"
proof -
  have "vendorClass e \<noteq> ''software'' \<or> e \<in> {''libx264'', ''libx265'', ''libsvtav1''}"
    if "override_encoder s = Some e" for s e
    using that unfolding override_encoder_def Let_def
    by (auto simp: vendorClass_def IsNVENCEncoder_def IsQSVEncoder_def IsVAAPIEncoder_def split: if_splits)
  then show ?thesis
    by (auto simp: ParseOverride_def Let_def List.map_filter_def)
qed

lemma detect_parts:
  "distinct (detect_nvenc probe) \<and> list_all (\<lambda>e. probe e \<and> vendorClass e = ''nvenc'') (detect_nvenc probe)"
  "distinct (detect_amf probe) \<and> list_all (\<lambda>e. probe e \<and> vendorClass e = ''amf'') (detect_amf probe)"
  "distinct (detect_vaapi probe) \<and> list_all (\<lambda>e. probe e \<and> vendorClass e = ''vaapi'') (detect_vaapi probe)"
  "distinct (detect_qsv probe) \<and> list_all (\<lambda>e. probe e \<and> vendorClass e = ''qsv'') (detect_qsv probe)"
  "''hevc_vaapi'' \<in> set (detect_vaapi probe) \<longrightarrow> probe ''h264_vaapi''"
  "''hevc_qsv'' \<in> set (detect_qsv probe) \<longrightarrow> probe ''h264_qsv''"
  by (simp_all add: detect_nvenc_def detect_amf_def detect_vaapi_def detect_qsv_def when_probed_def
      IsNVENCEncoder_def IsVAAPIEncoder_def IsQSVEncoder_def vendorClass_def)

lemma vendor_append:
  assumes "distinct xs \<and> list_all (\<lambda>e. probe e \<and> vendorClass e = v) xs" "distinct ys"
    "\<forall>e \<in> set ys. vendorClass e \<noteq> v"
  shows "distinct (xs @ ys)"
  using assms by (auto simp: list_all_iff)

lemma DetectEncoders_list:
  assumes "l = DetectEncoders goos exists probe []"
  shows "distinct l \<and> l \<noteq> [] \<and> last l = ''libx264'' \<and> (\<forall>e \<in> set l. e = ''libx264'' \<or> probe e)
    \<and> (''hevc_vaapi'' \<in> set l \<longrightarrow> probe ''h264_vaapi'') \<and> (''hevc_qsv'' \<in> set l \<longrightarrow> probe ''h264_qsv'')"
proof -
  obtain A B V Q where l: "l = A @ B @ V @ Q @ [''libx264'']"
    "A \<in> {[], detect_nvenc probe}" "B \<in> {[], detect_amf probe}"
    "V \<in> {[], detect_vaapi probe}" "Q \<in> {[], detect_qsv probe}"
    by (rule that [of "if goos = ''linux'' \<and> \<not> exists ''/dev/nvidia0'' \<and> \<not> exists ''/dev/dxg'' then []
          else detect_nvenc probe" "if goos = ''windows'' then detect_amf probe else []"
        "if goos = ''linux'' \<and> \<not> exists ''/dev/dri/renderD128'' then [] else detect_vaapi probe"
        "if goos = ''linux'' \<and> \<not> exists ''/dev/dri/renderD128'' then [] else detect_qsv probe"])
      (simp_all add: assms DetectEncoders_def Let_def)
  have p: "distinct A \<and> list_all (\<lambda>e. probe e \<and> vendorClass e = ''nvenc'') A"
    "distinct B \<and> list_all (\<lambda>e. probe e \<and> vendorClass e = ''amf'') B"
    "distinct V \<and> list_all (\<lambda>e. probe e \<and> vendorClass e = ''vaapi'') V"
    "distinct Q \<and> list_all (\<lambda>e. probe e \<and> vendorClass e = ''qsv'') Q"
    using l detect_parts(1-4) [of probe] by auto
  have sw: "vendorClass ''libx264'' = ''software''" "vendorClass ''hevc_vaapi'' = ''vaapi''"
    "vendorClass ''hevc_qsv'' = ''qsv''" by code_simp+
  have "distinct (Q @ [''libx264''])" using p(4) sw by (intro vendor_append) auto
  then have "distinct (V @ Q @ [''libx264''])" using p sw by (intro vendor_append) (auto simp: list_all_iff)
  then have "distinct (B @ V @ Q @ [''libx264''])" using p sw by (intro vendor_append) (auto simp: list_all_iff)
  then have "distinct l" unfolding l(1) using p sw by (intro vendor_append) (auto simp: list_all_iff)
  moreover have "''hevc_vaapi'' \<notin> set A \<union> set B \<union> set Q" "''hevc_qsv'' \<notin> set A \<union> set B \<union> set V"
    using p sw by (auto simp: list_all_iff)
  moreover have "\<forall>e \<in> set l. e = ''libx264'' \<or> probe e" using p l(1) by (auto simp: list_all_iff)
  ultimately show ?thesis using l(1,4,5) detect_parts(5,6) [of probe] by auto
qed

text \<open>
  Auto-detection returns distinct encoders, the software one last, every other one
  probed on this host; the H.264 pick always writes H.264, and the HEVC and AV1 picks are empty
  exactly when the list has no encoder of the family.
\<close>

theorem DetectEncoders_picks:
  assumes "l = DetectEncoders goos exists probe []"
  shows "distinct l \<and> last l = ''libx264'' \<and> (\<forall>e \<in> set l. e = ''libx264'' \<or> probe e)
    \<and> (''hevc_vaapi'' \<in> set l \<longrightarrow> probe ''h264_vaapi'') \<and> (''hevc_qsv'' \<in> set l \<longrightarrow> probe ''h264_qsv'')
    \<and> codecFamily (BestH264Encoder l) = ''h264'' \<and> BestH264Encoder l \<in> set l \<and> BestEncoder l \<in> set l
    \<and> (BestHEVCEncoder l = [] \<longleftrightarrow> \<not> HasHEVCEncoder l) \<and> (BestAV1Encoder l = [] \<longleftrightarrow> \<not> HasAV1Encoder l)"
proof -
  note l = DetectEncoders_list [OF assms]
  have x: "''libx264'' \<in> set l" using l by (metis last_in_set)
  have "\<not> IsHEVCEncoder ''libx264'' \<and> \<not> IsAV1Encoder ''libx264''" by code_simp
  then have h: "BestH264Encoder l \<in> set l \<and> \<not> IsHEVCEncoder (BestH264Encoder l) \<and> \<not> IsAV1Encoder (BestH264Encoder l)"
    using first_such_in [of l "\<lambda>e. \<not> IsHEVCEncoder e \<and> \<not> IsAV1Encoder e" "''libx264''"] x
    unfolding BestH264Encoder_def by blast
  have n: "\<not> IsHEVCEncoder []" "\<not> IsAV1Encoder []" by code_simp+
  have "BestHEVCEncoder l = [] \<longleftrightarrow> \<not> HasHEVCEncoder l" "BestAV1Encoder l = [] \<longleftrightarrow> \<not> HasAV1Encoder l"
    using n first_such_in [of l _ "[]"] first_such_none [of l _ "[]"]
    unfolding BestHEVCEncoder_def HasHEVCEncoder_def BestAV1Encoder_def HasAV1Encoder_def list_ex_iff
    by metis+
  then show ?thesis using l h by (simp add: codecFamily_def BestEncoder_def)
qed

theorem DetectEncoders_picks_witness:
  "BestH264Encoder (DetectEncoders ''linux'' (\<lambda>p. p = ''/dev/dri/renderD128'')
      (\<lambda>e. e \<in> {''h264_vaapi'', ''hevc_vaapi'', ''h264_qsv''}) []) = ''h264_vaapi''
   \<and> codecFamily ''h264_vaapi'' = ''h264''"
proof -
  let ?p = "\<lambda>e. e \<in> {''h264_vaapi'', ''hevc_vaapi'', ''h264_qsv''}"
  let ?x = "\<lambda>p. p = ''/dev/dri/renderD128''"
  have b: "BestH264Encoder (DetectEncoders ''linux'' ?x ?p []) = ''h264_vaapi''" by code_simp
  show ?thesis using DetectEncoders_picks [OF refl, of "''linux''" ?x ?p] b by simp
qed

section \<open>Output limits\<close>

record OutputLimits =
  ol_H264Profile :: string
  ol_H264Level :: int
  ol_HEVCLevel :: int
  ol_AV1Level :: int
  ol_FrameRate :: rat

definition OutputLimits_IsZero :: "OutputLimits \<Rightarrow> bool" where
  "OutputLimits_IsZero o1 \<longleftrightarrow>
     ol_H264Profile o1 = [] \<and> ol_H264Level o1 = 0 \<and> ol_HEVCLevel o1 = 0 \<and> ol_AV1Level o1 = 0"

definition OutputLimitsFor :: "ClientCapabilities \<Rightarrow> rat \<Rightarrow> OutputLimits" where
  "OutputLimitsFor caps fps =
    (let p = vl_Profile (VideoLimitFor caps ''h264'');
         o1 = \<lparr>ol_H264Profile = (if p = ''baseline'' then ''baseline'' else if p = ''main'' then ''main'' else []),
               ol_H264Level = vl_Level (VideoLimitFor caps ''h264''),
               ol_HEVCLevel = vl_Level (VideoLimitFor caps ''h265''),
               ol_AV1Level = vl_Level (VideoLimitFor caps ''av1''), ol_FrameRate = 0\<rparr>
     in if \<not> OutputLimits_IsZero o1 \<and> fps > 0 then o1\<lparr>ol_FrameRate := fps\<rparr> else o1)"

definition LevelFor :: "OutputLimits \<Rightarrow> string \<Rightarrow> int" where
  "LevelFor o1 codec = (let c = canonicalVideoCodec codec in
     if c = ''h264'' then ol_H264Level o1 else if c = ''h265'' then ol_HEVCLevel o1
     else if c = ''av1'' then ol_AV1Level o1 else 0)"

definition encoderFamily :: "Encoder \<Rightarrow> string" where
  "encoderFamily e = (if IsAV1Encoder e then ''av1'' else if IsHEVCEncoder e then ''h265'' else ''h264'')"

definition profile_args :: "Encoder \<Rightarrow> OutputLimits \<Rightarrow> string list" where
  "profile_args e o1 =
    (if encoderFamily e = ''h264'' \<and> ol_H264Profile o1 \<noteq> [] then
       [''-profile:v'', (if ol_H264Profile o1 = ''baseline'' \<and> e \<in> {''h264_amf'', ''h264_vaapi''}
                        then ''constrained_baseline'' else ol_H264Profile o1)]
     else [])"

definition outputLimitArgs :: "Encoder \<Rightarrow> OutputLimits \<Rightarrow> int \<Rightarrow> int \<Rightarrow> string list" where
  "outputLimitArgs e o1 w h =
    (let args = profile_args e o1; family = encoderFamily e; level = LevelFor o1 family in
     if level \<le> 0 \<or> \<not> FitsLevel family level w h (ol_FrameRate o1) then args
     else if e = ''libsvtav1'' then args
     else if e = ''libx265'' then args @ [''-x265-params'', ''level-idc='' @ levelDotted level]
     else if e \<in> {''h264_qsv'', ''hevc_qsv'', ''av1_qsv''} then args @ [''-level'', Itoa level]
     else if e \<in> {''h264_vaapi'', ''hevc_vaapi''} then args @ [''-level'', FormatLevel level]
     else args @ [''-level'', levelDotted level])"

text \<open>
  A re-encode is given a level only when its picture fits it, the level written
  on the command line reads back as the client's limit for the codec the encoder writes, and SVT-AV1,
  which has no level option, is given none.
\<close>

theorem outputLimitArgs_level:
  assumes "LevelFor ol (encoderFamily e) = l" "l \<le> 0 \<or> 10 \<le> l \<and> l < 100"
  shows "\<exists>lv. outputLimitArgs e ol w h = profile_args e ol @ lv
    \<and> (lv = [] \<or> (\<exists>flag txt. (lv = [flag, txt] \<or> lv = [flag, ''level-idc='' @ txt])
          \<and> parseClientLevel codec txt = l \<and> FitsLevel (encoderFamily e) l w h (ol_FrameRate ol)
          \<and> e \<noteq> ''libsvtav1''))"
proof (cases "0 < l \<and> FitsLevel (encoderFamily e) l w h (ol_FrameRate ol) \<and> e \<noteq> ''libsvtav1''")
  case True
  then have rt: "parseClientLevel codec (levelDotted l) = l" "parseClientLevel codec (FormatLevel l) = l"
    "parseClientLevel codec (Itoa l) = l"
    using assms(2) parse_plain parse_printed by auto
  let ?p = "profile_args e ol"
  have "outputLimitArgs e ol w h \<in> {?p @ [''-x265-params'', ''level-idc='' @ levelDotted l],
      ?p @ [''-level'', Itoa l], ?p @ [''-level'', FormatLevel l], ?p @ [''-level'', levelDotted l]}"
    using True unfolding outputLimitArgs_def Let_def assms(1) by simp
  then have "\<exists>flag txt. (outputLimitArgs e ol w h = ?p @ [flag, txt]
      \<or> outputLimitArgs e ol w h = ?p @ [flag, ''level-idc='' @ txt]) \<and> parseClientLevel codec txt = l"
    using rt by blast
  then show ?thesis using True by blast
next
  case False
  then show ?thesis unfolding outputLimitArgs_def Let_def assms(1) by auto
qed

theorem outputLimitArgs_level_witness:
  "\<exists>lv. outputLimitArgs ''hevc_qsv'' (OutputLimitsFor (initial_caps\<lparr>VideoLimits :=
       [''h265'' \<mapsto> \<lparr>vl_Profile = [], vl_Level = 41\<rparr>]\<rparr>) 30) 1920 1080 = lv \<and> lv = [''-level'', ''41'']"
proof -
  let ?ol = "OutputLimitsFor (initial_caps\<lparr>VideoLimits := [''h265'' \<mapsto> \<lparr>vl_Profile = [], vl_Level = 41\<rparr>]\<rparr>) 30"
  have l: "LevelFor ?ol (encoderFamily ''hevc_qsv'') = 41" by code_simp
  have p: "profile_args ''hevc_qsv'' ?ol = []" by code_simp
  have "\<exists>lv. outputLimitArgs ''hevc_qsv'' ?ol 1920 1080 = lv \<and> (lv = [] \<or> length lv = 2)"
    using outputLimitArgs_level [OF l, of 1920 1080 "''h265''"] p by auto
  moreover have "outputLimitArgs ''hevc_qsv'' ?ol 1920 1080 = [''-level'', ''41'']" by code_simp
  ultimately show ?thesis by simp
qed

end
