(* ===== verification/Quality.thy ===== *)
theory Quality
  imports Decision Encoders
begin

text \<open>
  Sizing a re-encode (\<open>internal/transcode/quality.go\<close>, \<open>abr.go\<close>, \<open>audio.go\<close>): the quality
  profiles, the pick for one rendition, the adaptive ladder and its master playlist, and the
  audio channel and bitrate choices.
\<close>

section \<open>Quality profiles\<close>

record QualityProfile =
  qp_Name :: string
  qp_Bitrate :: int
  qp_MaxWidth :: int
  qp_MaxHeight :: int

definition profile_row :: "string \<times> int \<times> int \<times> int \<Rightarrow> QualityProfile" where
  "profile_row = (\<lambda>(n, b, w, h). \<lparr>qp_Name = n, qp_Bitrate = b, qp_MaxWidth = w, qp_MaxHeight = h\<rparr>)"

definition Profiles :: "QualityProfile list" where
  "Profiles = map profile_row
    [(''40 Mbps 4K'', 40000, 3840, 2160), (''8 Mbps 1080p'', 8000, 1920, 1080),
     (''4 Mbps 720p'', 4000, 1280, 720), (''2 Mbps 720p'', 2000, 1280, 720),
     (''1 Mbps 480p'', 1000, 854, 480)]"

text \<open>The ratios 0.6 and 0.5 are untyped constants that become doubles in the product.\<close>

definition ScaleBitrateForHEVC :: "int \<Rightarrow> int" where
  "ScaleBitrateForHEVC kbps = go_trunc (fmul (of_int kbps) (f64 (6 / 10)))"

definition ScaleBitrateForAV1 :: "int \<Rightarrow> int" where
  "ScaleBitrateForAV1 kbps = go_trunc (fmul (of_int kbps) (f64 (5 / 10)))"

definition ProfileForBitrate :: "int \<Rightarrow> QualityProfile" where
  "ProfileForBitrate kbps = (case find (\<lambda>p. qp_Bitrate p \<le> kbps) Profiles of
     Some p \<Rightarrow> p | None \<Rightarrow> Profiles ! (length Profiles - 1))"

text \<open>\<open>if limit > 0 && limit < v \<open>{ v = limit }\<close>\<close>, the step every cap of \<open>SelectQuality\<close> takes.\<close>

definition cap_to :: "int \<Rightarrow> int \<Rightarrow> int" where
  "cap_to limit v = (if limit > 0 \<and> limit < v then limit else v)"

definition SelectQuality :: "int \<Rightarrow> int \<Rightarrow> int \<Rightarrow> int \<Rightarrow> int \<Rightarrow> ServerCaps \<Rightarrow> QualityProfile" where
  "SelectQuality clientKbps clientW clientH sourceW sourceH srv =
    (let b0 = (if sc_MaxBitrateKbps srv \<le> 0 then 40000 else sc_MaxBitrateKbps srv);
         w0 = (if sc_MaxWidth srv \<le> 0 then 3840 else sc_MaxWidth srv);
         h0 = (if sc_MaxHeight srv \<le> 0 then 2160 else sc_MaxHeight srv);
         b1 = cap_to clientKbps b0;
         w2 = cap_to sourceW (cap_to clientW w0);
         h2 = cap_to sourceH (cap_to clientH h0);
         b2 = (if clientKbps \<le> 0 then
                 (let bitrateH = (if clientH > 0 \<and> clientH > h2 then clientH else h2) in
                  case find (\<lambda>p. qp_MaxHeight p \<le> bitrateH \<and> qp_Bitrate p \<le> b1) Profiles of
                    Some p \<Rightarrow> qp_Bitrate p | None \<Rightarrow> b1)
               else b1)
     in \<lparr>qp_Name = ''custom'', qp_Bitrate = b2, qp_MaxWidth = w2 - go_mod w2 2,
         qp_MaxHeight = h2 - go_mod h2 2\<rparr>)"

section \<open>The adaptive ladder\<close>

record Rendition =
  rd_Label :: string
  rd_Height :: int
  rd_Width :: int
  rd_BitrateKbps :: int

definition ladderTiers :: "(int \<times> int) list" where
  "ladderTiers = [(2160, 40000), (1440, 16000), (1080, 8000), (720, 4000), (480, 1500), (360, 800)]"

definition scaleBitrateForCodec :: "int \<Rightarrow> string \<Rightarrow> int" where
  "scaleBitrateForCodec kbps codec =
    (if codec = ''hevc'' then ScaleBitrateForHEVC kbps
     else if codec = ''av1'' then ScaleBitrateForAV1 kbps else kbps)"

definition rung_kbps :: "int \<Rightarrow> string \<Rightarrow> int \<Rightarrow> int \<Rightarrow> int" where
  "rung_kbps refKbps codec sourceKbps maxKbps =
     cap_to maxKbps (cap_to sourceKbps (scaleBitrateForCodec refKbps codec))"

definition rung_width :: "int \<Rightarrow> rat \<Rightarrow> int" where
  "rung_width height aspect = (let w = go_round (fmul (of_int height) aspect) in
     if go_mod w 2 \<noteq> 0 then w + 1 else w)"

definition renditionAt :: "int \<Rightarrow> int \<Rightarrow> rat \<Rightarrow> string \<Rightarrow> int \<Rightarrow> int \<Rightarrow> Rendition" where
  "renditionAt height refKbps aspect codec sourceKbps maxKbps =
     \<lparr>rd_Label = Itoa height @ ''p'', rd_Height = height, rd_Width = rung_width height aspect,
      rd_BitrateKbps = rung_kbps refKbps codec sourceKbps maxKbps\<rparr>"

fun dedupe_loop :: "int list \<Rightarrow> Rendition list \<Rightarrow> Rendition list" where
  "dedupe_loop seen [] = []"
| "dedupe_loop seen (r # rs) =
     (if rd_BitrateKbps r \<in> set seen then dedupe_loop seen rs
      else r # dedupe_loop (rd_BitrateKbps r # seen) rs)"

definition dedupeByBitrate :: "Rendition list \<Rightarrow> Rendition list" where
  "dedupeByBitrate rs = (if length rs < 2 then rs else dedupe_loop [] rs)"

definition BuildLadder :: "int \<Rightarrow> int \<Rightarrow> int \<Rightarrow> string \<Rightarrow> int \<Rightarrow> int \<Rightarrow> Rendition list" where
  "BuildLadder sourceW sourceH0 sourceKbps codec maxHeightCap maxKbps =
    (let sourceH = (if sourceH0 \<le> 0 then 1080 else sourceH0);
         aspect = (if sourceW > 0 \<and> sourceH > 0 then fdiv (of_int sourceW) (of_int sourceH) else f64 (16 / 9));
         keep = filter (\<lambda>t. \<not> fst t > sourceH \<and> \<not> (maxHeightCap > 0 \<and> fst t > maxHeightCap)) ladderTiers;
         rungs = map (\<lambda>t. renditionAt (fst t) (snd t) aspect codec sourceKbps maxKbps) keep
     in dedupeByBitrate
          (if rungs = [] then [renditionAt sourceH (snd (last ladderTiers)) aspect codec sourceKbps maxKbps]
           else rungs))"

section \<open>Codec strings and the master playlist\<close>

definition AudioCodecString :: "string \<Rightarrow> string" where
  "AudioCodecString codec = (let c = CanonicalAudioCodec codec in
     if c = ''ac3'' then ''ac-3'' else if c = ''eac3'' then ''ec-3'' else if c = ''truehd'' then ''mlpa''
     else if c = ''dts'' then ''mp4a.a9'' else ''mp4a.40.2'')"

definition PassthroughAudioKbps :: "string \<Rightarrow> int" where
  "PassthroughAudioKbps codec = (let c = CanonicalAudioCodec codec in
     if c = ''ac3'' then 640 else if c = ''eac3'' then 1024 else if c = ''truehd'' then 6000
     else if c = ''dts'' then 4000 else 0)"

definition hevcCodecLevel :: "int \<Rightarrow> int" where
  "hevcCodecLevel maxHeight = (if maxHeight > 2160 then 60 else if maxHeight > 1080 then 51 else 41)"

definition av1CodecLevel :: "int \<Rightarrow> int" where
  "av1CodecLevel maxHeight = (if maxHeight > 2160 then 60 else if maxHeight > 1080 then 51 else 40)"

definition av1SeqLevelIdx :: "int \<Rightarrow> int" where
  "av1SeqLevelIdx tenths = max 0 (min ((go_div tenths 10 - 2) * 4 + go_mod tenths 10) 23)"

definition MasterCodecs :: "string \<Rightarrow> int \<Rightarrow> int \<Rightarrow> string \<Rightarrow> string" where
  "MasterCodecs ladderCodec maxHeight levelCap audio =
    (if ladderCodec = ''hevc'' then
       ''hvc1.1.6.L'' @ Itoa (cap_to levelCap (hevcCodecLevel maxHeight) * 3) @ ''.B0,'' @ AudioCodecString audio
     else if ladderCodec = ''av1'' then
       ''av01.0.'' @ pad0 2 (av1SeqLevelIdx (cap_to levelCap (av1CodecLevel maxHeight))) @ ''M.08,''
         @ AudioCodecString audio
     else [])"

definition HEVCMasterCodecs :: "int \<Rightarrow> string" where
  "HEVCMasterCodecs maxHeight = MasterCodecs ''hevc'' maxHeight 0 []"

definition AV1MasterCodecs :: "int \<Rightarrow> string" where
  "AV1MasterCodecs maxHeight = MasterCodecs ''av1'' maxHeight 0 []"

text \<open>
  One variant of the master playlist.  \<open>%q\<close> quotes the CODECS value; the values the callers pass are
  those of \<open>MasterCodecs\<close>, which hold nothing it would escape.
\<close>

definition stream_inf :: "int \<Rightarrow> string \<Rightarrow> (Rendition \<Rightarrow> string) \<Rightarrow> Rendition \<Rightarrow> string" where
  "stream_inf audioKbps codecs variantPath r =
     ''#EXT-X-STREAM-INF:BANDWIDTH='' @ Itoa ((rd_BitrateKbps r + audioKbps) * 1000) @ '',RESOLUTION=''
       @ Itoa (rd_Width r) @ ''x'' @ Itoa (rd_Height r)
       @ (if codecs \<noteq> [] then '',CODECS='' @ [CHR 0x22] @ codecs @ [CHR 0x22] else [])
       @ [CHR 0x0A] @ variantPath r @ [CHR 0x0A]"

definition BuildMasterPlaylistAudio ::
  "Rendition list \<Rightarrow> string \<Rightarrow> int \<Rightarrow> (Rendition \<Rightarrow> string) \<Rightarrow> string" where
  "BuildMasterPlaylistAudio rends codecs audioKbps0 variantPath =
    (let audioKbps = (if audioKbps0 \<le> 0 then 160 else audioKbps0) in
     ''#EXTM3U'' @ [CHR 0x0A] @ ''#EXT-X-VERSION:6'' @ [CHR 0x0A]
       @ concat (map (stream_inf audioKbps codecs variantPath) rends))"

definition BuildMasterPlaylist :: "Rendition list \<Rightarrow> string \<Rightarrow> (Rendition \<Rightarrow> string) \<Rightarrow> string" where
  "BuildMasterPlaylist rends codecs variantPath = BuildMasterPlaylistAudio rends codecs 0 variantPath"

section \<open>Audio of a re-encode\<close>

definition TargetAudioChannels :: "int \<Rightarrow> int \<Rightarrow> int" where
  "TargetAudioChannels sourceCh clientMax =
    (if sourceCh \<le> 0 then 2
     else let a = (if clientMax > 0 \<and> clientMax < sourceCh then clientMax else sourceCh);
              b = (if a > 6 then 6 else a)
       in if b < 1 then 1 else b)"

definition AACBitrateKbps :: "int \<Rightarrow> int" where
  "AACBitrateKbps channels = (if channels > 2 then 64 * channels else 128)"

definition IsDolbyEncode :: "string \<Rightarrow> bool" where
  "IsDolbyEncode codec \<longleftrightarrow> codec = ''eac3'' \<or> codec = ''ac3''"

definition EncodesAudio :: "string \<Rightarrow> bool" where
  "EncodesAudio codec \<longleftrightarrow> codec = ''aac'' \<or> IsDolbyEncode codec"

definition DolbyEncodeChannels :: "int \<Rightarrow> int" where
  "DolbyEncodeChannels sourceCh = max 1 (min sourceCh 6)"

section \<open>One rendition stays inside every cap\<close>

lemma cap_to_le: "cap_to limit v \<le> v" "0 < limit \<Longrightarrow> cap_to limit v \<le> limit" "0 < v \<Longrightarrow> 0 < cap_to limit v"
  by (auto simp: cap_to_def)

lemma cap_to_mono: "a \<le> b \<Longrightarrow> cap_to limit a \<le> cap_to limit b"
  by (auto simp: cap_to_def)

lemma find_SomeD: "find P xs = Some x \<Longrightarrow> P x \<and> x \<in> set xs"
  by (induction xs) (auto split: if_splits)

lemma Profiles_pick:
  assumes "find P Profiles = Some p"
  shows "0 < qp_Bitrate p \<and> P p"
proof -
  have "list_all (\<lambda>p. 0 < qp_Bitrate p) Profiles" by code_simp
  then show ?thesis using find_SomeD [OF assms] by (simp add: list_all_iff)
qed

text \<open>
  Whatever the client, the source and the server say, the chosen size is even, no
  larger than any of them and never negative, and the chosen bitrate is positive and within the server's
  and the client's caps.
\<close>

theorem SelectQuality_bounds:
  assumes "q = SelectQuality clientKbps clientW clientH sourceW sourceH srv"
  shows "even (qp_MaxWidth q) \<and> even (qp_MaxHeight q) \<and> 0 \<le> qp_MaxWidth q \<and> 0 \<le> qp_MaxHeight q
    \<and> 0 < qp_Bitrate q
    \<and> (\<forall>limit \<in> {clientW, sourceW, sc_MaxWidth srv}. 0 < limit \<longrightarrow> qp_MaxWidth q \<le> limit)
    \<and> (\<forall>limit \<in> {clientH, sourceH, sc_MaxHeight srv}. 0 < limit \<longrightarrow> qp_MaxHeight q \<le> limit)
    \<and> (\<forall>limit \<in> {clientKbps, sc_MaxBitrateKbps srv}. 0 < limit \<longrightarrow> qp_Bitrate q \<le> limit)"
proof -
  define w where "w = cap_to sourceW (cap_to clientW (if sc_MaxWidth srv \<le> 0 then 3840 else sc_MaxWidth srv))"
  define h where "h = cap_to sourceH (cap_to clientH (if sc_MaxHeight srv \<le> 0 then 2160 else sc_MaxHeight srv))"
  define b where "b = cap_to clientKbps (if sc_MaxBitrateKbps srv \<le> 0 then 40000 else sc_MaxBitrateKbps srv)"
  have pos: "0 < w" "0 < h" "0 < b"
    by (auto simp: w_def h_def b_def intro!: cap_to_le(3))
  have "qp_MaxWidth q = w - go_mod w 2" "qp_MaxHeight q = h - go_mod h 2"
    by (simp_all add: assms SelectQuality_def Let_def w_def h_def)
  then have q: "qp_MaxWidth q = w - w mod 2" "qp_MaxHeight q = h - h mod 2"
    using pos by (simp_all add: go_mod_nonneg)
  have k: "0 < qp_Bitrate q \<and> qp_Bitrate q \<le> b"
  proof (cases "clientKbps \<le> 0")
    case True
    let ?P = "\<lambda>p. qp_MaxHeight p \<le> (if clientH > 0 \<and> clientH > h then clientH else h) \<and> qp_Bitrate p \<le> b"
    have e: "qp_Bitrate q = (case find ?P Profiles of Some p \<Rightarrow> qp_Bitrate p | None \<Rightarrow> b)"
      using True unfolding assms SelectQuality_def Let_def h_def [symmetric] b_def [symmetric] by simp
    show ?thesis
      using Profiles_pick [of ?P] pos(3) unfolding e by (cases "find ?P Profiles") auto
  next
    case False
    then have "qp_Bitrate q = b" by (simp add: assms SelectQuality_def Let_def b_def)
    then show ?thesis using pos(3) by simp
  qed
  have wl: "w \<le> limit" if "limit \<in> {clientW, sourceW, sc_MaxWidth srv}" "0 < limit" for limit
    using that by (auto simp: w_def cap_to_def)
  have hl: "h \<le> limit" if "limit \<in> {clientH, sourceH, sc_MaxHeight srv}" "0 < limit" for limit
    using that by (auto simp: h_def cap_to_def)
  have bl: "b \<le> limit" if "limit \<in> {clientKbps, sc_MaxBitrateKbps srv}" "0 < limit" for limit
    using that by (auto simp: b_def cap_to_def)
  have m: "x - x mod 2 \<le> x \<and> 0 \<le> x - x mod 2 \<and> even (x - x mod 2)" if "0 < x" for x :: int
    using that by (auto simp: minus_mod_eq_mult_div)
  show ?thesis
    unfolding q(1,2) using m [OF pos(1)] m [OF pos(2)] k wl hl bl order_trans by meson
qed

theorem SelectQuality_bounds_witness:
  "qp_MaxHeight (SelectQuality 0 1920 1080 1279 719 sample_server) = 718
   \<and> even (718 :: int) \<and> qp_Bitrate (SelectQuality 0 1920 1080 1279 719 sample_server) \<le> 20000"
proof -
  have "qp_MaxHeight (SelectQuality 0 1920 1080 1279 719 sample_server) = 718" by code_simp
  moreover have "sc_MaxBitrateKbps sample_server = 20000" by (simp add: sample_server_def)
  ultimately show ?thesis
    using SelectQuality_bounds [OF refl, of 0 1920 1080 1279 719 sample_server] by auto
qed

section \<open>The ladder\<close>

lemma dedupe_loop_sub: "sorted_wrt P rs \<Longrightarrow> sorted_wrt P (dedupe_loop seen rs) \<and> set (dedupe_loop seen rs) \<subseteq> set rs"
  by (induction seen rs rule: dedupe_loop.induct) auto

lemma dedupe_loop_distinct:
  "distinct (map rd_BitrateKbps (dedupe_loop seen rs))
   \<and> rd_BitrateKbps ` set (dedupe_loop seen rs) \<inter> set seen = {}
   \<and> (\<forall>r \<in> set rs. rd_BitrateKbps r \<in> set seen \<union> rd_BitrateKbps ` set (dedupe_loop seen rs))"
  by (induction seen rs rule: dedupe_loop.induct) auto

lemma dedupeByBitrate_props:
  assumes "sorted_wrt P rs" "rs \<noteq> []"
  shows "sorted_wrt P (dedupeByBitrate rs)" "set (dedupeByBitrate rs) \<subseteq> set rs"
    "distinct (map rd_BitrateKbps (dedupeByBitrate rs))" "dedupeByBitrate rs \<noteq> []"
proof -
  have ne: "dedupe_loop [] rs \<noteq> []" using dedupe_loop_distinct [of "[]" rs] assms(2)
    by (cases rs) auto
  have d: "distinct (map rd_BitrateKbps rs)" if "length rs < 2" using that by (cases rs) auto
  show "sorted_wrt P (dedupeByBitrate rs)" "set (dedupeByBitrate rs) \<subseteq> set rs"
    "distinct (map rd_BitrateKbps (dedupeByBitrate rs))" "dedupeByBitrate rs \<noteq> []"
    using dedupe_loop_sub [OF assms(1), of "[]"] dedupe_loop_distinct [of "[]" rs] assms ne d
    by (auto simp: dedupeByBitrate_def)
qed

text \<open>The reference bitrates fall with the height, for every codec's scale.\<close>

definition tier_gt :: "string \<Rightarrow> int \<times> int \<Rightarrow> int \<times> int \<Rightarrow> bool" where
  "tier_gt codec a b \<longleftrightarrow> fst b < fst a
     \<and> scaleBitrateForCodec (snd b) codec \<le> scaleBitrateForCodec (snd a) codec"

lemma scale_hevc:
  "ScaleBitrateForHEVC 40000 = 24000" "ScaleBitrateForHEVC 16000 = 9600" "ScaleBitrateForHEVC 8000 = 4800"
  "ScaleBitrateForHEVC 4000 = 2400" "ScaleBitrateForHEVC 1500 = 900" "ScaleBitrateForHEVC 800 = 480"
proof -
  have r: "f64 (6 / 10) = 5404319552844595 / 9007199254740992" by code_simp
  show "ScaleBitrateForHEVC 40000 = 24000" "ScaleBitrateForHEVC 16000 = 9600" "ScaleBitrateForHEVC 8000 = 4800"
    "ScaleBitrateForHEVC 4000 = 2400" "ScaleBitrateForHEVC 1500 = 900" "ScaleBitrateForHEVC 800 = 480"
    unfolding ScaleBitrateForHEVC_def r by code_simp+
qed

lemma scale_av1:
  "ScaleBitrateForAV1 40000 = 20000" "ScaleBitrateForAV1 16000 = 8000" "ScaleBitrateForAV1 8000 = 4000"
  "ScaleBitrateForAV1 4000 = 2000" "ScaleBitrateForAV1 1500 = 750" "ScaleBitrateForAV1 800 = 400"
proof -
  have r: "f64 (5 / 10) = 1 / 2" by code_simp
  show "ScaleBitrateForAV1 40000 = 20000" "ScaleBitrateForAV1 16000 = 8000" "ScaleBitrateForAV1 8000 = 4000"
    "ScaleBitrateForAV1 4000 = 2000" "ScaleBitrateForAV1 1500 = 750" "ScaleBitrateForAV1 800 = 400"
    unfolding ScaleBitrateForAV1_def r by code_simp+
qed

lemmas scale_tiers = scale_hevc scale_av1

lemma ladderTiers_sorted: "sorted_wrt (tier_gt codec) ladderTiers"
  by (simp add: ladderTiers_def tier_gt_def scaleBitrateForCodec_def scale_tiers)

lemma sorted_wrt_conj: "sorted_wrt P l \<Longrightarrow> sorted_wrt Q l \<Longrightarrow> sorted_wrt (\<lambda>a b. P a b \<and> Q a b) l"
  by (induction l) auto

lemma sorted_wrt_ne: "distinct (map f l) \<Longrightarrow> sorted_wrt (\<lambda>a b. f a \<noteq> f b) l"
  by (induction l) auto

lemmas ladder_eval = BuildLadder_def Let_def ladderTiers_def renditionAt_def dedupeByBitrate_def rung_kbps_def cap_to_def
  scaleBitrateForCodec_def scale_tiers

lemma rung_width_even: "0 \<le> height \<Longrightarrow> 0 \<le> aspect \<Longrightarrow> even (rung_width height aspect) \<and> 0 \<le> rung_width height aspect"
proof -
  assume "0 \<le> height" "0 \<le> aspect"
  then have "0 \<le> go_round (fmul (of_int height) aspect)"
    by (intro go_round_nonneg) (simp add: fmul_def f64_nonneg)
  then show ?thesis by (auto simp: rung_width_def Let_def go_mod_nonneg)
qed

text \<open>
  The ladder is never empty; from rung to rung both height and bitrate strictly
  fall, so no two variants share a bandwidth; no rung is taller than the source or has an odd width;
  and no rung's bitrate exceeds the source's or the administered ceiling.  A height cap of at least
  360 (or one the source is under) is respected too.
\<close>

theorem BuildLadder_inv:
  assumes "l = BuildLadder W H sourceKbps codec heightCap maxKbps" "0 < H"
  shows "l \<noteq> [] \<and> sorted_wrt (\<lambda>a b. rd_Height b < rd_Height a \<and> rd_BitrateKbps b < rd_BitrateKbps a) l
    \<and> (\<forall>r \<in> set l. rd_Height r \<le> H \<and> even (rd_Width r) \<and> 0 \<le> rd_Width r
         \<and> (0 < sourceKbps \<longrightarrow> rd_BitrateKbps r \<le> sourceKbps)
         \<and> (0 < maxKbps \<longrightarrow> rd_BitrateKbps r \<le> maxKbps)
         \<and> (360 \<le> heightCap \<or> (0 < heightCap \<and> H \<le> heightCap) \<longrightarrow> rd_Height r \<le> heightCap))"
proof -
  define aspect where "aspect = (if 0 < W \<and> 0 < H then fdiv (of_int W) (of_int H) else f64 (16 / 9))"
  define keep where "keep = filter (\<lambda>t. \<not> fst t > H \<and> \<not> (heightCap > 0 \<and> fst t > heightCap)) ladderTiers"
  define mk where "mk = (\<lambda>t. renditionAt (fst t) (snd t) aspect codec sourceKbps maxKbps)"
  define rungs where "rungs = (if keep = [] then [mk (H, 800)] else map mk keep)"
  have l: "l = dedupeByBitrate rungs"
    using assms by (simp add: BuildLadder_def Let_def aspect_def keep_def mk_def rungs_def ladderTiers_def)
  have asp: "0 \<le> aspect" by (auto simp: aspect_def fdiv_def f64_nonneg)
  have small: "H < 360 \<or> (0 < heightCap \<and> heightCap < 360)" if "keep = []"
    using that by (auto simp: keep_def ladderTiers_def split: if_splits)
  have pos: "\<forall>t \<in> set keep. 0 \<le> fst t \<and> fst t \<le> H \<and> (0 < heightCap \<longrightarrow> fst t \<le> heightCap)"
    by (auto simp: keep_def ladderTiers_def)
  let ?R = "\<lambda>a b. rd_Height b < rd_Height a \<and> rd_BitrateKbps b \<le> rd_BitrateKbps a"
  have "sorted_wrt (tier_gt codec) keep" unfolding keep_def by (intro sorted_wrt_filter ladderTiers_sorted)
  then have "sorted_wrt ?R (map mk keep)"
    unfolding sorted_wrt_map
    by (rule sorted_wrt_mono_rel [rotated])
      (auto simp: tier_gt_def mk_def renditionAt_def rung_kbps_def intro!: cap_to_mono)
  then have srt: "sorted_wrt ?R rungs" by (simp add: rungs_def)
  have ne: "rungs \<noteq> []" by (simp add: rungs_def)
  note d = dedupeByBitrate_props [OF srt ne, folded l]
  have each: "rd_Height r \<le> H \<and> even (rd_Width r) \<and> 0 \<le> rd_Width r
         \<and> (0 < sourceKbps \<longrightarrow> rd_BitrateKbps r \<le> sourceKbps)
         \<and> (0 < maxKbps \<longrightarrow> rd_BitrateKbps r \<le> maxKbps)
         \<and> (360 \<le> heightCap \<or> (0 < heightCap \<and> H \<le> heightCap) \<longrightarrow> rd_Height r \<le> heightCap)"
    if "r \<in> set rungs" for r
  proof -
    obtain t where t: "r = mk t" "0 \<le> fst t" "fst t \<le> H"
      "360 \<le> heightCap \<or> (0 < heightCap \<and> H \<le> heightCap) \<longrightarrow> fst t \<le> heightCap"
    proof (cases "keep = []")
      case True
      show ?thesis
        by (rule that [of "(H, 800)"]) (use \<open>r \<in> set rungs\<close> True small assms(2) in \<open>auto simp: rungs_def\<close>)
    next
      case False
      then obtain u where "u \<in> set keep" "r = mk u" using \<open>r \<in> set rungs\<close> by (auto simp: rungs_def)
      then show ?thesis using pos by (intro that [of u]) auto
    qed
    then show ?thesis using rung_width_even [OF t(2) asp]
      by (auto simp: mk_def renditionAt_def rung_kbps_def intro: cap_to_le order_trans [OF cap_to_le(1)])
  qed
  have "sorted_wrt (\<lambda>a b. rd_Height b < rd_Height a \<and> rd_BitrateKbps b < rd_BitrateKbps a) l"
    by (rule sorted_wrt_mono_rel [OF _ sorted_wrt_conj [OF d(1) sorted_wrt_ne [OF d(3)]]]) auto
  then show ?thesis using d(2,4) each by blast
qed

theorem BuildLadder_inv_witness:
  "map rd_BitrateKbps (BuildLadder 1920 1080 6000 ''hevc'' 0 2000) = [2000, 900, 480]
   \<and> sorted_wrt (\<lambda>a b. rd_Height b < rd_Height a \<and> rd_BitrateKbps b < rd_BitrateKbps a)
       (BuildLadder 1920 1080 6000 ''hevc'' 0 2000)"
proof -
  have "map rd_BitrateKbps (BuildLadder 1920 1080 6000 ''hevc'' 0 2000) = [2000, 900, 480]"
    by (simp add: ladder_eval)
  then show ?thesis using BuildLadder_inv [OF refl, of 1080 1920 6000 "''hevc''" 0 2000] by simp
qed

text \<open>
  A height cap below the lowest tier is not respected: every tier is dropped by the cap, and the rung
  for a source below the lowest tier is then made at the full source height.
\<close>

lemma BuildLadder_low_cap: "map rd_Height (BuildLadder 1920 1080 0 ''h264'' 240 0) = [1080]"
  by (simp add: ladder_eval)

section \<open>Advertised levels\<close>

lemma av1_idx_roundtrip:
  assumes "21 \<le> t" "t \<le> 73" "t mod 10 \<le> 3"
  shows "VideoLevelTenths ''av1'' (av1SeqLevelIdx t) = t"
proof -
  have c: "canonicalVideoCodec ''av1'' = ''av1''" by code_simp
  have "av1SeqLevelIdx t = (t div 10 - 2) * 4 + t mod 10"
  proof -
    have "2 \<le> t div 10" "t div 10 \<le> 7" using assms by auto
    then have "0 \<le> (t div 10 - 2) * 4 + t mod 10" "(t div 10 - 2) * 4 + t mod 10 \<le> 23" using assms(3) by auto
    then show ?thesis using assms unfolding av1SeqLevelIdx_def by (simp add: go_div_nonneg go_mod_nonneg)
  qed
  moreover define a where "a = t div 10 - 2"
  moreover define b where "b = t mod 10"
  ultimately have i: "av1SeqLevelIdx t = 4 * a + b" "t = (a + 2) * 10 + b" by auto
  have r: "0 \<le> a" "a \<le> 5" "0 \<le> b" "b \<le> 3" using assms by (auto simp: a_def b_def)
  have n: "0 < 4 * a + b" "4 * a + b \<le> 23" using assms(1) i(2) r by auto
  have "(4 * a + b) div 4 = a" "(4 * a + b) mod 4 = b" using r by auto
  then have "VideoLevelTenths ''av1'' (4 * a + b) = (2 + a) * 10 + b"
    using n by (simp add: VideoLevelTenths_def c Let_def)
  then show ?thesis unfolding i(1) using i(2) by simp
qed

lemma hevc_idc_roundtrip: "0 < t \<Longrightarrow> VideoLevelTenths ''hevc'' (t * 3) = t"
proof -
  assume t: "0 < t"
  have c: "canonicalVideoCodec ''hevc'' = ''h265''" by code_simp
  show ?thesis using t by (simp add: VideoLevelTenths_def c Let_def)
qed

text \<open>
  The level a ladder advertises in CODECS is, read back the way the scanner's raw
  level numbers are, the level of its tallest rung or the client's cap, whichever is lower.
\<close>

theorem MasterCodecs_level:
  assumes "cap \<le> 0 \<or> 21 \<le> cap \<and> cap \<le> 73 \<and> cap mod 10 \<le> 3"
  shows "(\<exists>n. MasterCodecs ''hevc'' h cap a = ''hvc1.1.6.L'' @ Itoa n @ ''.B0,'' @ AudioCodecString a
            \<and> VideoLevelTenths ''hevc'' n = (if 0 < cap then min cap (hevcCodecLevel h) else hevcCodecLevel h))
    \<and> (\<exists>n. MasterCodecs ''av1'' h cap a = ''av01.0.'' @ pad0 2 n @ ''M.08,'' @ AudioCodecString a
            \<and> VideoLevelTenths ''av1'' n = (if 0 < cap then min cap (av1CodecLevel h) else av1CodecLevel h))"
proof -
  have m: "cap_to cap l = (if 0 < cap then min cap l else l)" for l by (simp add: cap_to_def)
  have h: "0 < (if 0 < cap then min cap (hevcCodecLevel h) else hevcCodecLevel h)"
    by (simp add: hevcCodecLevel_def)
  have v: "21 \<le> (if 0 < cap then min cap (av1CodecLevel h) else av1CodecLevel h)"
    "(if 0 < cap then min cap (av1CodecLevel h) else av1CodecLevel h) \<le> 73"
    "(if 0 < cap then min cap (av1CodecLevel h) else av1CodecLevel h) mod 10 \<le> 3"
    using assms by (auto simp: av1CodecLevel_def min_def)
  have "MasterCodecs ''hevc'' h cap a =
      ''hvc1.1.6.L'' @ Itoa ((if 0 < cap then min cap (hevcCodecLevel h) else hevcCodecLevel h) * 3) @ ''.B0,''
        @ AudioCodecString a"
    "MasterCodecs ''av1'' h cap a =
      ''av01.0.'' @ pad0 2 (av1SeqLevelIdx (if 0 < cap then min cap (av1CodecLevel h) else av1CodecLevel h))
        @ ''M.08,'' @ AudioCodecString a"
    by (simp_all only: MasterCodecs_def m) simp_all
  then show ?thesis using hevc_idc_roundtrip [OF h] av1_idx_roundtrip [OF v] by blast
qed

theorem MasterCodecs_level_witness:
  "MasterCodecs ''hevc'' 2160 41 ''eac3'' = ''hvc1.1.6.L123.B0,ec-3'' \<and> VideoLevelTenths ''hevc'' 123 = 41
   \<and> (\<exists>n. VideoLevelTenths ''av1'' n = 41)"
proof -
  have "VideoLevelTenths ''hevc'' 123 = 41" "MasterCodecs ''hevc'' 2160 41 ''eac3'' = ''hvc1.1.6.L123.B0,ec-3''"
    by code_simp+
  moreover have "av1CodecLevel 2160 = 51" by code_simp
  ultimately show ?thesis using MasterCodecs_level [of 41 2160 "''eac3''"] by auto
qed

text \<open>The channel count of an AAC re-encode: at least one, at most 5.1, the client's limit and the source.\<close>

lemma TargetAudioChannels_bounds:
  "1 \<le> TargetAudioChannels s c \<and> TargetAudioChannels s c \<le> 6
   \<and> (0 < s \<longrightarrow> TargetAudioChannels s c \<le> s \<and> (0 < c \<longrightarrow> TargetAudioChannels s c \<le> c))"
  by (auto simp: TargetAudioChannels_def Let_def)

end
