(* ===== verification/Dispatch.thy ===== *)
theory Dispatch
  imports Quality
begin

text \<open>
  Job dispatch (\<open>internal/transcode/session.go\<close>): worker registrations, what a job needs of a
  worker, the score that ranks workers, and the Valkey side of it: the registry, the in-flight
  counters and the queues.  Valkey's commands act on the record \<open>JobStore\<close>; a registry read that
  fails takes the same branch of \<open>DispatchJob\<close> as an empty registry and is modelled by one.
\<close>

section \<open>Registrations and jobs\<close>

text \<open>The fields of a registration that dispatch reads.\<close>

record WorkerRegistration =
  wr_ID :: string
  wr_Addr :: string
  wr_Capabilities :: "string list"
  wr_MaxSessions :: int
  wr_ActiveSessions :: int
  wr_ActiveCostCenti :: int
  wr_HasGPUTonemap :: bool
  wr_Features :: "string list"

record SubtitleBurn =
  sb_StreamIndex :: int
  sb_OffsetMS :: int

text \<open>One file of a stacked movie.\<close>

record SourcePart =
  pt_FileID :: string
  pt_FilePath :: string
  pt_SourceURL :: string
  pt_DurationMS :: int

text \<open>A job; \<open>SessionDir\<close>, which no worker reads, and \<open>EnqueuedAt\<close> are left out.\<close>

record TranscodeJob =
  tj_SessionID :: string
  tj_FilePath :: string
  tj_SourceURL :: string
  tj_StartOffsetSec :: rat
  tj_Decision :: string
  tj_Encoder :: Encoder
  tj_Width :: int
  tj_Height :: int
  tj_BitrateKbps :: int
  tj_AudioCodec :: string
  tj_AudioChannels :: int
  tj_AudioStreamIndex :: int
  tj_NeedsToneMap :: bool
  tj_IsHEVC :: bool
  tj_IsAV1 :: bool
  tj_IsH264 :: bool
  tj_PreferHEVC :: bool
  tj_ForceFMP4 :: bool
  tj_TSSegments :: bool
  tj_AudioRate :: rat
  tj_PreferAV1 :: bool
  tj_SubtitleStreams :: "int list"
  tj_Incarnation :: int
  tj_OutputTSOffsetSec :: rat
  tj_AudioBitrateKbps :: int
  tj_AudioOnly :: bool
  tj_NoAudio :: bool
  tj_Force8Bit :: bool
  tj_OutputLimits :: "OutputLimits option"
  tj_CostCenti :: int
  tj_Parts :: "SourcePart list"
  tj_AudioPassthrough :: bool
  tj_BurnSubtitle :: "SubtitleBurn option"
  tj_DolbyVision :: DVMode
  tj_DVProfileKey :: string

definition workerFeatures :: "string list" where
  "workerFeatures = [''burn_in_subtitles'', ''audio_passthrough'', ''dolby_vision'', ''audio_dolby_encode'']"

definition ReshapesDolbyVision :: "TranscodeJob \<Rightarrow> bool" where
  "ReshapesDolbyVision j \<longleftrightarrow> tj_DVProfileKey j = ''5'' \<and> tj_DolbyVision j = DVNone \<and> tj_NeedsToneMap j"

definition job_outputLimits :: "TranscodeJob \<Rightarrow> OutputLimits" where
  "job_outputLimits j = (case tj_OutputLimits j of Some l \<Rightarrow> l
     | None \<Rightarrow> \<lparr>ol_H264Profile = [], ol_H264Level = 0, ol_HEVCLevel = 0, ol_AV1Level = 0, ol_FrameRate = 0\<rparr>)"

definition ForcesFMP4 :: "TranscodeJob \<Rightarrow> bool" where
  "ForcesFMP4 j \<longleftrightarrow> tj_ForceFMP4 j \<or> (tj_AudioPassthrough j \<and> tj_AudioCodec j = ''copy'')
     \<or> (tj_DolbyVision j \<noteq> DVNone \<and> IsVideoCopy (tj_Encoder j))"

record JobNeeds =
  jn_ToneMap :: bool
  jn_PreferAV1 :: bool
  jn_PreferHEVC :: bool
  jn_Features :: "string list"

fun dv_features :: "DVMode \<Rightarrow> string list" where
  "dv_features DVNone = []"
| "dv_features DVKeep = [''dolby_vision'']"
| "dv_features DVToP81 = [''dolby_vision'', ''dolby_vision_p7_to_p81'']"

definition jobNeeds :: "TranscodeJob \<Rightarrow> JobNeeds" where
  "jobNeeds j =
    \<lparr>jn_ToneMap = tj_NeedsToneMap j, jn_PreferAV1 = tj_PreferAV1 j, jn_PreferHEVC = tj_PreferHEVC j,
     jn_Features = (if tj_BurnSubtitle j \<noteq> None then [''burn_in_subtitles''] else [])
       @ dv_features (tj_DolbyVision j)
       @ (if ReshapesDolbyVision j then [''dolby_vision_p5_tonemap''] else [])
       @ (if tj_AudioPassthrough j then [''audio_passthrough''] else [])
       @ (if IsDolbyEncode (tj_AudioCodec j) then [''audio_dolby_encode''] else [])\<rparr>"

definition hasAllFeatures :: "string list \<Rightarrow> string list \<Rightarrow> bool" where
  "hasAllFeatures have want \<longleftrightarrow> list_all (\<lambda>f. f \<in> set have) want"

definition workersWithFeatures :: "WorkerRegistration list \<Rightarrow> string list \<Rightarrow> WorkerRegistration list" where
  "workersWithFeatures workers features =
    (if features = [] then workers else filter (\<lambda>w. hasAllFeatures (wr_Features w) features) workers)"

definition hasEncoderPrefix :: "string list \<Rightarrow> string \<Rightarrow> bool" where
  "hasEncoderPrefix caps codec \<longleftrightarrow> list_ex (\<lambda>c. HasPrefix c (codec @ ''_'')) caps"

definition isGPUEncoder :: "string \<Rightarrow> bool" where
  "isGPUEncoder e \<longleftrightarrow> e \<in> {''h264_nvenc'', ''hevc_nvenc'', ''h264_amf'', ''h264_qsv'', ''h264_vaapi''}"

section \<open>Cost and score\<close>

definition JobCostCenti :: "int \<Rightarrow> int \<Rightarrow> string \<Rightarrow> int" where
  "JobCostCenti width height decision =
    (if decision \<in> {''remux'', ''directPlay'', ''directStream''} then 25
     else let px = width * height in
       if px \<le> 0 then 100
       else let cost = px * 100 div (1920 * 1080) in if cost < 25 then 25 else cost)"

definition BurnInCostCenti :: "int \<Rightarrow> int" where
  "BurnInCostCenti cost = go_div (cost * 3) 2"

text \<open>The parts of \<open>workerScore\<close>: the budget, what is free of it, and the three tiers.\<close>

definition worker_full :: "WorkerRegistration \<Rightarrow> bool" where
  "worker_full w \<longleftrightarrow> wr_MaxSessions w > 0 \<and> wr_ActiveSessions w \<ge> wr_MaxSessions w"

definition worker_budget :: "WorkerRegistration \<Rightarrow> int" where
  "worker_budget w = (if wr_MaxSessions w * 100 \<le> 0 then 100 else wr_MaxSessions w * 100)"

definition worker_avail :: "WorkerRegistration \<Rightarrow> int" where
  "worker_avail w = (let a = worker_budget w - wr_ActiveCostCenti w in if a < 0 then 0 else a)"

definition worker_permille :: "WorkerRegistration \<Rightarrow> int" where
  "worker_permille w = worker_avail w * 1000 div worker_budget w"

definition worker_matches :: "WorkerRegistration \<Rightarrow> JobNeeds \<Rightarrow> int" where
  "worker_matches w needs =
     (if jn_ToneMap needs \<and> wr_HasGPUTonemap w then 1 else 0)
     + (if jn_PreferAV1 needs \<and> hasEncoderPrefix (wr_Capabilities w) ''av1'' then 1 else 0)
     + (if jn_PreferHEVC needs \<and> hasEncoderPrefix (wr_Capabilities w) ''hevc'' then 1 else 0)"

definition worker_gpu :: "WorkerRegistration \<Rightarrow> bool" where
  "worker_gpu w \<longleftrightarrow> list_ex isGPUEncoder (wr_Capabilities w)"

definition workerScore :: "WorkerRegistration \<Rightarrow> JobNeeds \<Rightarrow> int" where
  "workerScore w needs =
    (if worker_full w then 0
     else worker_permille w * 100000 + worker_avail w
       + worker_matches w needs * 1000000000
       + (if worker_gpu w then 1000000000000 else 0))"

text \<open>The loop of \<open>selectWorker\<close>: a later worker wins only with a strictly higher score.\<close>

fun select_from :: "WorkerRegistration \<Rightarrow> WorkerRegistration list \<Rightarrow> JobNeeds \<Rightarrow> WorkerRegistration" where
  "select_from best [] needs = best"
| "select_from best (w # ws) needs =
     select_from (if workerScore w needs > workerScore best needs then w else best) ws needs"

definition selectWorker :: "WorkerRegistration list \<Rightarrow> JobNeeds \<Rightarrow> WorkerRegistration" where
  "selectWorker workers needs = select_from (hd workers) (tl workers) needs"

section \<open>The store\<close>

text \<open>
  The keys dispatch uses: the worker index and records (which expire), the two in-flight counters and
  the queue per worker address, and the global queue.
\<close>

record JobStore =
  js_index :: "string list"
  js_workers :: "string \<Rightarrow> WorkerRegistration option"
  js_count :: "string \<Rightarrow> int option"
  js_cost :: "string \<Rightarrow> int option"
  js_queue :: "string \<Rightarrow> TranscodeJob list"
  js_global :: "TranscodeJob list"

definition empty_store :: JobStore where
  "empty_store = \<lparr>js_index = [], js_workers = (\<lambda>_. None), js_count = (\<lambda>_. None), js_cost = (\<lambda>_. None),
     js_queue = (\<lambda>_. []), js_global = []\<rparr>"

definition counter :: "(string \<Rightarrow> int option) \<Rightarrow> string \<Rightarrow> int" where
  "counter m k = (case m k of None \<Rightarrow> 0 | Some n \<Rightarrow> n)"

definition incr_by :: "(string \<Rightarrow> int option) \<Rightarrow> string \<Rightarrow> int \<Rightarrow> (string \<Rightarrow> int option)" where
  "incr_by m k n = m(k \<mapsto> counter m k + n)"

text \<open>\<open>DecrBy\<close>, then \<open>Del\<close> when the result is not positive.\<close>

definition decr_floor :: "(string \<Rightarrow> int option) \<Rightarrow> string \<Rightarrow> int \<Rightarrow> (string \<Rightarrow> int option)" where
  "decr_floor m k n = (let v = counter m k - n in if v \<le> 0 then m(k := None) else m(k \<mapsto> v))"

definition RegisterWorker :: "JobStore \<Rightarrow> WorkerRegistration \<Rightarrow> JobStore" where
  "RegisterWorker st reg =
     st\<lparr>js_workers := (js_workers st)(wr_ID reg \<mapsto> reg),
        js_index := (if wr_ID reg \<in> set (js_index st) then js_index st else js_index st @ [wr_ID reg])\<rparr>"

text \<open>Listing drops the index entries whose record has expired.\<close>

definition ListWorkers :: "JobStore \<Rightarrow> JobStore \<times> WorkerRegistration list" where
  "ListWorkers st =
     (st\<lparr>js_index := filter (\<lambda>i. js_workers st i \<noteq> None) (js_index st)\<rparr>,
      List.map_filter (js_workers st) (js_index st))"

definition FleetHasFeature :: "JobStore \<Rightarrow> string \<Rightarrow> bool" where
  "FleetHasFeature st feature \<longleftrightarrow> workersWithFeatures (snd (ListWorkers st)) [feature] \<noteq> []"

definition FleetCanEncode :: "JobStore \<Rightarrow> string \<Rightarrow> bool" where
  "FleetCanEncode st codec \<longleftrightarrow>
     list_ex (\<lambda>w. hasEncoderPrefix (wr_Capabilities w) codec) (snd (ListWorkers st))"

definition EnqueueJob :: "JobStore \<Rightarrow> TranscodeJob \<Rightarrow> JobStore" where
  "EnqueueJob st job = st\<lparr>js_global := js_global st @ [job]\<rparr>"

datatype DispatchError = ErrNoCapableWorker

text \<open>Each listed worker with the jobs dispatched to it since its last heartbeat folded in.\<close>

definition with_inflight :: "JobStore \<Rightarrow> WorkerRegistration \<Rightarrow> WorkerRegistration" where
  "with_inflight st w =
     w\<lparr>wr_ActiveSessions := wr_ActiveSessions w + counter (js_count st) (wr_Addr w),
       wr_ActiveCostCenti := wr_ActiveCostCenti w + counter (js_cost st) (wr_Addr w)\<rparr>"

definition stamped_cost :: "TranscodeJob \<Rightarrow> int" where
  "stamped_cost job = (let c = JobCostCenti (tj_Width job) (tj_Height job) (tj_Decision job) in
     if tj_BurnSubtitle job \<noteq> None then BurnInCostCenti c else c)"

definition push_job :: "JobStore \<Rightarrow> string \<Rightarrow> TranscodeJob \<Rightarrow> JobStore" where
  "push_job st addr job =
     st\<lparr>js_count := incr_by (js_count st) addr 1,
        js_cost := incr_by (js_cost st) addr (tj_CostCenti job),
        js_queue := (js_queue st)(addr := js_queue st addr @ [job])\<rparr>"

definition DispatchJob :: "JobStore \<Rightarrow> TranscodeJob \<Rightarrow> JobStore \<times> (DispatchError + string)" where
  "DispatchJob st0 job =
    (let (st, workers) = ListWorkers st0; needs = jobNeeds job in
     if workers = [] then
       (if jn_Features needs \<noteq> [] then (st, Inl ErrNoCapableWorker)
        else (EnqueueJob st job, Inr []))
     else
       (let capable = workersWithFeatures (map (with_inflight st) workers) (jn_Features needs) in
        if capable = [] then (st, Inl ErrNoCapableWorker)
        else (let best = selectWorker capable needs in
              (push_job st (wr_Addr best) (job\<lparr>tj_CostCenti := stamped_cost job\<rparr>), Inr (wr_Addr best)))))"

definition AckDispatch :: "JobStore \<Rightarrow> string \<Rightarrow> int \<Rightarrow> JobStore" where
  "AckDispatch st addr cost =
    (let st1 = st\<lparr>js_count := decr_floor (js_count st) addr 1\<rparr> in
     if cost \<le> 0 then st1 else st1\<lparr>js_cost := decr_floor (js_cost st1) addr cost\<rparr>)"

text \<open>\<open>BLPOP\<close> reads its keys in order: the worker's own queue, then the global one.\<close>

definition DequeueJob :: "JobStore \<Rightarrow> string \<Rightarrow> JobStore \<times> TranscodeJob option" where
  "DequeueJob st addr =
    (case js_queue st addr of
       j # js \<Rightarrow> (st\<lparr>js_queue := (js_queue st)(addr := js)\<rparr>, Some j)
     | [] \<Rightarrow> (case js_global st of
                j # js \<Rightarrow> (st\<lparr>js_global := js\<rparr>, Some j)
              | [] \<Rightarrow> (st, None)))"

text \<open>What \<open>jobLoop\<close> does with the store for one job: dequeue, derive a missing cost, acknowledge.\<close>

definition take_job :: "JobStore \<Rightarrow> string \<Rightarrow> JobStore \<times> TranscodeJob option" where
  "take_job st addr =
    (case DequeueJob st addr of
       (st1, None) \<Rightarrow> (st1, None)
     | (st1, Some j) \<Rightarrow>
         (let j' = (if tj_CostCenti j = 0
                    then j\<lparr>tj_CostCenti := JobCostCenti (tj_Width j) (tj_Height j) (tj_Decision j)\<rparr> else j)
          in (AckDispatch st1 addr (tj_CostCenti j'), Some j')))"

section \<open>Ranking\<close>

interpretation sw: scan_best "\<lambda>w. workerScore w needs" "\<lambda>b ws. select_from b ws needs" for needs
  by unfold_locales simp_all

lemma selectWorker_max:
  assumes "w \<in> set workers"
  shows "selectWorker workers needs \<in> set workers \<and> workerScore w needs \<le> workerScore (selectWorker workers needs) needs"
proof -
  have e: "set (hd workers # tl workers) = set workers" using assms by (cases workers) auto
  show ?thesis
    using sw.pick_in [of "hd workers" "tl workers" needs] sw.pick_ge [of w "hd workers" "tl workers" needs] assms
    unfolding e selectWorker_def by simp
qed

text \<open>
  A registration whose figures are in range: a session limit below nine million and a load that is
  not negative.  The tiers of the score need both.
\<close>

definition sane :: "WorkerRegistration \<Rightarrow> bool" where
  "sane w \<longleftrightarrow> wr_MaxSessions w < 8000000 \<and> 0 \<le> wr_ActiveCostCenti w"

definition load_score :: "WorkerRegistration \<Rightarrow> int" where
  "load_score w = worker_permille w * 100000 + worker_avail w"

lemma load_bounds:
  assumes "sane w"
  shows "0 \<le> load_score w \<and> load_score w < 1000000000"
proof -
  have b: "0 < worker_budget w" "worker_budget w < 800000000"
    using assms by (auto simp: worker_budget_def sane_def)
  have a: "0 \<le> worker_avail w" "worker_avail w \<le> worker_budget w"
    using assms b by (auto simp: worker_avail_def sane_def Let_def)
  have "worker_permille w \<le> worker_budget w * 1000 div worker_budget w"
    unfolding worker_permille_def using a b by (intro zdiv_mono1) auto
  then have "worker_permille w \<le> 1000" using b by simp
  moreover have "0 \<le> worker_permille w"
    unfolding worker_permille_def using a b by (simp add: pos_imp_zdiv_nonneg_iff)
  ultimately show ?thesis using a b by (simp add: load_score_def)
qed

lemma workerScore_tiers:
  "\<not> worker_full w \<Longrightarrow> workerScore w needs = load_score w + worker_matches w needs * 1000000000
     + of_bool (worker_gpu w) * 1000000000000"
  by (simp add: workerScore_def load_score_def)

lemma worker_matches_range: "0 \<le> worker_matches w needs \<and> worker_matches w needs \<le> 3"
  by (simp add: worker_matches_def)

text \<open>
  The worker picked for a job is one of the candidates and is best in strict tiers:
  against any candidate with a free slot and a positive score it has a free slot itself, has a GPU if
  the other has one; with the same GPU answer it meets at least as many of the job's wishes; and with
  the same wishes met its load score is at least as good.
\<close>

theorem selectWorker_tiers:
  assumes "w \<in> set workers" "\<forall>v \<in> set workers. sane v" "\<not> worker_full w" "0 < workerScore w needs"
    "b = selectWorker workers needs"
  shows "b \<in> set workers \<and> \<not> worker_full b \<and> (worker_gpu w \<longrightarrow> worker_gpu b)
    \<and> (worker_gpu w = worker_gpu b \<longrightarrow> worker_matches w needs \<le> worker_matches b needs)
    \<and> (worker_gpu w = worker_gpu b \<and> worker_matches w needs = worker_matches b needs
         \<longrightarrow> load_score w \<le> load_score b)"
proof -
  have b: "b \<in> set workers" "workerScore w needs \<le> workerScore b needs"
    using selectWorker_max [OF assms(1), of needs] assms(5) by auto
  then have nf: "\<not> worker_full b" using assms(4) by (auto simp: workerScore_def split: if_splits)
  have l: "0 \<le> load_score w" "load_score w < 1000000000" "0 \<le> load_score b" "load_score b < 1000000000"
    using load_bounds assms(1,2) b(1) by auto
  have m: "0 \<le> worker_matches w needs" "0 \<le> worker_matches b needs" "worker_matches w needs \<le> 3"
    "worker_matches b needs \<le> 3"
    using worker_matches_range by auto
  have le: "load_score w + worker_matches w needs * 1000000000 + of_bool (worker_gpu w) * 1000000000000
      \<le> load_score b + worker_matches b needs * 1000000000 + of_bool (worker_gpu b) * 1000000000000"
    using b(2) workerScore_tiers [OF assms(3)] workerScore_tiers [OF nf] by simp
  show ?thesis using b(1) nf le l m by (cases "worker_gpu w"; cases "worker_gpu b") auto
qed

definition sample_worker :: "string \<Rightarrow> string list \<Rightarrow> int \<Rightarrow> WorkerRegistration" where
  "sample_worker i caps active = \<lparr>wr_ID = i, wr_Addr = i @ '':9000'', wr_Capabilities = caps,
     wr_MaxSessions = 4, wr_ActiveSessions = active, wr_ActiveCostCenti = active * 100,
     wr_HasGPUTonemap = False, wr_Features = workerFeatures\<rparr>"

definition sample_job :: TranscodeJob where
  "sample_job = \<lparr>tj_SessionID = ''s1'', tj_FilePath = ''/media/a.mkv'', tj_SourceURL = [], tj_StartOffsetSec = 0,
     tj_Decision = ''transcode'', tj_Encoder = [], tj_Width = 1920, tj_Height = 1080, tj_BitrateKbps = 4800,
     tj_AudioCodec = ''eac3'', tj_AudioChannels = 6, tj_AudioStreamIndex = -1, tj_NeedsToneMap = False,
     tj_IsHEVC = True, tj_IsAV1 = False, tj_IsH264 = False, tj_PreferHEVC = True, tj_ForceFMP4 = False,
     tj_TSSegments = False, tj_AudioRate = 0, tj_PreferAV1 = False, tj_SubtitleStreams = [], tj_Incarnation = 0,
     tj_OutputTSOffsetSec = 0, tj_AudioBitrateKbps = 0, tj_AudioOnly = False, tj_NoAudio = False,
     tj_Force8Bit = False, tj_OutputLimits = None, tj_CostCenti = 0, tj_Parts = [], tj_AudioPassthrough = False,
     tj_BurnSubtitle = None, tj_DolbyVision = DVNone, tj_DVProfileKey = []\<rparr>"

theorem selectWorker_tiers_witness:
  "wr_ID (selectWorker [sample_worker ''cpu'' [''libx264''] 0, sample_worker ''gpu'' [''h264_nvenc''] 3]
     (jobNeeds sample_job)) = ''gpu''"
proof -
  let ?ws = "[sample_worker ''cpu'' [''libx264''] 0, sample_worker ''gpu'' [''h264_nvenc''] 3]"
  let ?n = "jobNeeds sample_job"
  have s: "\<forall>v \<in> set ?ws. sane v" by (simp add: sane_def sample_worker_def)
  have f: "\<not> worker_full (sample_worker ''gpu'' [''h264_nvenc''] 3)"
    "0 < workerScore (sample_worker ''gpu'' [''h264_nvenc''] 3) ?n"
    "worker_gpu (sample_worker ''gpu'' [''h264_nvenc''] 3)" "\<not> worker_gpu (sample_worker ''cpu'' [''libx264''] 0)"
    by code_simp+
  have "selectWorker ?ws ?n \<in> set ?ws \<and> worker_gpu (selectWorker ?ws ?n)"
    using selectWorker_tiers [OF _ s f(1,2) refl] f(3) by simp
  then have "selectWorker ?ws ?n = sample_worker ''gpu'' [''h264_nvenc''] 3" using f(4) by auto
  then show ?thesis by (simp add: sample_worker_def)
qed

text \<open>
  The GPU tier does not know every hardware encoder: a worker whose list is pinned to an AV1 or an
  Intel or AMD HEVC encoder ranks as CPU-only.
\<close>

lemma gpu_tier_misses: "IsHardwareEncoder ''av1_nvenc'' \<and> \<not> isGPUEncoder ''av1_nvenc''
   \<and> IsHardwareEncoder ''hevc_qsv'' \<and> \<not> isGPUEncoder ''hevc_qsv''"
  by code_simp

section \<open>Dispatching\<close>

lemma jobNeeds_inflight [simp]:
  "wr_Features (with_inflight st w) = wr_Features w" "wr_Addr (with_inflight st w) = wr_Addr w"
  by (simp_all add: with_inflight_def)

lemma selectWorker_in: "ws \<noteq> [] \<Longrightarrow> selectWorker ws needs \<in> set ws"
  using selectWorker_max [of "hd ws" ws needs] by simp

lemma capable_has:
  "w \<in> set (workersWithFeatures ws fs) \<Longrightarrow> w \<in> set ws \<and> set fs \<subseteq> set (wr_Features w)"
  by (auto simp: workersWithFeatures_def hasAllFeatures_def list_all_iff split: if_splits)

text \<open>The three outcomes of \<open>DispatchJob\<close>.\<close>

lemma DispatchJob_cases:
  obtains (none) "DispatchJob st job = (fst (ListWorkers st), Inl ErrNoCapableWorker)" "jn_Features (jobNeeds job) \<noteq> []"
      "\<forall>w \<in> set (snd (ListWorkers st)). \<not> set (jn_Features (jobNeeds job)) \<subseteq> set (wr_Features w)"
  | (global) "DispatchJob st job = (EnqueueJob (fst (ListWorkers st)) job, Inr [])" "jn_Features (jobNeeds job) = []"
      "snd (ListWorkers st) = []"
  | (worker) w where "w \<in> set (snd (ListWorkers st))" "set (jn_Features (jobNeeds job)) \<subseteq> set (wr_Features w)"
      "DispatchJob st job = (push_job (fst (ListWorkers st)) (wr_Addr w) (job\<lparr>tj_CostCenti := stamped_cost job\<rparr>),
         Inr (wr_Addr w))"
proof (cases "snd (ListWorkers st) = []")
  case True
  then show ?thesis
    using none global by (cases "jn_Features (jobNeeds job) = []") (auto simp: DispatchJob_def Let_def case_prod_beta)
next
  case False
  let ?fs = "jn_Features (jobNeeds job)"
  let ?c = "workersWithFeatures (map (with_inflight (fst (ListWorkers st))) (snd (ListWorkers st))) ?fs"
  show ?thesis
  proof (cases "?c = []")
    case True
    then have fs: "?fs \<noteq> []" using False by (auto simp: workersWithFeatures_def)
    have "DispatchJob st job = (fst (ListWorkers st), Inl ErrNoCapableWorker)"
      using True False by (simp add: DispatchJob_def Let_def case_prod_beta)
    moreover have "\<forall>w \<in> set (snd (ListWorkers st)). \<not> set ?fs \<subseteq> set (wr_Features w)"
      using True fs by (auto simp: workersWithFeatures_def hasAllFeatures_def list_all_iff filter_empty_conv subset_iff)
    ultimately show ?thesis using fs none by blast
  next
    case c: False
    define best where "best = selectWorker ?c (jobNeeds job)"
    have "best \<in> set ?c" using c selectWorker_in unfolding best_def by blast
    then obtain w where w: "w \<in> set (snd (ListWorkers st))" "wr_Addr best = wr_Addr w"
      "set ?fs \<subseteq> set (wr_Features w)"
      using capable_has [of best] by fastforce
    moreover have "DispatchJob st job = (push_job (fst (ListWorkers st)) (wr_Addr best)
        (job\<lparr>tj_CostCenti := stamped_cost job\<rparr>), Inr (wr_Addr best))"
      using c False by (simp add: DispatchJob_def Let_def best_def case_prod_beta)
    ultimately show ?thesis using worker [of w] by simp
  qed
qed

text \<open>
  C25 (safety).  A job that needs worker features is only ever put on the queue of a registered worker
  that advertises all of them, with its cost stamped; without such a worker the answer is
  \<open>ErrNoCapableWorker\<close> and no queue or counter changes; and only a job that needs nothing goes to the
  global queue, which any worker may pop.
\<close>

theorem DispatchJob_features:
  assumes "DispatchJob st job = (st', r)"
  shows "case r of
      Inl e \<Rightarrow> js_queue st' = js_queue st \<and> js_global st' = js_global st \<and> js_count st' = js_count st
        \<and> js_cost st' = js_cost st
        \<and> (\<forall>w \<in> set (snd (ListWorkers st)). \<not> set (jn_Features (jobNeeds job)) \<subseteq> set (wr_Features w))
    | Inr addr \<Rightarrow>
        (addr = [] \<and> snd (ListWorkers st) = [] \<and> jn_Features (jobNeeds job) = []
          \<and> js_queue st' = js_queue st \<and> js_global st' = js_global st @ [job])
        \<or> (\<exists>w \<in> set (snd (ListWorkers st)). wr_Addr w = addr
          \<and> set (jn_Features (jobNeeds job)) \<subseteq> set (wr_Features w)
          \<and> js_queue st' = (js_queue st)(addr := js_queue st addr @ [job\<lparr>tj_CostCenti := stamped_cost job\<rparr>])
          \<and> js_global st' = js_global st)"
proof -
  have k: "js_queue (fst (ListWorkers st)) = js_queue st" "js_global (fst (ListWorkers st)) = js_global st"
    "js_count (fst (ListWorkers st)) = js_count st" "js_cost (fst (ListWorkers st)) = js_cost st"
    by (simp_all add: ListWorkers_def)
  show ?thesis
  proof (cases rule: DispatchJob_cases [of st job])
    case none
    then show ?thesis using assms k by auto
  next
    case global
    then show ?thesis using assms k by (auto simp: EnqueueJob_def)
  next
    case (worker w)
    then have "r = Inr (wr_Addr w)" "st' = push_job (fst (ListWorkers st)) (wr_Addr w) (job\<lparr>tj_CostCenti := stamped_cost job\<rparr>)"
      using assms by auto
    then show ?thesis using worker(1,2) k by (auto simp: push_job_def)
  qed
qed

definition sample_store :: JobStore where
  "sample_store = RegisterWorker (RegisterWorker empty_store (sample_worker ''cpu'' [''libx264''] 0))
     (sample_worker ''gpu'' [''h264_nvenc''] 3)"

theorem DispatchJob_features_witness:
  "snd (DispatchJob sample_store (sample_job\<lparr>tj_DolbyVision := DVToP81\<rparr>)) = Inl ErrNoCapableWorker
   \<and> list_all (\<lambda>w. \<not> set (jn_Features (jobNeeds (sample_job\<lparr>tj_DolbyVision := DVToP81\<rparr>))) \<subseteq> set (wr_Features w))
        (snd (ListWorkers sample_store))"
proof -
  let ?j = "sample_job\<lparr>tj_DolbyVision := DVToP81\<rparr>"
  have d: "snd (DispatchJob sample_store ?j) = Inl ErrNoCapableWorker" by code_simp
  obtain st' where "DispatchJob sample_store ?j = (st', Inl ErrNoCapableWorker)"
    using d by (metis prod.collapse)
  from DispatchJob_features [OF this] d show ?thesis by (simp add: list_all_iff)
qed

section \<open>In-flight counters\<close>

text \<open>
  The life of the store, as atomic operations in any order: heartbeats register workers, registrations
  expire, the API dispatches and workers take jobs.
\<close>

inductive dstep :: "JobStore \<Rightarrow> JobStore \<Rightarrow> bool" where
  register: "dstep st (RegisterWorker st reg)"
| expire: "dstep st (st\<lparr>js_workers := (js_workers st)(i := None)\<rparr>)"
| list_workers: "dstep st (fst (ListWorkers st))"
| dispatch: "dstep st (fst (DispatchJob st job))"
| take_step: "dstep st (fst (take_job st addr))"

inductive_cases dstepE: "dstep st st'"

definition inflight_inv :: "JobStore \<Rightarrow> bool" where
  "inflight_inv st \<longleftrightarrow> (\<forall>a. counter (js_count st) a = int (length (js_queue st a))
     \<and> counter (js_cost st) a = sum_list (map tj_CostCenti (js_queue st a))
     \<and> list_all (\<lambda>j. 0 < tj_CostCenti j) (js_queue st a))"

lemma counter_upd [simp]:
  "counter (m(k \<mapsto> v)) k' = (if k' = k then v else counter m k')"
  "counter (m(k := None)) k' = (if k' = k then 0 else counter m k')"
  by (simp_all add: counter_def)

lemma counter_incr [simp]: "counter (incr_by m k n) k' = (if k' = k then counter m k + n else counter m k')"
  by (simp add: incr_by_def)

lemma counter_decr [simp]:
  "counter (decr_floor m k n) k' = (if k' = k then max 0 (counter m k - n) else counter m k')"
  by (auto simp: decr_floor_def Let_def)

lemma JobCostCenti_pos: "25 \<le> JobCostCenti w h d"
  by (simp add: JobCostCenti_def Let_def)

lemma stamped_cost_pos: "0 < stamped_cost job"
proof -
  have "25 \<le> JobCostCenti (tj_Width job) (tj_Height job) (tj_Decision job)" by (rule JobCostCenti_pos)
  moreover have "0 < BurnInCostCenti c" if "25 \<le> c" for c
  proof -
    have "75 div 2 \<le> c * 3 div 2" using that by (intro zdiv_mono1) auto
    then show ?thesis using that by (simp add: BurnInCostCenti_def go_div_nonneg)
  qed
  ultimately show ?thesis by (simp add: stamped_cost_def Let_def)
qed

lemma push_job_inv:
  "inflight_inv st \<Longrightarrow> 0 < tj_CostCenti job \<Longrightarrow> inflight_inv (push_job st addr job)"
  by (simp add: inflight_inv_def push_job_def)

lemma inflight_same:
  "js_queue st' = js_queue st \<Longrightarrow> js_count st' = js_count st \<Longrightarrow> js_cost st' = js_cost st
   \<Longrightarrow> inflight_inv st' = inflight_inv st"
  by (simp add: inflight_inv_def)

lemma sum_list_pos: "list_all (\<lambda>j. 0 < tj_CostCenti j) js \<Longrightarrow> 0 \<le> sum_list (map tj_CostCenti js)"
  by (induction js) auto

text \<open>
  Taking a job keeps the counters exact.  A job from the global queue was never counted; it is only
  popped when the worker's own queue is empty, where both counters are already gone and the
  decrement is undone by the deletion.
\<close>

lemma take_job_inv:
  assumes "inflight_inv st"
  shows "inflight_inv (fst (take_job st addr))"
proof (cases "js_queue st addr")
  case Nil
  have z: "counter (js_count st) addr = 0" "counter (js_cost st) addr = 0"
    using assms Nil unfolding inflight_inv_def by auto
  show ?thesis
  proof (cases "js_global st")
    case Nil2: Nil
    then show ?thesis using Nil assms by (simp add: take_job_def DequeueJob_def)
  next
    case (Cons j js)
    let ?j = "if tj_CostCenti j = 0 then j\<lparr>tj_CostCenti := JobCostCenti (tj_Width j) (tj_Height j) (tj_Decision j)\<rparr> else j"
    have "fst (take_job st addr) = AckDispatch (st\<lparr>js_global := js\<rparr>) addr (tj_CostCenti ?j)"
      using Nil Cons by (simp add: take_job_def DequeueJob_def Let_def)
    then show ?thesis using assms z by (auto simp: inflight_inv_def AckDispatch_def Let_def)
  qed
next
  case (Cons j js)
  have q: "counter (js_count st) addr = 1 + int (length js)"
    "counter (js_cost st) addr = tj_CostCenti j + sum_list (map tj_CostCenti js)" "0 < tj_CostCenti j"
    "list_all (\<lambda>j. 0 < tj_CostCenti j) js"
    using assms Cons unfolding inflight_inv_def by (auto dest!: spec [of _ addr])
  then have nn: "0 \<le> sum_list (map tj_CostCenti js)" using sum_list_pos by auto
  have "fst (take_job st addr) = AckDispatch (st\<lparr>js_queue := (js_queue st)(addr := js)\<rparr>) addr (tj_CostCenti j)"
    using Cons q(3) by (simp add: take_job_def DequeueJob_def Let_def)
  then show ?thesis using assms q nn by (auto simp: inflight_inv_def AckDispatch_def Let_def)
qed

lemma dispatch_inv:
  assumes "inflight_inv st"
  shows "inflight_inv (fst (DispatchJob st job))"
proof -
  have l: "inflight_inv (fst (ListWorkers st))"
    using assms inflight_same [of "fst (ListWorkers st)" st] by (simp add: ListWorkers_def)
  show ?thesis
  proof (cases rule: DispatchJob_cases [of st job])
    case none
    then show ?thesis using l by simp
  next
    case global
    then show ?thesis using l inflight_same [of "EnqueueJob (fst (ListWorkers st)) job" "fst (ListWorkers st)"]
      by (simp add: EnqueueJob_def)
  next
    case (worker w)
    then show ?thesis using l stamped_cost_pos by (simp add: push_job_inv)
  qed
qed

lemma dstep_inv: "dstep st st' \<Longrightarrow> inflight_inv st \<Longrightarrow> inflight_inv st'"
proof (induction rule: dstep.induct)
  case (register st reg)
  then show ?case using inflight_same [of "RegisterWorker st reg" st] by (simp add: RegisterWorker_def)
next
  case (expire st i)
  then show ?case using inflight_same [of "st\<lparr>js_workers := (js_workers st)(i := None)\<rparr>" st] by simp
next
  case (list_workers st)
  then show ?case using inflight_same [of "fst (ListWorkers st)" st] by (simp add: ListWorkers_def)
next
  case (dispatch st job)
  then show ?case by (rule dispatch_inv)
next
  case (take_step st addr)
  then show ?case by (rule take_job_inv)
qed



end
