(* ===== verification/Sessions.thy ===== *)
theory Sessions
  imports Encoders
begin

text \<open>
  The session store (\<open>internal/transcode/session.go\<close>): sessions as records under expiring keys with
  an index set, the per-user cap, owner-scoped deletion and progress updates, and the optimistic
  transaction every other field update goes through.

  A session is reduced to the fields these operations read and write.  Ids and user ids are strings;
  a time is a number of nanoseconds, the zero time \<^const>\<open>None\<close>.
\<close>

section \<open>Sessions and the store\<close>

type_synonym gotime = "int option"

record Session =
  ses_ID :: string
  ses_UserID :: string
  ses_MediaItemID :: string
  ses_WorkerID :: string
  ses_WorkerAddr :: string
  ses_PositionMS :: int
  ses_CreatedAt :: gotime
  ses_LastActivityAt :: gotime
  ses_HEVCOutput :: bool
  ses_AV1Output :: bool
  ses_TSSegments :: bool
  ses_FMP4Segments :: bool
  ses_ParentID :: string
  ses_Incarnation :: int
  ses_SelectedRendition :: string
  ses_StartSeg :: int

definition Session_VideoOutput :: "Session \<Rightarrow> VideoOutput" where
  "Session_VideoOutput s = \<lparr>vo_HEVC = ses_HEVCOutput s, vo_AV1 = ses_AV1Output s,
     ForcedFMP4 = ses_FMP4Segments s, TSSegments = ses_TSSegments s\<rparr>"

record SessionStore =
  ss_index :: "string list"
  ss_sessions :: "string \<Rightarrow> Session option"

text \<open>\<open>SAdd\<close> and \<open>SRem\<close> on the index set.\<close>

definition SAdd :: "string \<Rightarrow> SessionStore \<Rightarrow> SessionStore" where
  "SAdd i st = (if i \<in> set (ss_index st) then st else st\<lparr>ss_index := ss_index st @ [i]\<rparr>)"

definition SRem :: "string \<Rightarrow> SessionStore \<Rightarrow> SessionStore" where
  "SRem i st = st\<lparr>ss_index := filter (\<lambda>j. j \<noteq> i) (ss_index st)\<rparr>"

definition Create :: "SessionStore \<Rightarrow> Session \<Rightarrow> SessionStore" where
  "Create st sess = SAdd (ses_ID sess) (st\<lparr>ss_sessions := (ss_sessions st)(ses_ID sess \<mapsto> sess)\<rparr>)"

definition Get :: "SessionStore \<Rightarrow> string \<Rightarrow> Session option" where
  "Get st i = ss_sessions st i"

definition Delete :: "SessionStore \<Rightarrow> string \<Rightarrow> SessionStore" where
  "Delete st i = (SRem i st)\<lparr>ss_sessions := (ss_sessions st)(i := None)\<rparr>"

text \<open>The loop of \<open>List\<close> over the index: an expired key drops its index entry.\<close>

fun list_loop :: "SessionStore \<Rightarrow> string list \<Rightarrow> SessionStore \<times> Session list" where
  "list_loop st [] = (st, [])"
| "list_loop st (i # is) =
     (case ss_sessions st i of
        None \<Rightarrow> list_loop (SRem i st) is
      | Some s \<Rightarrow> (let (st', ss) = list_loop st is in (st', s # ss)))"

definition List_sessions :: "SessionStore \<Rightarrow> SessionStore \<times> Session list" where
  "List_sessions st = list_loop st (ss_index st)"

definition ListByUserItem :: "SessionStore \<Rightarrow> string \<Rightarrow> string \<Rightarrow> Session list" where
  "ListByUserItem st user item =
     filter (\<lambda>s. ses_UserID s = user \<and> ses_MediaItemID s = item) (snd (List_sessions st))"

section \<open>The per-user cap\<close>

definition ActiveSessionWindow :: int where
  "ActiveSessionWindow = 2 * 60 * 1000000000"

text \<open>
  A session counts when it is not an ABR child and was active within the window; before its first
  segment fetch its creation time stands in.  The zero time is further back than any window.
\<close>

definition counts_live :: "int \<Rightarrow> string \<Rightarrow> Session \<Rightarrow> bool" where
  "counts_live now user s \<longleftrightarrow> ses_UserID s = user \<and> ses_ParentID s = []
     \<and> (case (if ses_LastActivityAt s = None then ses_CreatedAt s else ses_LastActivityAt s) of
          None \<Rightarrow> False | Some t \<Rightarrow> now - t \<le> ActiveSessionWindow)"

definition CountByUser :: "SessionStore \<Rightarrow> int \<Rightarrow> string \<Rightarrow> nat" where
  "CountByUser st now user = length (filter (counts_live now user) (snd (List_sessions st)))"

datatype CreateResult = Created | ErrUserAtCap | ErrContext

text \<open>
  How the spin for the per-user lock ended: with the lock, without it (a Valkey error or all forty
  attempts used up, after which the code carries on), or with the request's context done.
\<close>

datatype LockSpin = LockAcquired | LockFellOpen | LockCancelled

definition CreateWithUserCap ::
  "SessionStore \<Rightarrow> int \<Rightarrow> LockSpin \<Rightarrow> Session \<Rightarrow> int \<Rightarrow> SessionStore \<times> CreateResult" where
  "CreateWithUserCap st now spin sess maxPerUser =
    (if maxPerUser \<le> 0 then (Create st sess, Created)
     else (case spin of
             LockCancelled \<Rightarrow> (st, ErrContext)
           | LockFellOpen \<Rightarrow> (Create st sess, Created)
           | LockAcquired \<Rightarrow>
               (if int (CountByUser st now (ses_UserID sess)) \<ge> maxPerUser
                then (fst (List_sessions st), ErrUserAtCap)
                else (Create (fst (List_sessions st)) sess, Created))))"

section \<open>Updates\<close>

datatype MutateResult = MutateOK | MutateNotFound | MutateSkipped

text \<open>\<open>mutateSession\<close> when no other writer interferes; \<open>fn\<close> gives \<^const>\<open>None\<close> to skip the write.\<close>

definition mutateSession ::
  "SessionStore \<Rightarrow> string \<Rightarrow> (Session \<Rightarrow> Session option) \<Rightarrow> SessionStore \<times> MutateResult" where
  "mutateSession st i fn =
    (case ss_sessions st i of
       None \<Rightarrow> (st, MutateNotFound)
     | Some s \<Rightarrow> (case fn s of
          None \<Rightarrow> (st, MutateSkipped)
        | Some s' \<Rightarrow> (st\<lparr>ss_sessions := (ss_sessions st)(i \<mapsto> s')\<rparr>, MutateOK)))"

definition touch_fn :: "int \<Rightarrow> Session \<Rightarrow> Session option" where
  "touch_fn now s = Some (s\<lparr>ses_LastActivityAt := Some now\<rparr>)"

definition TouchActivity :: "SessionStore \<Rightarrow> int \<Rightarrow> string \<Rightarrow> SessionStore" where
  "TouchActivity st now i = fst (mutateSession st i (touch_fn now))"

definition worker_info_fn :: "string \<Rightarrow> string \<Rightarrow> bool \<Rightarrow> bool \<Rightarrow> Session \<Rightarrow> Session option" where
  "worker_info_fn wid addr hevc av1 s = Some (s\<lparr>ses_WorkerID := wid, ses_WorkerAddr := addr,
     ses_HEVCOutput := hevc, ses_AV1Output := av1\<rparr>)"

definition SetWorkerInfo ::
  "SessionStore \<Rightarrow> string \<Rightarrow> string \<Rightarrow> string \<Rightarrow> bool \<Rightarrow> bool \<Rightarrow> SessionStore \<times> MutateResult" where
  "SetWorkerInfo st i wid addr hevc av1 = mutateSession st i (worker_info_fn wid addr hevc av1)"

definition rendition_fn :: "int \<Rightarrow> string \<Rightarrow> Session \<Rightarrow> Session option" where
  "rendition_fn now rung s =
    (if ses_SelectedRendition s = rung
        \<and> (case ses_LastActivityAt s of None \<Rightarrow> False | Some t \<Rightarrow> now - t < 2 * 1000000000) then None
     else Some (s\<lparr>ses_SelectedRendition := rung, ses_LastActivityAt := Some now\<rparr>))"

definition SetSelectedRendition :: "SessionStore \<Rightarrow> int \<Rightarrow> string \<Rightarrow> string \<Rightarrow> SessionStore" where
  "SetSelectedRendition st now i rung = fst (mutateSession st i (rendition_fn now rung))"

definition position_fn :: "int \<Rightarrow> string \<Rightarrow> string \<Rightarrow> int \<Rightarrow> Session \<Rightarrow> Session option" where
  "position_fn now user item pos s =
    (if ses_MediaItemID s \<noteq> item \<or> ses_UserID s \<noteq> user then None
     else Some (s\<lparr>ses_PositionMS := pos, ses_LastActivityAt := Some now\<rparr>))"

fun position_loop :: "SessionStore \<Rightarrow> int \<Rightarrow> string \<Rightarrow> string \<Rightarrow> int \<Rightarrow> string list \<Rightarrow> SessionStore" where
  "position_loop st now user item pos [] = st"
| "position_loop st now user item pos (i # is) =
     (case ss_sessions st i of
        None \<Rightarrow> position_loop (SRem i st) now user item pos is
      | Some s \<Rightarrow>
          if ses_MediaItemID s \<noteq> item \<or> ses_UserID s \<noteq> user then position_loop st now user item pos is
          else fst (mutateSession st i (position_fn now user item pos)))"

definition UpdatePositionByMedia :: "SessionStore \<Rightarrow> int \<Rightarrow> string \<Rightarrow> string \<Rightarrow> int \<Rightarrow> SessionStore" where
  "UpdatePositionByMedia st now user item pos = position_loop st now user item pos (ss_index st)"

fun delete_loop :: "SessionStore \<Rightarrow> string \<Rightarrow> string \<Rightarrow> string list \<Rightarrow> SessionStore \<times> Session list" where
  "delete_loop st user item [] = (st, [])"
| "delete_loop st user item (i # is) =
     (case ss_sessions st i of
        None \<Rightarrow> delete_loop (SRem i st) user item is
      | Some s \<Rightarrow>
          if ses_MediaItemID s = item \<and> ses_UserID s = user
          then (let (st', ds) = delete_loop ((SRem i st)\<lparr>ss_sessions := (ss_sessions st)(i := None)\<rparr>) user item is
                in (st', s # ds))
          else delete_loop st user item is)"

definition DeleteByMedia :: "SessionStore \<Rightarrow> string \<Rightarrow> string \<Rightarrow> SessionStore \<times> Session list" where
  "DeleteByMedia st user item = delete_loop st user item (ss_index st)"

section \<open>The store invariant\<close>

text \<open>Every stored session is indexed, under its own id, and the index has no duplicates.\<close>

definition store_inv :: "SessionStore \<Rightarrow> bool" where
  "store_inv st \<longleftrightarrow> distinct (ss_index st)
     \<and> (\<forall>i s. ss_sessions st i = Some s \<longrightarrow> i \<in> set (ss_index st) \<and> ses_ID s = i)"

lemmas store_simps = SAdd_def SRem_def Create_def Delete_def store_inv_def

lemma Create_inv: "store_inv st \<Longrightarrow> store_inv (Create st sess)"
  by (auto simp: store_simps split: if_splits)

lemma Delete_inv: "store_inv st \<Longrightarrow> store_inv (Delete st i)"
  by (auto simp: store_simps split: if_splits)

lemma mutate_inv:
  assumes "store_inv st" "\<And>s s'. fn s = Some s' \<Longrightarrow> ses_ID s' = ses_ID s"
  shows "store_inv (fst (mutateSession st i fn))"
  using assms by (auto simp: mutateSession_def store_inv_def split: option.splits)

lemma SRem_inv: "store_inv st \<Longrightarrow> ss_sessions st i = None \<Longrightarrow> store_inv (SRem i st)"
  by (auto simp: store_simps)

lemma list_loop_sessions:
  "ss_sessions (fst (list_loop st is)) = ss_sessions st
   \<and> snd (list_loop st is) = List.map_filter (ss_sessions st) is"
  by (induction st "is" rule: list_loop.induct)
    (auto simp: SRem_def List.map_filter_def Let_def split: option.splits prod.splits)

lemma list_loop_inv: "store_inv st \<Longrightarrow> store_inv (fst (list_loop st is))"
  by (induction st "is" rule: list_loop.induct)
    (auto simp: SRem_inv Let_def split: option.splits prod.splits)

section \<open>Deletion is owner-scoped\<close>

definition owned :: "string \<Rightarrow> string \<Rightarrow> Session \<Rightarrow> bool" where
  "owned user item s \<longleftrightarrow> ses_MediaItemID s = item \<and> ses_UserID s = user"

lemma delete_loop_sessions:
  "ss_sessions (fst (delete_loop st user item is)) = (\<lambda>i. if i \<in> set is \<and> (\<exists>s. ss_sessions st i = Some s \<and> owned user item s)
      then None else ss_sessions st i)"
proof (induction st user item "is" rule: delete_loop.induct)
  case (2 st user item i "is")
  then show ?case
    by (cases "ss_sessions st i") (auto simp: SRem_def owned_def Let_def fun_eq_iff split: prod.splits)
qed (simp add: fun_eq_iff)

lemma delete_loop_index:
  assumes "distinct is"
  shows "ss_index (fst (delete_loop st user item is)) =
    filter (\<lambda>i. i \<notin> set is \<or> (\<exists>s. ss_sessions st i = Some s \<and> \<not> owned user item s)) (ss_index st)"
  using assms
proof (induction st user item "is" rule: delete_loop.induct)
  case (2 st user item i "is")
  have [simp]: "i \<notin> set is" "distinct is" using "2.prems" by auto
  show ?case
  proof (cases "ss_sessions st i")
    case None
    then show ?thesis using "2.IH"(1) [OF None] by (auto simp: SRem_def intro!: filter_cong)
  next
    case (Some s)
    show ?thesis
    proof (cases "owned user item s")
      case True
      then have c: "ses_MediaItemID s = item \<and> ses_UserID s = user" by (simp add: owned_def)
      show ?thesis using "2.IH"(2) [OF Some c] Some True c
        by (auto simp: SRem_def Let_def split: prod.splits intro!: filter_cong)
    next
      case False
      then have c: "\<not> (ses_MediaItemID s = item \<and> ses_UserID s = user)" by (simp add: owned_def)
      show ?thesis using "2.IH"(3) [OF Some c] Some False c by (auto intro!: filter_cong)
    qed
  qed
qed simp

lemma delete_loop_deleted:
  "distinct is \<Longrightarrow> snd (delete_loop st user item is) = filter (owned user item) (List.map_filter (ss_sessions st) is)"
proof (induction st user item "is" rule: delete_loop.induct)
  case (2 st user item i "is")
  have same: "List.map_filter ((ss_sessions st)(i := None)) is = List.map_filter (ss_sessions st) is"
    using "2.prems" by (auto simp: List.map_filter_def intro!: map_cong filter_cong)
  have d: "distinct is" using "2.prems" by simp
  show ?case
  proof (cases "ss_sessions st i")
    case None
    then show ?thesis using "2.IH"(1) [OF None d] by (simp add: List.map_filter_simps SRem_def)
  next
    case (Some s)
    show ?thesis
    proof (cases "owned user item s")
      case True
      then have c: "ses_MediaItemID s = item \<and> ses_UserID s = user" by (simp add: owned_def)
      show ?thesis using "2.IH"(2) [OF Some c d] Some True c same [unfolded fun_upd_def]
        by (simp add: List.map_filter_simps Let_def case_prod_beta)
    next
      case False
      then have c: "\<not> (ses_MediaItemID s = item \<and> ses_UserID s = user)" by (simp add: owned_def)
      show ?thesis using "2.IH"(3) [OF Some c d] Some False c by (auto simp: List.map_filter_simps)
    qed
  qed
qed (simp add: List.map_filter_simps)

lemma map_filter_mem: "x \<in> set (List.map_filter f xs) \<longleftrightarrow> (\<exists>y \<in> set xs. f y = Some x)"
  by (auto simp: List.map_filter_def) force

text \<open>
  C21 (safety).  Stopping playback of an item deletes exactly the caller's sessions for that item and
  reports them: no other user's session and no other item's is touched, the store stays well formed, and
  the index keeps only live sessions.
\<close>

theorem DeleteByMedia_exact:
  assumes "store_inv st" "DeleteByMedia st user item = (st', deleted)"
  shows "ss_sessions st' = (\<lambda>i. case ss_sessions st i of None \<Rightarrow> None
        | Some s \<Rightarrow> if ses_MediaItemID s = item \<and> ses_UserID s = user then None else Some s)
    \<and> set deleted = {s. Get st (ses_ID s) = Some s \<and> ses_MediaItemID s = item \<and> ses_UserID s = user}
    \<and> store_inv st' \<and> (\<forall>i \<in> set (ss_index st'). Get st' i \<noteq> None)"
proof -
  have st': "st' = fst (delete_loop st user item (ss_index st))"
    and del: "deleted = snd (delete_loop st user item (ss_index st))"
    using assms(2) by (simp_all add: DeleteByMedia_def)
  have d: "distinct (ss_index st)" and ix: "ss_sessions st i = Some s \<Longrightarrow> i \<in> set (ss_index st) \<and> ses_ID s = i" for i s
    using assms(1) by (auto simp: store_inv_def)
  have s': "ss_sessions st' = (\<lambda>i. case ss_sessions st i of None \<Rightarrow> None
      | Some s \<Rightarrow> if owned user item s then None else Some s)"
    unfolding st' delete_loop_sessions using ix by (fastforce split: option.splits)
  have i': "ss_index st' = filter (\<lambda>i. \<exists>s. ss_sessions st i = Some s \<and> \<not> owned user item s) (ss_index st)"
    unfolding st' delete_loop_index [OF d] by (auto intro!: filter_cong)
  have del': "set deleted = {s. Get st (ses_ID s) = Some s \<and> owned user item s}"
    unfolding del delete_loop_deleted [OF d] using ix by (auto simp: map_filter_mem Get_def)
  have inv: "store_inv st'"
    unfolding store_inv_def s' i' using d ix by (auto split: option.splits if_splits)
  have live: "\<forall>i \<in> set (ss_index st'). Get st' i \<noteq> None"
    unfolding i' Get_def s' by (auto split: option.splits)
  show ?thesis using s' [unfolded owned_def] del' [unfolded owned_def] inv live by blast
qed

definition sample_session :: "string \<Rightarrow> string \<Rightarrow> Session" where
  "sample_session i user = \<lparr>ses_ID = i, ses_UserID = user, ses_MediaItemID = ''movie'', ses_WorkerID = [],
     ses_WorkerAddr = [], ses_PositionMS = 0, ses_CreatedAt = Some 0, ses_LastActivityAt = None,
     ses_HEVCOutput = False, ses_AV1Output = False, ses_TSSegments = False, ses_FMP4Segments = False,
     ses_ParentID = [], ses_Incarnation = 0, ses_SelectedRendition = [], ses_StartSeg = 0\<rparr>"

definition two_users :: SessionStore where
  "two_users = Create (Create \<lparr>ss_index = [], ss_sessions = (\<lambda>_. None)\<rparr> (sample_session ''a'' ''ann''))
     (sample_session ''b'' ''bob'')"

lemma two_users_inv: "store_inv two_users"
proof -
  have "store_inv \<lparr>ss_index = [], ss_sessions = (\<lambda>_. None)\<rparr>" by (simp add: store_inv_def)
  then show ?thesis unfolding two_users_def by (intro Create_inv)
qed

theorem DeleteByMedia_exact_witness:
  "Get (fst (DeleteByMedia two_users ''ann'' ''movie'')) ''b'' = Some (sample_session ''b'' ''bob'')
   \<and> snd (DeleteByMedia two_users ''ann'' ''movie'') = [sample_session ''a'' ''ann'']"
proof -
  have g: "Get two_users ''b'' = Some (sample_session ''b'' ''bob'')"
    by (simp add: two_users_def Get_def Create_def SAdd_def sample_session_def)
  have d: "snd (DeleteByMedia two_users ''ann'' ''movie'') = [sample_session ''a'' ''ann'']"
    by (simp add: two_users_def DeleteByMedia_def Create_def SAdd_def SRem_def sample_session_def)
  have "ss_sessions (fst (DeleteByMedia two_users ''ann'' ''movie'')) ''b'' = Some (sample_session ''b'' ''bob'')"
    using DeleteByMedia_exact [OF two_users_inv, of "''ann''" "''movie''" "fst (DeleteByMedia two_users ''ann'' ''movie'')"
        "snd (DeleteByMedia two_users ''ann'' ''movie'')"] g
    by (simp add: Get_def sample_session_def)
  then show ?thesis using d by (simp add: Get_def)
qed

section \<open>The cap\<close>

lemma CountByUser_card:
  assumes "store_inv st"
  shows "CountByUser st now user = card {s. Get st (ses_ID s) = Some s \<and> counts_live now user s}"
proof -
  have d: "distinct (ss_index st)" and ix: "ss_sessions st i = Some s \<Longrightarrow> i \<in> set (ss_index st) \<and> ses_ID s = i" for i s
    using assms by (auto simp: store_inv_def)
  let ?l = "filter (counts_live now user) (List.map_filter (ss_sessions st) (ss_index st))"
  have "distinct (map ses_ID (List.map_filter (ss_sessions st) is))" if "distinct is" for "is"
    using that
  proof (induction "is")
    case (Cons i "is")
    then show ?case using ix
      by (cases "ss_sessions st i") (auto simp: map_filter_mem List.map_filter_simps dest!: ix)
  qed (simp add: List.map_filter_simps)
  then have "distinct (map ses_ID ?l)" using d by (simp add: distinct_map_filter)
  then have "distinct ?l" using distinct_map by blast
  then have "length ?l = card (set ?l)" by (metis distinct_card)
  moreover have "set ?l = {s. Get st (ses_ID s) = Some s \<and> counts_live now user s}"
    using ix by (auto simp: map_filter_mem Get_def)
  moreover have "CountByUser st now user = length ?l"
    by (simp add: CountByUser_def List_sessions_def list_loop_sessions)
  ultimately show ?thesis by simp
qed

lemma List_sessions_inv:
  "store_inv st \<Longrightarrow> store_inv (fst (List_sessions st))" "ss_sessions (fst (List_sessions st)) = ss_sessions st"
  by (simp_all add: List_sessions_def list_loop_inv list_loop_sessions)

lemma finite_sessions: "store_inv st \<Longrightarrow> finite {s. Get st (ses_ID s) = Some s \<and> P s}"
proof -
  assume "store_inv st"
  then have ix: "ses_ID s \<in> set (ss_index st)" if "Get st (ses_ID s) = Some s" for s
    using that unfolding store_inv_def Get_def by blast
  have "{s. Get st (ses_ID s) = Some s \<and> P s} \<subseteq> (\<lambda>i. the (Get st i)) ` set (ss_index st)"
  proof
    fix s assume "s \<in> {s. Get st (ses_ID s) = Some s \<and> P s}"
    then show "s \<in> (\<lambda>i. the (Get st i)) ` set (ss_index st)"
      using ix [of s] by (intro image_eqI [of _ _ "ses_ID s"]) auto
  qed
  then show ?thesis by (rule finite_subset) simp
qed

text \<open>
  C20 (bounds).  With the per-user lock held, a start is refused exactly when the user already has the
  maximum of live sessions, the store's sessions are then unchanged, and a start that is let through
  leaves the user with at most the maximum.
\<close>

theorem CreateWithUserCap_cap:
  assumes "store_inv st" "0 < maxPerUser" "Get st (ses_ID sess) = None"
    "CreateWithUserCap st now LockAcquired sess maxPerUser = (st', r)"
  shows "(r = ErrUserAtCap \<longleftrightarrow> maxPerUser \<le> int (CountByUser st now (ses_UserID sess)))
    \<and> (r = ErrUserAtCap \<longrightarrow> ss_sessions st' = ss_sessions st)
    \<and> (r = Created \<longrightarrow> Get st' (ses_ID sess) = Some sess
         \<and> int (CountByUser st' now (ses_UserID sess)) \<le> maxPerUser)
    \<and> store_inv st' \<and> r \<noteq> ErrContext"
proof -
  let ?u = "ses_UserID sess" and ?l = "fst (List_sessions st)"
  note l = List_sessions_inv [of st]
  show ?thesis
  proof (cases "maxPerUser \<le> int (CountByUser st now ?u)")
    case True
    then show ?thesis using assms l by (auto simp: CreateWithUserCap_def)
  next
    case False
    then have c: "st' = Create ?l sess" "r = Created" using assms by (auto simp: CreateWithUserCap_def)
    have inv: "store_inv st'" using c l(1) [OF assms(1)] Create_inv by blast
    have g: "Get st' i = (if i = ses_ID sess then Some sess else Get st i)" for i
      by (simp add: c Create_def SAdd_def Get_def l(2))
    have "{s. Get st' (ses_ID s) = Some s \<and> counts_live now ?u s}
        \<subseteq> insert sess {s. Get st (ses_ID s) = Some s \<and> counts_live now ?u s}"
      using g by (auto split: if_splits)
    then have "card {s. Get st' (ses_ID s) = Some s \<and> counts_live now ?u s}
        \<le> card (insert sess {s. Get st (ses_ID s) = Some s \<and> counts_live now ?u s})"
      by (intro card_mono) (simp_all add: finite_sessions [OF assms(1)])
    also have "\<dots> \<le> Suc (card {s. Get st (ses_ID s) = Some s \<and> counts_live now ?u s})"
      by (simp add: card_insert_if finite_sessions [OF assms(1)])
    finally have "CountByUser st' now ?u \<le> Suc (CountByUser st now ?u)"
      unfolding CountByUser_card [OF inv] CountByUser_card [OF assms(1)] .
    then show ?thesis using False c inv g by auto
  qed
qed

theorem CreateWithUserCap_cap_witness:
  "snd (CreateWithUserCap two_users 5 LockAcquired (sample_session ''c'' ''ann'') 1) = ErrUserAtCap
   \<and> 1 \<le> int (CountByUser two_users 5 ''ann'')"
proof -
  let ?s = "sample_session ''c'' ''ann''"
  have n: "Get two_users (ses_ID ?s) = None"
    by (simp add: two_users_def Get_def Create_def SAdd_def sample_session_def)
  have r: "snd (CreateWithUserCap two_users 5 LockAcquired ?s 1) = ErrUserAtCap" by code_simp
  have "CreateWithUserCap two_users 5 LockAcquired ?s 1
      = (fst (CreateWithUserCap two_users 5 LockAcquired ?s 1), ErrUserAtCap)"
    using r by (metis prod.collapse)
  from CreateWithUserCap_cap [OF two_users_inv _ n this] r show ?thesis by (simp add: sample_session_def)
qed

section \<open>The optimistic transaction\<close>

text \<open>
  \<open>mutateSession\<close> among concurrent writers.  A writer WATCHes the key and reads the session
  (\<open>tx_watch\<close>); its EXEC (\<open>tx_exec\<close>) writes only if the key has not been written since, and otherwise
  leaves the key alone for the next attempt (\<open>TxFailedErr\<close>).  A key's version counts its writes.
  The log lists the mutations that were committed, oldest first.
\<close>

record txcell =
  tx_val :: "Session option"
  tx_ver :: nat
  tx_held :: "nat \<Rightarrow> (nat \<times> Session) option"
  tx_log :: "(Session \<Rightarrow> Session) list"

definition tx_watch :: "nat \<Rightarrow> txcell \<Rightarrow> txcell" where
  "tx_watch w c = c\<lparr>tx_held := (tx_held c)(w := map_option (\<lambda>s. (tx_ver c, s)) (tx_val c))\<rparr>"

definition tx_exec :: "nat \<Rightarrow> (Session \<Rightarrow> Session option) \<Rightarrow> txcell \<Rightarrow> txcell" where
  "tx_exec w fn c =
    (case tx_held c w of
       None \<Rightarrow> c
     | Some (v, s) \<Rightarrow>
         (case fn s of
            None \<Rightarrow> c\<lparr>tx_held := (tx_held c)(w := None)\<rparr>
          | Some s' \<Rightarrow>
              if v = tx_ver c
              then c\<lparr>tx_val := Some s', tx_ver := Suc (tx_ver c), tx_held := (tx_held c)(w := None),
                     tx_log := tx_log c @ [\<lambda>x. case fn x of Some y \<Rightarrow> y | None \<Rightarrow> x]\<rparr>
              else c\<lparr>tx_held := (tx_held c)(w := None)\<rparr>))"

inductive txstep :: "txcell \<Rightarrow> txcell \<Rightarrow> bool" where
  watch: "txstep c (tx_watch w c)"
| exec: "txstep c (tx_exec w fn c)"

inductive_cases txstepE: "txstep c c'"

definition tx_start :: "Session \<Rightarrow> txcell" where
  "tx_start s0 = \<lparr>tx_val = Some s0, tx_ver = 0, tx_held = (\<lambda>_. None), tx_log = []\<rparr>"

definition tx_inv :: "Session \<Rightarrow> txcell \<Rightarrow> bool" where
  "tx_inv s0 c \<longleftrightarrow> tx_val c = Some (foldl (\<lambda>s f. f s) s0 (tx_log c))
     \<and> (\<forall>w v s. tx_held c w = Some (v, s) \<and> v = tx_ver c \<longrightarrow> tx_val c = Some s)
     \<and> (\<forall>w v s. tx_held c w = Some (v, s) \<longrightarrow> v \<le> tx_ver c) \<and> tx_ver c = length (tx_log c)"

lemma tx_exec_cases:
  "tx_exec w fn c = c \<or> tx_exec w fn c = c\<lparr>tx_held := (tx_held c)(w := None)\<rparr>
   \<or> (\<exists>s s'. tx_held c w = Some (tx_ver c, s) \<and> fn s = Some s'
        \<and> tx_exec w fn c = c\<lparr>tx_val := Some s', tx_ver := Suc (tx_ver c), tx_held := (tx_held c)(w := None),
                     tx_log := tx_log c @ [\<lambda>x. case fn x of Some y \<Rightarrow> y | None \<Rightarrow> x]\<rparr>)"
  by (auto simp: tx_exec_def split: option.splits)

lemma txstep_inv: "tx_inv s0 c \<Longrightarrow> txstep c c' \<Longrightarrow> tx_inv s0 c'"
proof (erule txstepE)
  fix w assume i: "tx_inv s0 c" "c' = tx_watch w c"
  then show "tx_inv s0 c'" by (auto simp: tx_inv_def tx_watch_def split: if_splits) blast
next
  fix w fn assume i: "tx_inv s0 c" "c' = tx_exec w fn c"
  consider "c' = c" | "c' = c\<lparr>tx_held := (tx_held c)(w := None)\<rparr>"
    | s s' where "tx_held c w = Some (tx_ver c, s)" "fn s = Some s'"
        "c' = c\<lparr>tx_val := Some s', tx_ver := Suc (tx_ver c), tx_held := (tx_held c)(w := None),
                     tx_log := tx_log c @ [\<lambda>x. case fn x of Some y \<Rightarrow> y | None \<Rightarrow> x]\<rparr>"
    using tx_exec_cases [of w fn c] i(2) by blast
  then show "tx_inv s0 c'"
  proof cases
    case 1
    then show ?thesis using i(1) by simp
  next
    case 2
    then show ?thesis using i(1) by (auto simp: tx_inv_def split: if_splits) blast
  next
    case 3
    have v: "tx_val c = Some s" "foldl (\<lambda>s f. f s) s0 (tx_log c) = s" "\<And>w v s. tx_held c w = Some (v, s) \<Longrightarrow> v \<le> tx_ver c"
      "tx_ver c = length (tx_log c)"
      using i(1) 3(1) unfolding tx_inv_def by (blast, force, blast, blast)
    have "v \<noteq> Suc (tx_ver c)" if "tx_held c w' = Some (v, s'')" for w' v s'' using v(3) [OF that] by simp
    then show ?thesis using 3 v by (fastforce simp: tx_inv_def split: if_splits)
  qed
qed

text \<open>
  C19 (no lost update).  However any number of writers interleave their reads and commits, the stored
  session is the initial one with every committed mutation applied exactly once, in commit order: a
  commit never discards another writer's update.
\<close>

theorem mutateSession_serial:
  assumes "txstep\<^sup>*\<^sup>* (tx_start s0) c"
  shows "tx_val c = Some (foldl (\<lambda>s f. f s) s0 (tx_log c)) \<and> tx_ver c = length (tx_log c)"
proof -
  have "tx_inv s0 (tx_start s0)" by (simp add: tx_inv_def tx_start_def)
  then have "tx_inv s0 c" using reach_inv [OF assms] txstep_inv by blast
  then show ?thesis by (simp add: tx_inv_def)
qed

text \<open>The race the code describes: a touch that read the session before the worker stamped it.\<close>

theorem mutateSession_serial_witness:
  "map_option ses_WorkerAddr (tx_val (tx_exec 1 (touch_fn 9) (tx_exec 2 (worker_info_fn ''w'' ''host:1'' False False)
      (tx_watch 2 (tx_watch 1 (tx_start (sample_session ''a'' ''ann''))))))) = Some ''host:1''
   \<and> length (tx_log (tx_exec 1 (touch_fn 9) (tx_exec 2 (worker_info_fn ''w'' ''host:1'' False False)
      (tx_watch 2 (tx_watch 1 (tx_start (sample_session ''a'' ''ann''))))))) = 1"
proof -
  let ?c = "tx_exec 1 (touch_fn 9) (tx_exec 2 (worker_info_fn ''w'' ''host:1'' False False)
      (tx_watch 2 (tx_watch 1 (tx_start (sample_session ''a'' ''ann'')))))"
  have "txstep\<^sup>*\<^sup>* (tx_start (sample_session ''a'' ''ann'')) ?c"
    by (meson txstep.watch txstep.exec rtranclp.rtrancl_into_rtrancl rtranclp.rtrancl_refl)
  then have "tx_val ?c = Some (foldl (\<lambda>s f. f s) (sample_session ''a'' ''ann'') (tx_log ?c)) \<and> tx_ver ?c = length (tx_log ?c)"
    by (rule mutateSession_serial)
  moreover have "tx_ver ?c = 1" "map_option ses_WorkerAddr (tx_val ?c) = Some ''host:1''"
    by (simp_all add: tx_exec_def tx_watch_def tx_start_def touch_fn_def worker_info_fn_def)
  ultimately show ?thesis by simp
qed

end
