(* ===== verification/GoText.thy ===== *)
theory GoText
  imports GoFloat
begin

text \<open>
  Line-oriented text, as the playlist, subtitle and protocol code uses it: \<open>strings.Split\<close> and
  \<open>bufio.Scanner\<close> on lines, \<open>strings.TrimRight\<close>, \<open>strings.Contains\<close>, and \<open>strconv.ParseFloat\<close> on
  decimal text.

  \<open>ParseFloat\<close> covers an optional sign, digits with an optional point and an optional decimal exponent;
  the hexadecimal, infinite and not-a-number spellings that Go accepts besides do not occur in the files
  the program reads.
\<close>

abbreviation newline :: char where
  "newline \<equiv> CHR 0x0A"

definition TrimRight :: "char \<Rightarrow> string \<Rightarrow> string" where
  "TrimRight c s = TrimRightBy (\<lambda>x. x = c) s"

text \<open>\<open>bufio.ScanLines\<close>: the lines without their terminators, one carriage return included.\<close>

definition strip_cr :: "string \<Rightarrow> string" where
  "strip_cr l = (if l \<noteq> [] \<and> last l = CHR 0x0D then butlast l else l)"

definition scan_lines :: "string \<Rightarrow> string list" where
  "scan_lines s = (let ls = Split s newline in map strip_cr (if last ls = [] then butlast ls else ls))"

definition pow10 :: "int \<Rightarrow> rat" where
  "pow10 e = (if 0 \<le> e then 10 ^ nat e else 1 / 10 ^ nat (- e))"

definition ParseFloat :: "string \<Rightarrow> rat option" where
  "ParseFloat s =
    (let (neg, s1) = split_sign s;
         ip = takeWhile is_digit s1;
         r1 = dropWhile is_digit s1;
         point = (r1 \<noteq> [] \<and> hd r1 = CHR ''.'');
         fp = (if point then takeWhile is_digit (tl r1) else []);
         r2 = (if point then dropWhile is_digit (tl r1) else r1);
         ex = (if r2 = [] then Some 0
               else if hd r2 \<in> {CHR ''e'', CHR ''E''} then Atoi (tl r2) else None)
     in if ip @ fp = [] then None
        else map_option (\<lambda>e. f64 ((if neg then -1 else 1) * of_int (digits_val (ip @ fp)) * pow10 (e - int (length fp)))) ex)"

section \<open>Joining and splitting\<close>

lemma Split_Join:
  assumes "ls \<noteq> []" "\<forall>l \<in> set ls. c \<notin> set l"
  shows "Split (Join ls [c]) c = ls"
  using assms
proof (induction ls "[c]" rule: Join.induct)
  case (2 w)
  then have "list_all (\<lambda>x. \<not> x = c) w" by (auto simp: list_all_iff)
  then show ?case by (simp add: Split_def SplitBy_plain)
next
  case (3 w v ws)
  then have "list_all (\<lambda>x. \<not> x = c) w" by (auto simp: list_all_iff)
  then show ?case using 3 by (simp add: Split_def SplitBy_sep)
qed simp

lemma Split_lines: "l \<in> set (Split s c) \<Longrightarrow> c \<notin> set l"
  unfolding Split_def
proof (induction s arbitrary: l)
  case (Cons x xs)
  obtain w ws where sp: "SplitBy (\<lambda>x. x = c) xs = w # ws" by (cases "SplitBy (\<lambda>x. x = c) xs") auto
  show ?case using Cons sp by (auto split: if_splits)
qed simp

lemma scan_lines_plain: "l \<in> set (scan_lines s) \<Longrightarrow> newline \<notin> set l"
  using Split_lines [of _ s newline]
  by (auto simp: scan_lines_def strip_cr_def Let_def split: if_splits dest: in_set_butlastD)

lemma Join_snoc: "ls \<noteq> [] \<Longrightarrow> Join (ls @ [l]) sep = Join ls sep @ sep @ l"
  by (induction ls sep rule: Join.induct) auto

lemma Join_append: "ls \<noteq> [] \<Longrightarrow> ms \<noteq> [] \<Longrightarrow> Join (ls @ ms) sep = Join ls sep @ sep @ Join ms sep"
proof (induction ls sep rule: Join.induct)
  case (2 w sep)
  then show ?case by (cases ms) auto
qed auto

lemma TrimRight_snoc: "TrimRight c (s @ [c]) = TrimRight c s"
  by (simp add: TrimRight_def TrimRightBy_def)

lemma TrimRight_id: "s = [] \<or> last s \<noteq> c \<Longrightarrow> TrimRight c s = s"
proof -
  assume a: "s = [] \<or> last s \<noteq> c"
  show ?thesis using a by (cases s rule: rev_cases) (auto simp: TrimRight_def TrimRightBy_def)
qed

lemma Join_last: "ls \<noteq> [] \<Longrightarrow> last ls \<noteq> [] \<Longrightarrow> Join ls sep \<noteq> [] \<and> last (Join ls sep) = last (last ls)"
  by (induction ls sep rule: Join.induct) auto

section \<open>Substrings\<close>

lemma Cut_Some: "Cut s p = Some (a, b) \<Longrightarrow> s = a @ p @ b"
proof (induction s arbitrary: a)
  case (Cons c cs)
  show ?case
  proof (cases "HasPrefix (c # cs) p")
    case True
    then show ?thesis using Cons.prems by (auto simp: HasPrefix_def) (metis append_take_drop_id)
  next
    case False
    then show ?thesis using Cons by auto
  qed
qed (auto split: if_splits)

lemma Cut_None: "Cut s p = None \<Longrightarrow> s \<noteq> u @ p @ v"
proof (induction s arbitrary: u)
  case (Cons c cs)
  show ?case
  proof
    assume s: "c # cs = u @ p @ v"
    have np: "\<not> HasPrefix (c # cs) p" using Cons.prems by (auto split: if_splits)
    then obtain u' where "u = c # u'" using s by (cases u) (auto simp: HasPrefix_def)
    then show False using s Cons np by (auto split: if_splits)
  qed
qed (auto split: if_splits)

lemma Contains_iff: "Contains s p \<longleftrightarrow> (\<exists>u v. s = u @ p @ v)"
proof (cases "Cut s p")
  case None
  then show ?thesis using Cut_None [OF None] by (simp add: Contains_def)
next
  case (Some ab)
  then have "s = fst ab @ p @ snd ab" by (intro Cut_Some) simp
  then show ?thesis using Some by (auto simp: Contains_def)
qed

text \<open>A needle without a newline lies within a line.\<close>

lemma Contains_newline:
  assumes "c \<notin> set p" "p \<noteq> []"
  shows "Contains (a @ c # b) p \<longleftrightarrow> Contains a p \<or> Contains b p"
proof
  assume "Contains (a @ c # b) p"
  then obtain u v where e: "a @ c # b = u @ p @ v" by (auto simp: Contains_iff)
  then consider t where "a = u @ t" "t @ c # b = p @ v" | t where "u = a @ c # t" "b = t @ p @ v" | "u = a" "c # b = p @ v"
    by (auto simp: append_eq_append_conv2 append_eq_Cons_conv Cons_eq_append_conv)
  then show "Contains a p \<or> Contains b p"
  proof cases
    case 1
    then obtain w where "t = p @ w"
      using assms by (auto simp: append_eq_append_conv2 Cons_eq_append_conv)
    then show ?thesis using 1 by (auto simp: Contains_iff)
  next
    case 3
    then show ?thesis using assms by (auto simp: Cons_eq_append_conv)
  qed (auto simp: Contains_iff)
next
  assume "Contains a p \<or> Contains b p"
  then show "Contains (a @ c # b) p"
    by (auto simp: Contains_iff) (metis append.assoc append_Cons)+
qed

lemma Contains_Join:
  assumes "c \<notin> set p" "p \<noteq> []"
  shows "Contains (Join ls [c]) p \<longleftrightarrow> (\<exists>l \<in> set ls. Contains l p)"
proof (induction ls "[c]" rule: Join.induct)
  case 1
  then show ?case using assms(2) by (auto simp: Contains_iff)
next
  case (3 w v ws)
  then show ?case using Contains_newline [OF assms, of w "Join (v # ws) [c]"] by simp
qed simp

end
