(* ===== verification/FFSafe.thy ===== *)
theory FFSafe
  imports GoText
begin

text \<open>
  What ffmpeg may open (\<open>internal/ffsafe/ffsafe.go\<close>): the protocol allowlist of an input and the concat
  lists the server writes for stacked movies and commercial cuts.  Seconds are \<open>float64\<close> values.
\<close>

definition localProtocols :: string where
  "localProtocols = ''file,pipe,crypto,data,subfile''"

definition networkProtocols :: string where
  "networkProtocols = localProtocols @ '',http,https,tcp,tls''"

definition IsHTTPURL :: "string \<Rightarrow> bool" where
  "IsHTTPURL input \<longleftrightarrow> HasPrefix input ''http://'' \<or> HasPrefix input ''https://''"

definition Whitelist :: "string \<Rightarrow> string" where
  "Whitelist input = (if IsHTTPURL input then networkProtocols else localProtocols)"

definition InputProtocolArgs :: "string \<Rightarrow> string list" where
  "InputProtocolArgs input = [''-protocol_whitelist'', if IsHTTPURL input then networkProtocols else localProtocols]"

section \<open>Concat lists\<close>

record ConcatPart =
  cp_Input :: string
  cp_DurationSec :: rat
  cp_InPointSec :: rat
  cp_OutPointSec :: rat

datatype ConcatError = EmptyList | BadEntry nat | NotAPath nat | MixedList

definition is_letter :: "char \<Rightarrow> bool" where
  "is_letter c \<longleftrightarrow> (let n = of_char c :: nat in (65 \<le> n \<and> n \<le> 90) \<or> (97 \<le> n \<and> n \<le> 122))"

definition isAbsLocalPath :: "string \<Rightarrow> bool" where
  "isAbsLocalPath s \<longleftrightarrow> HasPrefix s ''/'' \<or> HasPrefix s [CHR 0x5C, CHR 0x5C]
     \<or> (3 \<le> length s \<and> s ! 1 = CHR '':'' \<and> (s ! 2 = CHR 0x5C \<or> s ! 2 = CHR ''/'') \<and> is_letter (s ! 0))"

fun check_from :: "nat \<Rightarrow> bool \<Rightarrow> ConcatPart list \<Rightarrow> ConcatError + bool" where
  "check_from i network [] = Inr network"
| "check_from i network (p # ps) =
    (let isURL = IsHTTPURL (cp_Input p) in
     if cp_Input p = [] \<or> list_ex (\<lambda>c. c \<in> {CHR 0x0D, CHR 0x0A, CHR 0x00}) (cp_Input p) then Inl (BadEntry i)
     else if \<not> isURL \<and> \<not> isAbsLocalPath (cp_Input p) then Inl (NotAPath i)
     else if i = 0 then check_from (Suc i) isURL ps
     else if isURL \<noteq> network then Inl MixedList
     else check_from (Suc i) network ps)"

definition checkConcatParts :: "ConcatPart list \<Rightarrow> ConcatError + bool" where
  "checkConcatParts parts = (if parts = [] then Inl EmptyList else check_from 0 False parts)"

definition ConcatInputArgs :: "ConcatPart list \<Rightarrow> string list" where
  "ConcatInputArgs parts =
    (case checkConcatParts parts of
       Inl _ \<Rightarrow> [''-f'', ''concat'', ''-protocol_whitelist'', localProtocols]
     | Inr network \<Rightarrow> [''-f'', ''concat'', ''-safe'', ''0'', ''-protocol_whitelist'',
         if network then networkProtocols else localProtocols])"

text \<open>\<open>strconv.FormatFloat(x, 'f', 3, 64)\<close> of a non-negative value: three decimals, correctly rounded.\<close>

definition FormatFloat3 :: "rat \<Rightarrow> string" where
  "FormatFloat3 x = (let n = rnd_even (x * 1000) in Itoa (n div 1000) @ ''.'' @ pad0 3 (n mod 1000))"

definition quote_char :: char where
  "quote_char = CHR 0x27"

text \<open>\<open>strings.ReplaceAll\<close> of the quote by quote, backslash, quote, quote.\<close>

definition escape_quotes :: "string \<Rightarrow> string" where
  "escape_quotes s = concat (map (\<lambda>c. if c = quote_char then [quote_char, CHR 0x5C, quote_char, quote_char] else [c]) s)"

definition part_lines :: "ConcatPart \<Rightarrow> string list" where
  "part_lines p =
     [''file '' @ [quote_char] @ escape_quotes (cp_Input p) @ [quote_char]]
     @ (if cp_DurationSec p > 0 then [''duration '' @ FormatFloat3 (cp_DurationSec p)] else [])
     @ (if cp_InPointSec p > 0 then [''inpoint '' @ FormatFloat3 (cp_InPointSec p)] else [])
     @ (if cp_OutPointSec p > 0 then [''outpoint '' @ FormatFloat3 (cp_OutPointSec p)] else [])"

definition WriteConcatList :: "ConcatPart list \<Rightarrow> ConcatError + string" where
  "WriteConcatList parts = (case checkConcatParts parts of Inl e \<Rightarrow> Inl e
     | Inr _ \<Rightarrow> Inr (concat (map (\<lambda>l. l @ [newline]) (''ffconcat version 1.0'' # concat (map part_lines parts)))))"

section \<open>Reading the list back\<close>

text \<open>
  The quoting rules ffmpeg documents for such scripts (ffmpeg-utils, quoting and escaping): between single
  quotes every character stands for itself, outside a backslash makes the next character literal, white
  space ends the word.  A directive is a line of its own.
\<close>

fun unquote :: "bool \<Rightarrow> string \<Rightarrow> string" where
  "unquote inq [] = []"
| "unquote True (c # cs) = (if c = CHR 0x27 then unquote False cs else c # unquote True cs)"
| "unquote False (c # cs) =
    (if c = CHR 0x27 then unquote True cs
     else if is_space c then []
     else if c = CHR 0x5C then (case cs of [] \<Rightarrow> [] | d # ds \<Rightarrow> d # unquote False ds)
     else c # unquote False cs)"

definition read_files :: "string \<Rightarrow> string list" where
  "read_files script = map (\<lambda>l. unquote False (drop 5 l)) (filter (\<lambda>l. HasPrefix l ''file '') (Split script newline))"

lemma unquote_escaped: "unquote True (escape_quotes s @ quote_char # r) = s @ unquote False r"
  by (induction s) (auto simp: escape_quotes_def quote_char_def is_space_def)

lemma unquote_part: "unquote False (drop 5 (''file '' @ [quote_char] @ escape_quotes s @ [quote_char])) = s"
  using unquote_escaped [of s "[]"] by (simp add: quote_char_def)

lemma check_from_ok:
  assumes "check_from i network ps = Inr n" "i \<noteq> 0"
  shows "n = network \<and> list_all (\<lambda>p. cp_Input p \<noteq> [] \<and> newline \<notin> set (cp_Input p) \<and> IsHTTPURL (cp_Input p) = network
    \<and> (IsHTTPURL (cp_Input p) \<or> isAbsLocalPath (cp_Input p))) ps"
  using assms
proof (induction ps arbitrary: i)
  case (Cons p ps)
  then show ?case by (auto simp: Let_def list_ex_iff split: if_splits)
qed simp

lemma checkConcatParts_ok:
  assumes "checkConcatParts parts = Inr network"
  shows "parts \<noteq> [] \<and> list_all (\<lambda>p. cp_Input p \<noteq> [] \<and> newline \<notin> set (cp_Input p) \<and> IsHTTPURL (cp_Input p) = network
    \<and> (IsHTTPURL (cp_Input p) \<or> isAbsLocalPath (cp_Input p))) parts"
proof (cases parts)
  case (Cons p ps)
  then have c: "check_from 0 False (p # ps) = Inr network" using assms by (simp add: checkConcatParts_def)
  then have "check_from (Suc 0) (IsHTTPURL (cp_Input p)) ps = Inr network" by (auto simp: Let_def split: if_splits)
  from check_from_ok [OF this] show ?thesis using c Cons by (auto simp: Let_def list_ex_iff split: if_splits)
qed (use assms in \<open>simp add: checkConcatParts_def\<close>)

text \<open>Conversely, clean inputs of one kind are never refused.\<close>

definition clean_input :: "bool \<Rightarrow> string \<Rightarrow> bool" where
  "clean_input network s \<longleftrightarrow> s \<noteq> [] \<and> \<not> list_ex (\<lambda>c. c \<in> {CHR 0x0D, CHR 0x0A, CHR 0x00}) s
     \<and> IsHTTPURL s = network \<and> (network \<or> isAbsLocalPath s)"

lemma check_from_clean: "list_all (clean_input network \<circ> cp_Input) ps \<Longrightarrow> check_from i network ps = Inr network"
  by (induction ps arbitrary: i) (auto simp: clean_input_def Let_def)

lemma checkConcatParts_clean:
  assumes "parts \<noteq> []" "list_all (clean_input network \<circ> cp_Input) parts"
  shows "checkConcatParts parts = Inr network"
proof (cases parts)
  case (Cons p ps)
  then show ?thesis using assms check_from_clean [of network ps "Suc 0"]
    by (simp add: checkConcatParts_def) (auto simp: clean_input_def Let_def)
qed (use assms in simp)

text \<open>No directive but the path itself can hold a line break.\<close>

lemma digits_plain: "list_all is_digit s \<Longrightarrow> newline \<notin> set s"
  by (auto simp: list_all_iff is_digit_def)

lemma Itoa_plain: "newline \<notin> set (Itoa n)"
  using digits_plain [OF dec_digits_all, of n] digits_plain [OF dec_digits_all, of "- n"] by (auto simp: Itoa_def)

lemma FormatFloat3_plain: "newline \<notin> set (FormatFloat3 x)"
  using Itoa_plain by (auto simp: FormatFloat3_def pad0_def Let_def)

lemma escape_set: "set (escape_quotes s) \<subseteq> set s \<union> {quote_char, CHR 0x5C}"
  by (auto simp: escape_quotes_def split: if_splits)

lemma part_lines_plain: "newline \<notin> set (cp_Input p) \<Longrightarrow> \<forall>l \<in> set (part_lines p). newline \<notin> set l"
  using FormatFloat3_plain escape_set [of "cp_Input p"] by (auto simp: part_lines_def quote_char_def)

lemma part_lines_files: "map (\<lambda>l. unquote False (drop 5 l)) (filter (\<lambda>l. HasPrefix l ''file '') (part_lines p)) = [cp_Input p]"
proof -
  have "HasPrefix (''file '' @ r) ''file ''" "\<not> HasPrefix (''duration '' @ r) ''file ''" "\<not> HasPrefix (''inpoint '' @ r) ''file ''"
    "\<not> HasPrefix (''outpoint '' @ r) ''file ''" for r
    by (simp_all add: HasPrefix_def)
  then show ?thesis using unquote_part [of "cp_Input p"] by (simp add: part_lines_def)
qed

lemma Split_script: "\<forall>l \<in> set ls. newline \<notin> set l \<Longrightarrow> Split (concat (map (\<lambda>l. l @ [newline]) ls)) newline = ls @ [[]]"
proof (induction ls)
  case (Cons l ls)
  then have "list_all (\<lambda>c. \<not> c = newline) l" by (auto simp: list_all_iff)
  then show ?case using Cons by (simp add: Split_def SplitBy_sep)
qed (simp add: Split_def)

lemma read_files_written:
  assumes "checkConcatParts parts = Inr network"
  shows "read_files (concat (map (\<lambda>l. l @ [newline]) (''ffconcat version 1.0'' # concat (map part_lines parts)))) = map cp_Input parts"
proof -
  let ?ls = "''ffconcat version 1.0'' # concat (map part_lines parts)"
  have "\<forall>l \<in> set ?ls. newline \<notin> set l"
    using checkConcatParts_ok [OF assms] part_lines_plain by (auto simp: list_all_iff)
  then have "Split (concat (map (\<lambda>l. l @ [newline]) ?ls)) newline = ?ls @ [[]]" by (rule Split_script)
  moreover have "\<not> HasPrefix ''ffconcat version 1.0'' ''file ''" "\<not> HasPrefix [] ''file ''" by (simp_all add: HasPrefix_def)
  moreover have "map (\<lambda>l. unquote False (drop 5 l)) (filter (\<lambda>l. HasPrefix l ''file '') (concat (map part_lines ps))) = map cp_Input ps" for ps
    by (induction ps) (simp_all add: part_lines_files)
  ultimately show ?thesis
    unfolding read_files_def by (simp only: filter.simps filter_append map_append append_Cons if_False) simp
qed

text \<open>
  C36 (round trip).  A list that is written names exactly the given inputs, in order, whatever quotes,
  spaces or backslashes they hold: every one an absolute path, or every one an http(s) URL, and only then
  may ffmpeg use the network.  A list that is refused is never opened outside safe mode.
\<close>

theorem concat_list_roundtrip:
  "case WriteConcatList parts of
     Inr script \<Rightarrow> read_files script = map cp_Input parts \<and> parts \<noteq> []
       \<and> (list_all (IsHTTPURL \<circ> cp_Input) parts \<and> ConcatInputArgs parts = [''-f'', ''concat'', ''-safe'', ''0'', ''-protocol_whitelist'', networkProtocols]
        \<or> list_all (isAbsLocalPath \<circ> cp_Input) parts \<and> ConcatInputArgs parts = [''-f'', ''concat'', ''-safe'', ''0'', ''-protocol_whitelist'', localProtocols])
   | Inl _ \<Rightarrow> ''-safe'' \<notin> set (ConcatInputArgs parts) \<and> networkProtocols \<notin> set (ConcatInputArgs parts)"
proof (cases "checkConcatParts parts")
  case (Inl e)
  then show ?thesis by (simp add: WriteConcatList_def ConcatInputArgs_def localProtocols_def networkProtocols_def)
next
  case (Inr network)
  have ok: "parts \<noteq> []" "list_all (\<lambda>p. cp_Input p \<noteq> [] \<and> newline \<notin> set (cp_Input p) \<and> IsHTTPURL (cp_Input p) = network
    \<and> (IsHTTPURL (cp_Input p) \<or> isAbsLocalPath (cp_Input p))) parts"
    using checkConcatParts_ok [OF Inr] by simp_all
  then show ?thesis using Inr ok read_files_written [OF Inr] by (cases network) (auto simp: WriteConcatList_def ConcatInputArgs_def list_all_iff)
qed

end
