(* ===== verification/Worker.thy ===== *)
theory Worker
  imports Dispatch Sessions FFSafe
begin

text \<open>
  The transcode worker (\<open>internal/transcode/worker.go\<close>, \<open>parts.go\<close>): its session slots and load
  accounting under concurrent reservations, the watchdog's verdict on a running encode, the
  directory of each incarnation of a session, segment numbering, the features it advertises, the
  parsing of ffprobe's answers and the inputs of a stacked movie.
\<close>

section \<open>Slots\<close>

text \<open>
  The worker's two atomic counters and its limit.  \<open>sl_waiting\<close> holds between the job loop's check of
  the limit and the arrival of a job: the loop blocks in \<open>DequeueJob\<close> there without holding a slot.
  \<open>sl_running\<close> and \<open>sl_reserved\<close> list the costs of the jobs and of the reservations that are open.
\<close>

record Slots =
  sl_max :: int
  sl_active :: int
  sl_cost :: int
  sl_waiting :: bool
  sl_running :: "int list"
  sl_reserved :: "int list"

definition SetMaxSessions :: "int \<Rightarrow> Slots \<Rightarrow> Slots" where
  "SetMaxSessions n s = (if n > 0 then s\<lparr>sl_max := n\<rparr> else s)"

definition TryReserveSlot :: "int \<Rightarrow> Slots \<Rightarrow> Slots \<times> bool" where
  "TryReserveSlot cost s =
    (if sl_active s \<ge> sl_max s then (s, False)
     else (s\<lparr>sl_active := sl_active s + 1, sl_cost := sl_cost s + cost, sl_reserved := cost # sl_reserved s\<rparr>, True))"

text \<open>The release function of a reservation; \<open>sync.Once\<close> makes a second call do nothing.\<close>

definition release_slot :: "int \<Rightarrow> Slots \<Rightarrow> Slots" where
  "release_slot cost s =
    (if cost \<in> set (sl_reserved s)
     then s\<lparr>sl_active := sl_active s - 1, sl_cost := sl_cost s - cost, sl_reserved := remove1 cost (sl_reserved s)\<rparr>
     else s)"

text \<open>The job loop: the check, an empty dequeue, a job, and the end of a job.\<close>

definition loop_check :: "Slots \<Rightarrow> Slots" where
  "loop_check s = (if sl_active s \<ge> sl_max s then s else s\<lparr>sl_waiting := True\<rparr>)"

definition loop_timeout :: "Slots \<Rightarrow> Slots" where
  "loop_timeout s = s\<lparr>sl_waiting := False\<rparr>"

definition loop_take :: "int \<Rightarrow> Slots \<Rightarrow> Slots" where
  "loop_take cost s =
    (if sl_waiting s
     then s\<lparr>sl_waiting := False, sl_active := sl_active s + 1, sl_cost := sl_cost s + cost,
            sl_running := cost # sl_running s\<rparr>
     else s)"

definition job_done :: "int \<Rightarrow> Slots \<Rightarrow> Slots" where
  "job_done cost s =
    (if cost \<in> set (sl_running s)
     then s\<lparr>sl_active := sl_active s - 1, sl_cost := sl_cost s - cost, sl_running := remove1 cost (sl_running s)\<rparr>
     else s)"

text \<open>The worker's goroutines interleave; \<open>n\<close> bounds every limit that is ever set.\<close>

inductive wstep :: "int \<Rightarrow> Slots \<Rightarrow> Slots \<Rightarrow> bool" for n where
  set_max: "m \<le> n \<Longrightarrow> wstep n s (SetMaxSessions m s)"
| reserve: "wstep n s (fst (TryReserveSlot c s))"
| release: "wstep n s (release_slot c s)"
| check: "wstep n s (loop_check s)"
| timeout: "wstep n s (loop_timeout s)"
| take_job: "wstep n s (loop_take c s)"
| finish: "wstep n s (job_done c s)"

inductive_cases wstepE: "wstep n s s'"

definition idle_slots :: "int \<Rightarrow> Slots" where
  "idle_slots n = \<lparr>sl_max = n, sl_active = 0, sl_cost = 0, sl_waiting = False, sl_running = [], sl_reserved = []\<rparr>"

definition slots_inv :: "int \<Rightarrow> Slots \<Rightarrow> bool" where
  "slots_inv n s \<longleftrightarrow> 0 < sl_max s \<and> sl_max s \<le> n
     \<and> sl_active s = int (length (sl_running s)) + int (length (sl_reserved s))
     \<and> sl_cost s = sum_list (sl_running s) + sum_list (sl_reserved s)
     \<and> sl_active s \<le> n + 1 \<and> (sl_waiting s \<longrightarrow> sl_active s \<le> n)"

lemmas slot_ops = SetMaxSessions_def TryReserveSlot_def release_slot_def loop_check_def loop_timeout_def
  loop_take_def job_done_def

lemma remove1_account:
  "c \<in> set xs \<Longrightarrow> int (length (remove1 c xs)) = int (length xs) - 1"
  "c \<in> set xs \<Longrightarrow> sum_list (remove1 c xs) = sum_list xs - (c :: int)"
proof -
  assume c: "c \<in> set xs"
  then have "0 < length xs" by (cases xs) auto
  then show "int (length (remove1 c xs)) = int (length xs) - 1" using c by (simp add: length_remove1 of_nat_diff Suc_leI)
  show "sum_list (remove1 c xs) = sum_list xs - c" using c by (induction xs) auto
qed

lemma wstep_inv: "slots_inv n s \<Longrightarrow> wstep n s s' \<Longrightarrow> slots_inv n s'"
  by (erule wstepE) (auto simp: slots_inv_def slot_ops remove1_account)

text \<open>
  However the job loop, reservations, releases and changes of the
  limit interleave, the worker's counters equal the number and the summed cost of the encodes that are
  open, and never more than one encode over the highest limit ever set runs.
\<close>

theorem worker_slots:
  assumes "(wstep n)\<^sup>*\<^sup>* (idle_slots m) s" "0 < m" "m \<le> n"
  shows "sl_active s = int (length (sl_running s)) + int (length (sl_reserved s))
    \<and> sl_cost s = sum_list (sl_running s) + sum_list (sl_reserved s)
    \<and> 0 \<le> sl_active s \<and> sl_active s \<le> n + 1"
proof -
  have "slots_inv n (idle_slots m)" using assms(2,3) by (simp add: slots_inv_def idle_slots_def)
  then have "slots_inv n s" using reach_inv [OF assms(1)] wstep_inv by blast
  then show ?thesis by (simp add: slots_inv_def)
qed

text \<open>
  The bound is tight: a reservation made while the job loop waits for a job leaves the loop's own slot
  already gone when the job arrives.
\<close>

theorem worker_slots_witness:
  "sl_active (loop_take 100 (fst (TryReserveSlot 50 (loop_check (idle_slots 1))))) = 2
   \<and> sl_active (loop_take 100 (fst (TryReserveSlot 50 (loop_check (idle_slots 1))))) \<le> 1 + 1"
proof -
  have "(wstep 1)\<^sup>*\<^sup>* (idle_slots 1) (loop_take 100 (fst (TryReserveSlot 50 (loop_check (idle_slots 1)))))"
    by (meson wstep.check wstep.reserve wstep.take_job rtranclp.rtrancl_into_rtrancl rtranclp.rtrancl_refl)
  from worker_slots [OF this] show ?thesis by (simp add: slot_ops idle_slots_def)
qed

section \<open>The watchdog\<close>

datatype watchdogDecision = watchdogKeep | watchdogStoreError | watchdogGone | watchdogSuperseded | watchdogIdle

datatype GetError = ErrNotFound | ErrOther

definition idleKillThreshold :: int where
  "idleKillThreshold = 60 * 1000000000"

definition watchdogVerdict :: "GetError + Session \<Rightarrow> int \<Rightarrow> int \<Rightarrow> watchdogDecision" where
  "watchdogVerdict got jobIncarnation now =
    (case got of
       Inl ErrNotFound \<Rightarrow> watchdogGone
     | Inl ErrOther \<Rightarrow> watchdogStoreError
     | Inr sess \<Rightarrow>
         if ses_Incarnation sess \<noteq> jobIncarnation then watchdogSuperseded
         else (case (if ses_LastActivityAt sess = None then ses_CreatedAt sess else ses_LastActivityAt sess) of
                 Some anchor \<Rightarrow> if now - anchor > idleKillThreshold then watchdogIdle else watchdogKeep
               | None \<Rightarrow> watchdogKeep))"

text \<open>Fetching a segment keeps the session's own encode alive for the next minute.\<close>

lemma watchdog_after_touch:
  assumes "ss_sessions st i = Some s" "ses_Incarnation s = inc" "now \<le> t + idleKillThreshold"
    "Get (TouchActivity st t i) i = Some s'"
  shows "watchdogVerdict (Inr s') inc now = watchdogKeep"
  using assms by (auto simp: Get_def TouchActivity_def mutateSession_def touch_fn_def watchdogVerdict_def)

section \<open>Session directories and segments\<close>

definition SessionDirName :: "string \<Rightarrow> int \<Rightarrow> string" where
  "SessionDirName sessionID incarnation =
    (if incarnation \<le> 0 then sessionID else sessionID @ ''-i'' @ Itoa incarnation)"

definition Session_DirName :: "Session \<Rightarrow> string" where
  "Session_DirName s = SessionDirName (ses_ID s) (ses_Incarnation s)"

lemma Itoa_inj: "0 \<le> a \<Longrightarrow> 0 \<le> b \<Longrightarrow> Itoa a = Itoa b \<Longrightarrow> a = b"
  using dec_digits_val by (metis Itoa_def not_less)

text \<open>
  Two incarnations write to the same directory only if they are the same incarnation
  of the same session: with ids of one length (the store's are UUIDs) no directory is shared.
\<close>

theorem SessionDirName_inj:
  assumes "length a = length b" "SessionDirName a i = SessionDirName b j"
  shows "a = b \<and> max 0 i = max 0 j"
proof -
  have n: "SessionDirName x k = x @ (if k \<le> 0 then [] else ''-i'' @ Itoa k)" for x k
    by (simp add: SessionDirName_def)
  have e: "a = b" "(if i \<le> 0 then [] else ''-i'' @ Itoa i) = (if j \<le> 0 then [] else ''-i'' @ Itoa j)"
    using assms unfolding n by auto
  then have "0 < i \<Longrightarrow> 0 < j \<Longrightarrow> i = j" using Itoa_inj [of i j] by auto
  then show ?thesis using e by (auto split: if_splits)
qed

theorem SessionDirName_inj_witness:
  "SessionDirName ''0b1c'' 2 = ''0b1c-i2'' \<and> SessionDirName ''0b1c'' 2 \<noteq> SessionDirName ''0b1c'' 1"
proof -
  have "SessionDirName ''0b1c'' 2 = ''0b1c-i2''" by code_simp
  moreover have "SessionDirName ''0b1c'' 2 \<noteq> SessionDirName ''0b1c'' 1"
    using SessionDirName_inj [of "''0b1c''" "''0b1c''" 2 1] by auto
  ultimately show ?thesis by simp
qed

definition TrimPrefix :: "string \<Rightarrow> string \<Rightarrow> string" where
  "TrimPrefix s p = (if HasPrefix s p then drop (length p) s else s)"

definition TrimSuffix :: "string \<Rightarrow> string \<Rightarrow> string" where
  "TrimSuffix s p = (if HasSuffix s p then take (length s - length p) s else s)"

definition segment_index :: "string \<Rightarrow> string \<Rightarrow> int option" where
  "segment_index ext n =
    (if \<not> HasPrefix n ''seg'' \<or> \<not> HasSuffix n ext then None
     else Atoi (TrimSuffix (TrimPrefix n ''seg'') ext))"

fun max_scan :: "int \<Rightarrow> int list \<Rightarrow> int" where
  "max_scan hi [] = hi"
| "max_scan hi (i # is) = max_scan (if i > hi then i else hi) is"

text \<open>The directory's entries, \<^const>\<open>None\<close> when it cannot be read.\<close>

definition HighestSegmentIndex :: "string list option \<Rightarrow> string \<Rightarrow> int" where
  "HighestSegmentIndex entries ext =
    (case entries of None \<Rightarrow> -1 | Some names \<Rightarrow> max_scan (-1) (List.map_filter (segment_index ext) names))"

interpretation hs: scan_best "\<lambda>i :: int. i" max_scan
  by unfold_locales simp_all

lemma HighestSegmentIndex_max:
  "n \<in> set names \<Longrightarrow> segment_index ext n = Some i \<Longrightarrow> i \<le> HighestSegmentIndex (Some names) ext"
  "HighestSegmentIndex (Some names) ext = -1
   \<or> (\<exists>n \<in> set names. segment_index ext n = Some (HighestSegmentIndex (Some names) ext))"
proof -
  let ?is = "List.map_filter (segment_index ext) names"
  show "n \<in> set names \<Longrightarrow> segment_index ext n = Some i \<Longrightarrow> i \<le> HighestSegmentIndex (Some names) ext"
    using hs.pick_ge [of i "-1" ?is] by (auto simp: HighestSegmentIndex_def map_filter_mem)
  show "HighestSegmentIndex (Some names) ext = -1
   \<or> (\<exists>n \<in> set names. segment_index ext n = Some (HighestSegmentIndex (Some names) ext))"
    using hs.pick_in [of "-1" ?is] by (auto simp: HighestSegmentIndex_def map_filter_mem)
qed

section \<open>Features\<close>

definition canTonemapDV5 :: "bool \<Rightarrow> bool \<Rightarrow> Encoder list \<Rightarrow> bool" where
  "canTonemapDV5 dvTonemapCuda cudaTonemap encoders \<longleftrightarrow>
     dvTonemapCuda \<and> cudaTonemap \<and> list_ex IsNVENCEncoder encoders"

definition worker_features :: "bool \<Rightarrow> bool \<Rightarrow> bool \<Rightarrow> Encoder list \<Rightarrow> string list" where
  "worker_features dvConvert dvTonemapCuda cudaTonemap encoders =
     workerFeatures @ (if dvConvert then [''dolby_vision_p7_to_p81''] else [])
     @ (if canTonemapDV5 dvTonemapCuda cudaTonemap encoders then [''dolby_vision_p5_tonemap''] else [])"

section \<open>ffprobe's answer\<close>

record sourceProbe =
  sp_rotationDeg :: int
  sp_bitrateKbps :: int
  sp_paramSetsInBand :: bool

definition probe_line :: "sourceProbe \<Rightarrow> string \<Rightarrow> sourceProbe" where
  "probe_line p line0 =
    (case Cut (TrimSpace line0) ''='' of
       None \<Rightarrow> p
     | Some (key, rest) \<Rightarrow>
         (let v = TrimSpace rest in
          if key \<in> {''rotation'', ''rotate''} then
            (case Atoi v of
               Some deg \<Rightarrow> (let d = go_mod (go_mod deg 360 + 360) 360 in
                 if d \<noteq> 0 \<and> sp_rotationDeg p = 0 then p\<lparr>sp_rotationDeg := d\<rparr> else p)
             | None \<Rightarrow> p)
          else if key = ''bit_rate'' then
            (case Atoi v of
               Some bps \<Rightarrow> if bps > 0 then p\<lparr>sp_bitrateKbps := bps div 1000\<rparr> else p
             | None \<Rightarrow> p)
          else if key = ''extradata_size'' then
            (case Atoi v of Some n \<Rightarrow> p\<lparr>sp_paramSetsInBand := (n > 0 \<and> n \<le> 23)\<rparr> | None \<Rightarrow> p)
          else p))"

definition parseSourceProbe :: "string \<Rightarrow> sourceProbe" where
  "parseSourceProbe out =
     foldl probe_line \<lparr>sp_rotationDeg = 0, sp_bitrateKbps = 0, sp_paramSetsInBand = False\<rparr> (Split out (CHR 0x0A))"

lemma go_mod_range: "0 \<le> go_mod (go_mod d 360 + 360) 360 \<and> go_mod (go_mod d 360 + 360) 360 < 360"
proof -
  have "-360 < go_mod d 360"
  proof (cases "0 \<le> d")
    case True
    then show ?thesis by (simp add: go_mod_nonneg)
  next
    case False
    then have "go_mod d 360 = - ((- d) mod 360)"
      by (simp add: go_mod_def go_div_def sgn_if minus_mult_div_eq_mod [symmetric])
    then show ?thesis using pos_mod_bound [of 360 "- d"] by simp
  qed
  then have "0 \<le> go_mod d 360 + 360" by simp
  then show ?thesis by (simp add: go_mod_nonneg)
qed

lemma probe_line_rotation:
  "0 \<le> sp_rotationDeg p \<and> sp_rotationDeg p < 360 \<Longrightarrow>
   0 \<le> sp_rotationDeg (probe_line p line) \<and> sp_rotationDeg (probe_line p line) < 360"
  using go_mod_range by (auto simp: probe_line_def Let_def split: option.splits)

lemma parseSourceProbe_rotation:
  "0 \<le> sp_rotationDeg (parseSourceProbe out) \<and> sp_rotationDeg (parseSourceProbe out) < 360"
  unfolding parseSourceProbe_def by (rule foldl_inv) (simp, rule probe_line_rotation)

section \<open>Stacked movies\<close>

definition PartsDurationSec :: "SourcePart list \<Rightarrow> rat" where
  "PartsDurationSec parts =
    (if list_ex (\<lambda>p. pt_DurationMS p \<le> 0) parts then 0
     else fdiv (of_int (sum_list (map pt_DurationMS parts))) 1000)"

definition resolvePartInputs ::
  "SourcePart list \<Rightarrow> (string \<Rightarrow> bool) \<Rightarrow> (ConcatPart list \<times> bool) option" where
  "resolvePartInputs parts reachable =
    (let allLocal = list_all (\<lambda>p. reachable (pt_FilePath p)) parts;
         allURL = list_all (\<lambda>p. pt_SourceURL p \<noteq> []) parts
     in if \<not> allLocal \<and> \<not> allURL then None
        else Some (map (\<lambda>p. \<lparr>cp_Input = (if allLocal then pt_FilePath p else pt_SourceURL p),
                              cp_DurationSec = fdiv (of_int (pt_DurationMS p)) 1000, cp_InPointSec = 0, cp_OutPointSec = 0\<rparr>) parts, \<not> allLocal))"

text \<open>The inputs are every local path or every URL, in order, never a mix.\<close>

lemma resolvePartInputs_unmixed:
  "resolvePartInputs parts reachable = Some (es, remote) \<Longrightarrow>
   map cp_Input es = map (if remote then pt_SourceURL else pt_FilePath) parts
   \<and> (\<forall>p \<in> set parts. if remote then pt_SourceURL p \<noteq> [] else reachable (pt_FilePath p))"
  by (auto simp: resolvePartInputs_def Let_def list_all_iff split: if_splits)

end
