(* ===== verification/Valkey.thy ===== *)
theory Valkey
  imports OSPrelude
begin

text \<open>
  The Valkey client (\<open>internal/valkey/client.go\<close>) as far as locks and guards use it: values under
  keys with an expiry, \<open>SET NX\<close>, \<open>SET\<close>, and the two compare scripts.  Times are milliseconds of one
  clock; a key is visible strictly before its expiry.  Values are kept as they are, not as the text
  the wire carries.

  The interface the lock clients rely on is the locale \<open>lease_store\<close>; the model of the commands is
  shown to provide it.
\<close>

section \<open>Keys with an expiry\<close>

type_synonym 'v kvs = "string \<Rightarrow> ('v \<times> int) option"

definition kv_get :: "'v kvs \<Rightarrow> int \<Rightarrow> string \<Rightarrow> 'v option" where
  "kv_get m t k = (case m k of None \<Rightarrow> None | Some (v, e) \<Rightarrow> if t < e then Some v else None)"

definition kv_set :: "int \<Rightarrow> string \<Rightarrow> 'v \<Rightarrow> int \<Rightarrow> 'v kvs \<Rightarrow> 'v kvs" where
  "kv_set now k v ttl m = m(k \<mapsto> (v, now + ttl))"

definition SetNX :: "int \<Rightarrow> string \<Rightarrow> 'v \<Rightarrow> int \<Rightarrow> 'v kvs \<Rightarrow> 'v kvs \<times> bool" where
  "SetNX now k v ttl m = (if kv_get m now k = None then (kv_set now k v ttl m, True) else (m, False))"

definition CompareAndDelete :: "int \<Rightarrow> string \<Rightarrow> 'v \<Rightarrow> 'v kvs \<Rightarrow> 'v kvs \<times> bool" where
  "CompareAndDelete now k expected m =
    (if kv_get m now k = Some expected then (m(k := None), True) else (m, False))"

definition CompareAndExpire :: "int \<Rightarrow> string \<Rightarrow> 'v \<Rightarrow> int \<Rightarrow> 'v kvs \<Rightarrow> 'v kvs \<times> bool" where
  "CompareAndExpire now k expected ttl m =
    (if kv_get m now k = Some expected then (m(k \<mapsto> (expected, now + ttl)), True) else (m, False))"

section \<open>The interface of a lease\<close>

text \<open>
  \<open>get s t k\<close> is what a reader would see under \<open>k\<close> at time \<open>t\<close> if nothing but time happened to \<open>s\<close>.
  A claim of a value on a key up to a time is that the value is what every reader sees until then.
\<close>

locale lease_store =
  fixes get :: "'s \<Rightarrow> int \<Rightarrow> string \<Rightarrow> string option"
    and setnx :: "int \<Rightarrow> string \<Rightarrow> string \<Rightarrow> int \<Rightarrow> 's \<Rightarrow> 's \<times> bool"
    and cad :: "int \<Rightarrow> string \<Rightarrow> string \<Rightarrow> 's \<Rightarrow> 's \<times> bool"
    and cae :: "int \<Rightarrow> string \<Rightarrow> string \<Rightarrow> int \<Rightarrow> 's \<Rightarrow> 's \<times> bool"
  assumes setnx_iff: "snd (setnx now k v ttl s) \<longleftrightarrow> get s now k = None"
    and setnx_get: "snd (setnx now k v ttl s) \<Longrightarrow> now \<le> t \<Longrightarrow>
          get (fst (setnx now k v ttl s)) t k = (if t < now + ttl then Some v else None)"
    and setnx_busy: "\<not> snd (setnx now k v ttl s) \<Longrightarrow> fst (setnx now k v ttl s) = s"
    and cae_iff: "snd (cae now k v ttl s) \<longleftrightarrow> get s now k = Some v"
    and cae_get: "snd (cae now k v ttl s) \<Longrightarrow> now \<le> t \<Longrightarrow>
          get (fst (cae now k v ttl s)) t k = (if t < now + ttl then Some v else None)"
    and cae_other: "\<not> snd (cae now k v ttl s) \<Longrightarrow> fst (cae now k v ttl s) = s"
    and cad_iff: "snd (cad now k v s) \<longleftrightarrow> get s now k = Some v"
    and cad_get: "snd (cad now k v s) \<Longrightarrow> now \<le> t \<Longrightarrow> get (fst (cad now k v s)) t k = None"
    and cad_other: "\<not> snd (cad now k v s) \<Longrightarrow> fst (cad now k v s) = s"
begin

definition claim :: "'s \<Rightarrow> int \<Rightarrow> string \<Rightarrow> string \<Rightarrow> int \<Rightarrow> bool" where
  "claim s now k v until \<longleftrightarrow> (\<forall>t. now \<le> t \<and> t < until \<longrightarrow> get s t k = Some v)"

lemma claim_unique: "claim s now k v u \<Longrightarrow> claim s now k v' u' \<Longrightarrow> now < u \<Longrightarrow> now < u' \<Longrightarrow> v = v'"
  unfolding claim_def by (metis option.inject order_refl)

lemma claim_later: "claim s now k v u \<Longrightarrow> now \<le> now' \<Longrightarrow> claim s now' k v u"
  by (simp add: claim_def)

lemma claim_expired: "until \<le> now \<Longrightarrow> claim s now k v until"
  by (auto simp: claim_def)

text \<open>Taking a free key establishes the taker's claim and cannot break another live one.\<close>

lemma setnx_claim: "snd (setnx now k v ttl s) \<Longrightarrow> claim (fst (setnx now k v ttl s)) now k v (now + ttl)"
  by (simp add: claim_def setnx_get)

lemma setnx_keeps: "claim s now k w u \<Longrightarrow> claim (fst (setnx now k v ttl s)) now k w u"
proof (cases "snd (setnx now k v ttl s)")
  case True
  then have "get s now k = None" by (simp add: setnx_iff)
  moreover assume "claim s now k w u"
  ultimately have "u \<le> now" unfolding claim_def by (metis linorder_not_le option.distinct(1) order_refl)
  then show ?thesis by (rule claim_expired)
next
  case False
  moreover assume "claim s now k w u"
  ultimately show ?thesis by (simp add: setnx_busy)
qed

lemma cae_claim: "snd (cae now k v ttl s) \<Longrightarrow> claim (fst (cae now k v ttl s)) now k v (now + ttl)"
  by (simp add: claim_def cae_get)

lemma cae_keeps:
  assumes "claim s now k w u" "u \<le> now + ttl"
  shows "claim (fst (cae now k v ttl s)) now k w u"
proof (cases "snd (cae now k v ttl s) \<and> now < u")
  case True
  then have "get s now k = Some v" by (simp add: cae_iff)
  moreover have "get s now k = Some w" using assms(1) True by (simp add: claim_def)
  ultimately have "w = v" by simp
  then show ?thesis using True assms(2) by (simp add: claim_def cae_get)
next
  case False
  then show ?thesis using assms(1) by (auto simp: claim_def cae_other)
qed

lemma cad_keeps: "claim s now k w u \<Longrightarrow> w \<noteq> v \<Longrightarrow> claim (fst (cad now k v s)) now k w u"
proof (cases "snd (cad now k v s) \<and> now < u")
  case True
  assume "claim s now k w u" "w \<noteq> v"
  then have "get s now k = Some w" using True by (simp add: claim_def)
  then show ?thesis using True \<open>w \<noteq> v\<close> by (simp add: cad_iff)
next
  case False
  assume "claim s now k w u"
  then show ?thesis using False by (auto simp: claim_def cad_other)
qed

end

lemma kv_get_upd:
  "kv_get (m(k \<mapsto> (v, e))) t k' = (if k' = k then (if t < e then Some v else None) else kv_get m t k')"
  "kv_get (m(k := None)) t k' = (if k' = k then None else kv_get m t k')"
  by (simp_all add: kv_get_def)

interpretation vk: lease_store kv_get SetNX CompareAndDelete CompareAndExpire
  by unfold_locales
    (auto simp: SetNX_def CompareAndDelete_def CompareAndExpire_def kv_set_def kv_get_upd)

section \<open>Leader election\<close>

text \<open>
  \<open>MasterLock\<close> (\<open>internal/worker/master.go\<close>) on every instance of a cluster.  \<open>ms_held\<close> is the
  instance's \<open>held\<close> flag and \<open>ms_fresh\<close> the time of its last successful acquire or refresh; the
  latter is not a field of the code, it only says until when the flag is backed by the key.
\<close>

record MasterSys =
  ms_store :: "string kvs"
  ms_now :: int
  ms_held :: "string \<Rightarrow> bool"
  ms_fresh :: "string \<Rightarrow> int"

definition masterKey :: string where
  "masterKey = ''master:lock''"

definition masterTTL :: int where
  "masterTTL = 15000"

definition tryAcquire :: "string \<Rightarrow> MasterSys \<Rightarrow> MasterSys" where
  "tryAcquire i s =
    (let (st, ok) = SetNX (ms_now s) masterKey i masterTTL (ms_store s) in
     if ok then s\<lparr>ms_store := st, ms_held := (ms_held s)(i := True), ms_fresh := (ms_fresh s)(i := ms_now s)\<rparr>
     else s)"

text \<open>\<open>up\<close>: whether Valkey answered.  An error drops the claim, as does a lost key.\<close>

definition tryRefresh :: "bool \<Rightarrow> string \<Rightarrow> MasterSys \<Rightarrow> MasterSys" where
  "tryRefresh up i s =
    (if \<not> up then s\<lparr>ms_held := (ms_held s)(i := False)\<rparr>
     else (let (st, ok) = CompareAndExpire (ms_now s) masterKey i masterTTL (ms_store s) in
           if ok then s\<lparr>ms_store := st, ms_fresh := (ms_fresh s)(i := ms_now s)\<rparr>
           else s\<lparr>ms_held := (ms_held s)(i := False)\<rparr>))"

definition master_tick :: "bool \<Rightarrow> string \<Rightarrow> MasterSys \<Rightarrow> MasterSys" where
  "master_tick up i s = (if ms_held s i then tryRefresh up i s else if up then tryAcquire i s else s)"

definition master_shutdown :: "bool \<Rightarrow> string \<Rightarrow> MasterSys \<Rightarrow> MasterSys" where
  "master_shutdown up i s =
    (if ms_held s i then
       (let st = (if up then fst (CompareAndDelete (ms_now s) masterKey i (ms_store s)) else ms_store s) in
        s\<lparr>ms_store := st, ms_held := (ms_held s)(i := False)\<rparr>)
     else s)"

inductive mstep :: "MasterSys \<Rightarrow> MasterSys \<Rightarrow> bool" where
  tick: "mstep s (master_tick up i s)"
| shutdown: "mstep s (master_shutdown up i s)"
| pass: "0 \<le> d \<Longrightarrow> mstep s (s\<lparr>ms_now := ms_now s + d\<rparr>)"

inductive_cases mstepE: "mstep s s'"

definition master_start :: "int \<Rightarrow> MasterSys" where
  "master_start t = \<lparr>ms_store = (\<lambda>_. None), ms_now = t, ms_held = (\<lambda>_. False), ms_fresh = (\<lambda>_. t)\<rparr>"

definition master_inv :: "MasterSys \<Rightarrow> bool" where
  "master_inv s \<longleftrightarrow>
     (\<forall>i. ms_fresh s i \<le> ms_now s)
   \<and> (\<forall>i. ms_held s i \<longrightarrow> vk.claim (ms_store s) (ms_now s) masterKey i (ms_fresh s i + masterTTL))
   \<and> (\<forall>v e. ms_store s masterKey = Some (v, e) \<longrightarrow> e \<le> ms_fresh s v + masterTTL)"

lemma master_tick_inv:
  assumes "master_inv s"
  shows "master_inv (master_tick up i s)"
proof -
  let ?n = "ms_now s" and ?st = "ms_store s"
  have fr: "ms_fresh s j \<le> ?n" for j using assms by (simp add: master_inv_def)
  have cl: "vk.claim ?st ?n masterKey j (ms_fresh s j + masterTTL)" if "ms_held s j" for j
    using assms that by (simp add: master_inv_def)
  show ?thesis
  proof (cases "ms_held s i")
    case True
    let ?r = "CompareAndExpire ?n masterKey i masterTTL ?st"
    show ?thesis
    proof (cases "up \<and> snd ?r")
      case ok: True
      have "vk.claim (fst ?r) ?n masterKey j (ms_fresh s j + masterTTL)" if "ms_held s j" for j
        using vk.cae_keeps [OF cl [OF that], of masterTTL i] fr [of j] by simp
      moreover have "vk.claim (fst ?r) ?n masterKey i (?n + masterTTL)" using ok vk.cae_claim by blast
      moreover have "fst ?r = ?st(masterKey \<mapsto> (i, ?n + masterTTL))"
        using ok by (simp add: CompareAndExpire_def split: if_splits)
      ultimately show ?thesis
        using True ok assms by (auto simp: master_tick_def tryRefresh_def master_inv_def case_prod_beta)
    next
      case False
      then show ?thesis using True assms
        by (auto simp: master_tick_def tryRefresh_def master_inv_def case_prod_beta)
    qed
  next
    case False
    let ?r = "SetNX ?n masterKey i masterTTL ?st"
    show ?thesis
    proof (cases "up \<and> snd ?r")
      case ok: True
      have "vk.claim (fst ?r) ?n masterKey j (ms_fresh s j + masterTTL)" if "ms_held s j" for j
        using vk.setnx_keeps [OF cl [OF that]] .
      moreover have "vk.claim (fst ?r) ?n masterKey i (?n + masterTTL)" using ok vk.setnx_claim by blast
      moreover have "fst ?r = ?st(masterKey \<mapsto> (i, ?n + masterTTL))"
        using ok by (simp add: SetNX_def kv_set_def split: if_splits)
      ultimately show ?thesis
        using False ok assms by (auto simp: master_tick_def tryAcquire_def master_inv_def case_prod_beta)
    next
      case no: False
      then show ?thesis using False assms
        by (auto simp: master_tick_def tryAcquire_def case_prod_beta)
    qed
  qed
qed

lemma master_shutdown_inv:
  assumes "master_inv s"
  shows "master_inv (master_shutdown up i s)"
proof -
  let ?r = "CompareAndDelete (ms_now s) masterKey i (ms_store s)"
  have "vk.claim (fst ?r) (ms_now s) masterKey j (ms_fresh s j + masterTTL)" if "ms_held s j" "j \<noteq> i" for j
    using vk.cad_keeps that assms by (simp add: master_inv_def)
  moreover have "fst ?r masterKey = None \<or> fst ?r = ms_store s"
    by (simp add: CompareAndDelete_def)
  ultimately show ?thesis
    using assms by (auto simp: master_shutdown_def master_inv_def Let_def)
qed

lemma mstep_inv: "master_inv s \<Longrightarrow> mstep s s' \<Longrightarrow> master_inv s'"
proof (erule mstepE)
  fix d assume a: "master_inv s" "s' = s\<lparr>ms_now := ms_now s + d\<rparr>" "(0 :: int) \<le> d"
  have "vk.claim (ms_store s) (ms_now s + d) masterKey i (ms_fresh s i + masterTTL)" if "ms_held s i" for i
  proof -
    have "vk.claim (ms_store s) (ms_now s) masterKey i (ms_fresh s i + masterTTL)"
      using a(1) that unfolding master_inv_def by blast
    then show ?thesis by (rule vk.claim_later) (use a(3) in simp)
  qed
  moreover have "ms_fresh s i \<le> ms_now s + d" for i
    using a(1,3) unfolding master_inv_def by (metis add_increasing2)
  ultimately show "master_inv s'" using a by (simp add: master_inv_def)
qed (simp_all add: master_tick_inv master_shutdown_inv)

text \<open>
  C27 (safety, by rule induction).  However ticks, Valkey errors, shutdowns and the passage of time
  interleave, two instances whose mastership was confirmed within the last TTL are the same instance.
\<close>

theorem master_exclusive:
  assumes "mstep\<^sup>*\<^sup>* (master_start t0) s"
    "ms_held s i" "ms_now s < ms_fresh s i + masterTTL"
    "ms_held s j" "ms_now s < ms_fresh s j + masterTTL"
  shows "i = j"
proof -
  have "master_inv (master_start t0)" by (simp add: master_inv_def master_start_def)
  then have "master_inv s" using reach_inv [OF assms(1)] mstep_inv by blast
  then show ?thesis
    using vk.claim_unique [of "ms_store s" "ms_now s" masterKey i "ms_fresh s i + masterTTL" j "ms_fresh s j + masterTTL"]
      assms(2-5)
    by (simp add: master_inv_def)
qed

theorem master_exclusive_witness:
  "ms_held (master_tick True ''b'' (master_tick True ''a'' (master_start 0))) ''a''
   \<and> \<not> ms_held (master_tick True ''b'' (master_tick True ''a'' (master_start 0))) ''b''"
proof -
  let ?s = "master_tick True ''b'' (master_tick True ''a'' (master_start 0))"
  have r: "mstep\<^sup>*\<^sup>* (master_start 0) ?s"
    by (meson mstep.tick rtranclp.rtrancl_into_rtrancl rtranclp.rtrancl_refl)
  have a: "ms_held ?s ''a''" "ms_now ?s < ms_fresh ?s ''a'' + masterTTL" "ms_now ?s < ms_fresh ?s ''b'' + masterTTL"
    by code_simp+
  then show ?thesis using master_exclusive [OF r a(1,2), of "''b''"] by auto
qed



section \<open>Leases\<close>

text \<open>
  \<open>Lease\<close> (\<open>internal/valkey/lock.go\<close>): the same three commands with a random token per holder.
  \<open>le_open\<close> is false once \<open>Release\<close> has run; a renewal that finds another token ends the renewing.
\<close>

record Lease =
  le_key :: string
  le_token :: string
  le_ttl :: int
  le_open :: bool
  le_renewing :: bool

definition TryLock :: "int \<Rightarrow> string \<Rightarrow> string \<Rightarrow> int \<Rightarrow> string kvs \<Rightarrow> string kvs \<times> Lease option" where
  "TryLock now key token ttl m =
    (let (m', ok) = SetNX now key token ttl m in
     if ok then (m', Some \<lparr>le_key = key, le_token = token, le_ttl = ttl, le_open = True, le_renewing = True\<rparr>)
     else (m, None))"

definition Release :: "int \<Rightarrow> Lease \<Rightarrow> string kvs \<Rightarrow> string kvs \<times> Lease" where
  "Release now l m =
    (if le_open l
     then (fst (CompareAndDelete now (le_key l) (le_token l) m), l\<lparr>le_open := False, le_renewing := False\<rparr>)
     else (m, l))"

definition renew_tick :: "bool \<Rightarrow> int \<Rightarrow> Lease \<Rightarrow> string kvs \<Rightarrow> string kvs \<times> Lease" where
  "renew_tick up now l m =
    (if \<not> le_renewing l \<or> \<not> up then (m, l)
     else (let (m', ok) = CompareAndExpire now (le_key l) (le_token l) (le_ttl l) m in
           if ok then (m', l) else (m, l\<lparr>le_renewing := False\<rparr>)))"

text \<open>
  A lease whose key has passed to another token leaves that holder's claim alone, whether it releases or
  renews; and a lease renewed at least every TTL keeps its key against every attempt to take it.
\<close>

lemma lease_other_safe:
  assumes "vk.claim m now (le_key l) w u" "w \<noteq> le_token l" "u \<le> now + le_ttl l"
  shows "vk.claim (fst (Release now l m)) now (le_key l) w u"
    "vk.claim (fst (renew_tick up now l m)) now (le_key l) w u"
proof -
  show "vk.claim (fst (Release now l m)) now (le_key l) w u"
    using assms(1) vk.cad_keeps [OF assms(1,2)] by (simp add: Release_def)
  show "vk.claim (fst (renew_tick up now l m)) now (le_key l) w u"
    using assms(1) vk.cae_keeps [OF assms(1,3), of "le_token l"]
    by (auto simp: renew_tick_def case_prod_beta)
qed

lemma TryLock_excluded:
  "vk.claim m now key w u \<Longrightarrow> now < u \<Longrightarrow> TryLock now key token ttl m = (m, None)"
  by (simp add: TryLock_def SetNX_def vk.claim_def)

end
