(* ===== verification/Totp.thy ===== *)
theory Totp
  imports Valkey
begin

text \<open>
  Second factors (\<open>internal/auth/totp.go\<close>, \<open>totp_challenge.go\<close>, the Valkey guards of
  \<open>internal/valkey\<close>, and \<open>validateTOTPOnce\<close> / \<open>redeemTOTPChallenge\<close> of \<open>cmd/server/auth_service.go\<close>):
  matching a code to a time step, spending the step once, redeeming a login challenge once, recovery
  codes.

  The interface \<open>TOTPReplayGuard\<close> of the code is the locale \<open>replay_guard\<close>; both of its
  implementations, the shared one and the in-process one, are shown to provide it.  The HOTP
  comparison of \<open>pquerna/otp\<close> is the parameter \<open>valid\<close>.
\<close>

section \<open>Time steps\<close>

definition totpPeriod :: int where
  "totpPeriod = 30"

text \<open>Times are milliseconds since the epoch; \<open>now.Unix()\<close> is the whole seconds of it.\<close>

definition current_step :: "int \<Rightarrow> int" where
  "current_step now = go_div (now div 1000) totpPeriod"

definition try_step :: "(string \<Rightarrow> int \<Rightarrow> string \<Rightarrow> bool) \<Rightarrow> string \<Rightarrow> string \<Rightarrow> int \<Rightarrow> bool" where
  "try_step valid code secret c \<longleftrightarrow> 0 \<le> c \<and> valid code c secret"

definition MatchTOTPStep ::
  "(string \<Rightarrow> int \<Rightarrow> string \<Rightarrow> bool) \<Rightarrow> string \<Rightarrow> string \<Rightarrow> int \<Rightarrow> int option" where
  "MatchTOTPStep valid code0 secret now =
    (let code = TrimSpace code0 in
     if length code \<noteq> 6 then None
     else find (try_step valid code secret) (map (\<lambda>off. current_step now + off) [-1, 0, 1]))"

lemma MatchTOTPStep_window:
  "MatchTOTPStep valid code secret now = Some c \<Longrightarrow> \<bar>c - current_step now\<bar> \<le> 1 \<and> 0 \<le> c"
  by (auto simp: MatchTOTPStep_def Let_def try_step_def split: if_splits)

section \<open>The guard interface\<close>

text \<open>
  \<open>remembered g t u\<close> is the last step of user \<open>u\<close> that the guard still knows at time \<open>t\<close>.
\<close>

locale replay_guard =
  fixes consume :: "'g \<Rightarrow> int \<Rightarrow> string \<Rightarrow> int \<Rightarrow> 'g \<times> bool"
    and remembered :: "'g \<Rightarrow> int \<Rightarrow> string \<Rightarrow> int option"
    and ttl :: int
  assumes consume_iff: "snd (consume g now u step) \<longleftrightarrow> (\<forall>l. remembered g now u = Some l \<longrightarrow> l < step)"
    and consume_record: "snd (consume g now u step) \<Longrightarrow> now \<le> t \<Longrightarrow> t < now + ttl \<Longrightarrow>
          remembered (fst (consume g now u step)) t u = Some step"
    and consume_keep: "now \<le> t \<Longrightarrow> u' \<noteq> u \<or> \<not> snd (consume g now u step) \<Longrightarrow>
          remembered (fst (consume g now u step)) t u' = remembered g t u'"
begin

definition spent :: "'g \<Rightarrow> int \<Rightarrow> (int \<times> string \<times> int) set \<Rightarrow> bool" where
  "spent g now acc \<longleftrightarrow> (\<forall>a u s. (a, u, s) \<in> acc \<longrightarrow> a \<le> now \<and>
     (\<forall>t. now \<le> t \<and> t < a + ttl \<longrightarrow> (\<exists>l. remembered g t u = Some l \<and> s \<le> l)))"

lemma spent_empty: "spent g now {}"
  by (simp add: spent_def)

lemma spentD:
  assumes "spent g now acc" "(a, u, s) \<in> acc"
  shows "a \<le> now" "now \<le> t \<Longrightarrow> t < a + ttl \<Longrightarrow> \<exists>l. remembered g t u = Some l \<and> s \<le> l"
  using assms unfolding spent_def by blast+

lemma spent_mono: "acc' \<subseteq> acc \<Longrightarrow> spent g now acc \<Longrightarrow> spent g now acc'"
  unfolding spent_def by blast

lemma spent_later: "spent g now acc \<Longrightarrow> now \<le> now' \<Longrightarrow> spent g now' acc"
  unfolding spent_def by (meson order_trans)

lemma spent_refused:
  assumes "spent g now acc" "(a, u, s) \<in> acc" "now < a + ttl" "step \<le> s"
  shows "\<not> snd (consume g now u step)"
  using spentD(2) [OF assms(1,2), of now] assms(3,4) by (auto simp: consume_iff)

lemma spent_consume:
  assumes "spent g now acc"
  shows "spent (fst (consume g now u step)) now (if snd (consume g now u step) then insert (now, u, step) acc else acc)"
proof (cases "snd (consume g now u step)")
  case False
  then have "remembered (fst (consume g now u step)) t v = remembered g t v" if "now \<le> t" for t v
    using consume_keep that by blast
  then show ?thesis using assms False by (simp add: spent_def)
next
  case True
  have old: "\<exists>l. remembered (fst (consume g now u step)) t v = Some l \<and> s \<le> l"
    if in_acc: "(a, v, s) \<in> acc" and t: "now \<le> t" "t < a + ttl" for a v s t
  proof (cases "v = u")
    case False
    then show ?thesis using spentD(2) [OF assms in_acc t] consume_keep [OF t(1)] by simp
  next
    case eq: True
    have a: "a \<le> now" by (rule spentD(1) [OF assms in_acc])
    obtain l where "remembered g now u = Some l" "s \<le> l"
      using spentD(2) [OF assms in_acc, of now] t eq by auto
    then have "s \<le> step" using True by (fastforce simp: consume_iff)
    moreover have "t < now + ttl" using a t by simp
    ultimately show ?thesis using eq consume_record [OF True t(1)] by simp
  qed
  have first: "a \<le> now" if "(a, v, s) \<in> acc" for a v s by (rule spentD(1) [OF assms that])
  show ?thesis
    using True old first consume_record [OF True] unfolding spent_def by auto
qed

end

section \<open>The two guards\<close>

definition totpStepTTL :: int where
  "totpStepTTL = 4 * 30 * 1000"

definition totp_key :: "string \<Rightarrow> string" where
  "totp_key user = ''totp:last_step:'' @ user"

text \<open>\<open>consumeStepScript\<close>; the stored text is the step's decimal form, here the number.\<close>

definition Valkey_ConsumeTOTPStep :: "int kvs \<Rightarrow> int \<Rightarrow> string \<Rightarrow> int \<Rightarrow> int kvs \<times> bool" where
  "Valkey_ConsumeTOTPStep m now user step =
    (case kv_get m now (totp_key user) of
       Some prev \<Rightarrow> if step \<le> prev then (m, False) else (kv_set now (totp_key user) step totpStepTTL m, True)
     | None \<Rightarrow> (kv_set now (totp_key user) step totpStepTTL m, True))"

record MemoryGuard =
  mg_last :: "string \<Rightarrow> (int \<times> int) option"
  mg_lastSweep :: int

definition memory_sweep :: "int \<Rightarrow> MemoryGuard \<Rightarrow> MemoryGuard" where
  "memory_sweep now g =
    (if now - mg_lastSweep g \<ge> totpStepTTL
     then g\<lparr>mg_last := (\<lambda>u. case mg_last g u of None \<Rightarrow> None
              | Some (s, e) \<Rightarrow> if \<not> now < e then None else Some (s, e)), mg_lastSweep := now\<rparr>
     else g)"

definition Memory_ConsumeTOTPStep :: "MemoryGuard \<Rightarrow> int \<Rightarrow> string \<Rightarrow> int \<Rightarrow> MemoryGuard \<times> bool" where
  "Memory_ConsumeTOTPStep g0 now user step =
    (let g = memory_sweep now g0 in
     case mg_last g user of
       Some (s, e) \<Rightarrow>
         if now < e \<and> step \<le> s then (g, False)
         else (g\<lparr>mg_last := (mg_last g)(user \<mapsto> (step, now + totpStepTTL))\<rparr>, True)
     | None \<Rightarrow> (g\<lparr>mg_last := (mg_last g)(user \<mapsto> (step, now + totpStepTTL))\<rparr>, True))"

definition valkey_step :: "int kvs \<Rightarrow> int \<Rightarrow> string \<Rightarrow> int option" where
  "valkey_step m t u = kv_get m t (totp_key u)"

definition memory_step :: "MemoryGuard \<Rightarrow> int \<Rightarrow> string \<Rightarrow> int option" where
  "memory_step g t u = (case mg_last g u of None \<Rightarrow> None | Some (s, e) \<Rightarrow> if t < e then Some s else None)"

interpretation vg: replay_guard Valkey_ConsumeTOTPStep valkey_step totpStepTTL
  by unfold_locales
    (auto simp: Valkey_ConsumeTOTPStep_def valkey_step_def kv_set_def kv_get_upd totp_key_def split: option.splits if_splits)

lemma memory_sweep_step: "now \<le> t \<Longrightarrow> memory_step (memory_sweep now g) t u = memory_step g t u"
  by (auto simp: memory_step_def memory_sweep_def split: option.splits)

lemma Memory_Consume_iff:
  "snd (Memory_ConsumeTOTPStep g now u step) \<longleftrightarrow> (\<forall>l. memory_step g now u = Some l \<longrightarrow> l < step)"
  using memory_sweep_step [of now now g u]
  by (auto simp: Memory_ConsumeTOTPStep_def memory_step_def Let_def split: option.splits if_splits)

interpretation mg: replay_guard Memory_ConsumeTOTPStep memory_step totpStepTTL
proof unfold_locales
  fix g now u step
  show "snd (Memory_ConsumeTOTPStep g now u step) \<longleftrightarrow> (\<forall>l. memory_step g now u = Some l \<longrightarrow> l < step)"
    by (rule Memory_Consume_iff)
next
  fix g now u step t
  assume "snd (Memory_ConsumeTOTPStep g now u step)" "now \<le> t" "t < now + totpStepTTL"
  then show "memory_step (fst (Memory_ConsumeTOTPStep g now u step)) t u = Some step"
    by (auto simp: Memory_ConsumeTOTPStep_def memory_step_def Let_def split: option.splits if_splits)
next
  fix now t :: int and u' u g step
  assume "now \<le> t" "u' \<noteq> u \<or> \<not> snd (Memory_ConsumeTOTPStep g now u step)"
  then have "memory_step (fst (Memory_ConsumeTOTPStep g now u step)) t u' = memory_step (memory_sweep now g) t u'"
    by (auto simp: Memory_ConsumeTOTPStep_def memory_step_def Let_def split: option.splits if_splits)
  then show "memory_step (fst (Memory_ConsumeTOTPStep g now u step)) t u' = memory_step g t u'"
    using memory_sweep_step \<open>now \<le> t\<close> by simp
qed

section \<open>Spending a step on one instance\<close>

record TotpAuth =
  ta_local :: MemoryGuard
  ta_shared :: "int kvs"

text \<open>\<open>up\<close>: whether the shared guard is wired and answered.\<close>

definition spendTOTPStep :: "bool \<Rightarrow> TotpAuth \<Rightarrow> int \<Rightarrow> string \<Rightarrow> int \<Rightarrow> TotpAuth \<times> bool" where
  "spendTOTPStep up a now user step =
    (let (l, localFresh) = Memory_ConsumeTOTPStep (ta_local a) now user step in
     if up then (let (m, fresh) = Valkey_ConsumeTOTPStep (ta_shared a) now user step in
                 (a\<lparr>ta_local := l, ta_shared := m\<rparr>, fresh \<and> localFresh))
     else (a\<lparr>ta_local := l\<rparr>, localFresh))"

definition validateTOTPOnce ::
  "(string \<Rightarrow> int \<Rightarrow> string \<Rightarrow> bool) \<Rightarrow> bool \<Rightarrow> TotpAuth \<Rightarrow> int \<Rightarrow> string \<Rightarrow> string \<Rightarrow> string
     \<Rightarrow> TotpAuth \<times> int option" where
  "validateTOTPOnce valid up a now user code secret =
    (case MatchTOTPStep valid code secret now of
       None \<Rightarrow> (a, None)
     | Some step \<Rightarrow> (let (a', ok) = spendTOTPStep up a now user step in (a', if ok then Some step else None)))"

text \<open>
  A run of attempts: time, whether Valkey answers, user, code and secret.  The result lists the accepted
  ones as (time, user, step).
\<close>

fun totp_run ::
  "(string \<Rightarrow> int \<Rightarrow> string \<Rightarrow> bool) \<Rightarrow> TotpAuth \<Rightarrow> (int \<times> bool \<times> string \<times> string \<times> string) list
     \<Rightarrow> (int \<times> string \<times> int) list" where
  "totp_run valid a [] = []"
| "totp_run valid a ((now, up, user, code, secret) # rest) =
     (case validateTOTPOnce valid up a now user code secret of
        (a', None) \<Rightarrow> totp_run valid a' rest
      | (a', Some step) \<Rightarrow> (now, user, step) # totp_run valid a' rest)"

lemma spend_local:
  "ta_local (fst (spendTOTPStep up a now user step)) = fst (Memory_ConsumeTOTPStep (ta_local a) now user step)"
  "snd (spendTOTPStep up a now user step) \<Longrightarrow> snd (Memory_ConsumeTOTPStep (ta_local a) now user step)"
  by (auto simp: spendTOTPStep_def Let_def case_prod_beta split: if_splits)

text \<open>Within four periods of the first use every attempt that still matches the step comes too early.\<close>

lemma step_window:
  assumes "\<bar>s - current_step a\<bar> \<le> 1" "\<bar>s - current_step b\<bar> \<le> 1"
  shows "b < a + totpStepTTL"
proof -
  have "current_step b \<le> current_step a + 2" using assms by simp
  then have "go_div (b div 1000) 30 \<le> go_div (a div 1000) 30 + 2" by (simp add: current_step_def totpPeriod_def)
  moreover have "go_div x 30 = (if 0 \<le> x then x div 30 else - (- x div 30))" for x
    by (simp add: go_div_def sgn_if)
  ultimately show ?thesis by (simp add: totpStepTTL_def split: if_splits)
qed

lemma totp_run_spent:
  assumes "mg.spent (ta_local a) t0 acc" "sorted (t0 # map fst ts)"
    "\<forall>(b, u, s) \<in> acc. \<bar>s - current_step b\<bar> \<le> 1"
  shows "distinct (map snd (totp_run valid a ts)) \<and> snd ` acc \<inter> set (map snd (totp_run valid a ts)) = {}"
  using assms
proof (induction ts arbitrary: a t0 acc)
  case (Cons x ts)
  obtain now up user code secret where x: "x = (now, up, user, code, secret)" by (cases x)
  let ?v = "validateTOTPOnce valid up a now user code secret"
  have le: "t0 \<le> now" and srt: "sorted (now # map fst ts)" using Cons.prems(2) x by auto
  have sp: "mg.spent (ta_local a) now acc" using mg.spent_later [OF Cons.prems(1) le] .
  show ?case
  proof (cases "MatchTOTPStep valid code secret now")
    case None
    then have v: "?v = (a, None)" by (simp add: validateTOTPOnce_def)
    show ?thesis using Cons.IH [OF sp srt Cons.prems(3)] by (simp add: x v)
  next
    case (Some step)
    let ?m = "Memory_ConsumeTOTPStep (ta_local a) now user step"
    let ?s = "spendTOTPStep up a now user step"
    have v: "?v = (fst ?s, if snd ?s then Some step else None)"
      by (simp add: validateTOTPOnce_def Some case_prod_beta Let_def)
    have loc: "ta_local (fst ?s) = fst ?m" by (rule spend_local)
    have w: "\<bar>step - current_step now\<bar> \<le> 1" using MatchTOTPStep_window [OF Some] by simp
    note sc = mg.spent_consume [OF sp, of user step]
    show ?thesis
    proof (cases "snd ?s")
      case True
      then have m: "snd ?m" by (rule spend_local(2))
      let ?acc = "insert (now, user, step) acc"
      have sp': "mg.spent (ta_local (fst ?s)) now ?acc" using sc m loc by simp
      have ok: "\<forall>(b, u, s) \<in> ?acc. \<bar>s - current_step b\<bar> \<le> 1" using Cons.prems(3) w by auto
      have new: "(user, step) \<notin> snd ` acc"
      proof
        assume "(user, step) \<in> snd ` acc"
        then obtain b where b: "(b, user, step) \<in> acc" by force
        then have "\<bar>step - current_step b\<bar> \<le> 1" using Cons.prems(3) by auto
        then have "now < b + totpStepTTL" using step_window w by blast
        then show False using mg.spent_refused [OF sp b _ order_refl] m by blast
      qed
      show ?thesis using Cons.IH [OF sp' srt ok] new True by (auto simp: x v)
    next
      case False
      have "mg.spent (ta_local (fst ?s)) now acc"
        using mg.spent_mono [OF _ sc, of acc] unfolding loc by (simp split: if_splits add: subset_insertI)
      then show ?thesis using Cons.IH [OF _ srt Cons.prems(3)] False by (simp add: x v)
    qed
  qed
qed simp

text \<open>
  C29 (single use).  Whatever attempts reach an instance in the order of its clock, and whether or not
  Valkey answers each of them, no user's time step is accepted twice: a code that was observed cannot be
  replayed inside its validity window.
\<close>

theorem validateTOTPOnce_single_use:
  assumes "sorted (map fst attempts)"
  shows "distinct (map snd (totp_run valid \<lparr>ta_local = \<lparr>mg_last = (\<lambda>_. None), mg_lastSweep = z\<rparr>, ta_shared = m\<rparr> attempts))"
proof (cases attempts)
  case (Cons x xs)
  have "sorted (fst x # map fst attempts)" using assms Cons by auto
  then show ?thesis using totp_run_spent [OF mg.spent_empty] by blast
qed simp

theorem validateTOTPOnce_single_use_witness:
  "totp_run (\<lambda>code c secret. c = 2) \<lparr>ta_local = \<lparr>mg_last = (\<lambda>_. None), mg_lastSweep = 0\<rparr>, ta_shared = (\<lambda>_. None)\<rparr>
     [(60000, True, ''ann'', ''123456'', ''s''), (61000, False, ''ann'', ''123456'', ''s'')] = [(60000, ''ann'', 2)]
   \<and> distinct (map snd [(60000 :: int, ''ann'', 2 :: int)])"
proof -
  let ?as = "[(60000 :: int, True, ''ann'', ''123456'', ''s''), (61000, False, ''ann'', ''123456'', ''s'')]"
  have "sorted (map fst ?as)" by simp
  from validateTOTPOnce_single_use [OF this, of "\<lambda>code c secret. c = 2" 0 "\<lambda>_. None"]
  show ?thesis by code_simp
qed

section \<open>Login challenges\<close>

definition TOTPChallengeTTL :: int where
  "TOTPChallengeTTL = 5 * 60 * 1000"

definition challengeBurnSlack :: int where
  "challengeBurnSlack = 60 * 1000"

definition challenge_key :: "string \<Rightarrow> string" where
  "challenge_key jti = ''totp:challenge:'' @ jti"

definition Valkey_RedeemTOTPChallenge :: "string kvs \<Rightarrow> int \<Rightarrow> string \<Rightarrow> int \<Rightarrow> string kvs \<times> bool" where
  "Valkey_RedeemTOTPChallenge m now jti ttl = SetNX now (challenge_key jti) ''1'' ttl m"

record ChallengeGuard =
  cg_spent :: "string \<Rightarrow> int option"
  cg_lastSweep :: int

definition challenge_sweep :: "int \<Rightarrow> ChallengeGuard \<Rightarrow> ChallengeGuard" where
  "challenge_sweep now g =
    (if now - cg_lastSweep g \<ge> TOTPChallengeTTL
     then g\<lparr>cg_spent := (\<lambda>j. case cg_spent g j of None \<Rightarrow> None | Some e \<Rightarrow> if \<not> now < e then None else Some e),
            cg_lastSweep := now\<rparr>
     else g)"

definition Memory_RedeemTOTPChallenge :: "ChallengeGuard \<Rightarrow> int \<Rightarrow> string \<Rightarrow> int \<Rightarrow> ChallengeGuard \<times> bool" where
  "Memory_RedeemTOTPChallenge g0 now jti ttl =
    (let g = challenge_sweep now g0 in
     case cg_spent g jti of
       Some e \<Rightarrow> if now < e then (g, False) else (g\<lparr>cg_spent := (cg_spent g)(jti \<mapsto> now + ttl)\<rparr>, True)
     | None \<Rightarrow> (g\<lparr>cg_spent := (cg_spent g)(jti \<mapsto> now + ttl)\<rparr>, True))"

text \<open>
  \<open>redeemTOTPChallenge\<close> on one instance, in one go: the shared guard first, and a loss there returns
  before the local record is touched.
\<close>

definition redeemTOTPChallenge ::
  "bool \<Rightarrow> string kvs \<Rightarrow> ChallengeGuard \<Rightarrow> int \<Rightarrow> string \<Rightarrow> int \<Rightarrow> (string kvs \<times> ChallengeGuard) \<times> bool" where
  "redeemTOTPChallenge up m g now jti expiresAt =
    (let ttl = expiresAt - now + challengeBurnSlack;
         (m', fresh) = (if up then Valkey_RedeemTOTPChallenge m now jti ttl else (m, True))
     in if \<not> fresh then ((m', g), False)
        else let (g', localFresh) = Memory_RedeemTOTPChallenge g now jti ttl in ((m', g'), localFresh))"

text \<open>
  Concurrent verifies of one challenge: the two guard calls of a redemption are separate events, and
  those of different requests, on one instance or on several, may interleave in any way.
\<close>

record ChSys =
  ch_now :: int
  ch_shared :: "string kvs"
  ch_local :: "nat \<Rightarrow> ChallengeGuard"
  ch_pending :: "(nat \<times> int) list"  \<comment> \<open>instance and ttl of a redemption that passed the shared guard\<close>
  ch_tried :: bool
  ch_wins :: nat

inductive chstep :: "string \<Rightarrow> int \<Rightarrow> ChSys \<Rightarrow> ChSys \<Rightarrow> bool" for jti :: string and expiresAt :: int where
  tick: "0 \<le> d \<Longrightarrow> chstep jti expiresAt s (s\<lparr>ch_now := ch_now s + d\<rparr>)"
| shared: "ch_now s < expiresAt + challengeBurnSlack \<Longrightarrow>
    ttl = expiresAt - ch_now s + challengeBurnSlack \<Longrightarrow>
    Valkey_RedeemTOTPChallenge (ch_shared s) (ch_now s) jti ttl = (m, fresh) \<Longrightarrow>
    chstep jti expiresAt s (s\<lparr>ch_shared := m, ch_tried := True,
      ch_pending := (if fresh then (i, ttl) # ch_pending s else ch_pending s)\<rparr>)"
| local: "(i, ttl) \<in> set (ch_pending s) \<Longrightarrow>
    Memory_RedeemTOTPChallenge (ch_local s i) (ch_now s) jti ttl = (g, fresh) \<Longrightarrow>
    chstep jti expiresAt s (s\<lparr>ch_local := (ch_local s)(i := g), ch_pending := remove1 (i, ttl) (ch_pending s),
      ch_wins := ch_wins s + (if fresh then 1 else 0)\<rparr>)"

definition ch_ok :: "string \<Rightarrow> int \<Rightarrow> ChSys \<Rightarrow> bool" where
  "ch_ok jti expiresAt s \<longleftrightarrow>
    (if ch_tried s
     then (\<forall>t. ch_now s \<le> t \<and> t < expiresAt + challengeBurnSlack \<longrightarrow> kv_get (ch_shared s) t (challenge_key jti) \<noteq> None)
          \<and> length (ch_pending s) + ch_wins s = 1
     else ch_pending s = [] \<and> ch_wins s = 0 \<and> ch_shared s (challenge_key jti) = None)
    \<and> (ch_wins s = 0 \<longrightarrow> (\<forall>i. cg_spent (ch_local s i) jti = None))"

lemma redeem_first:
  "cg_spent g jti = None \<Longrightarrow> snd (Memory_RedeemTOTPChallenge g now jti ttl)"
  by (simp add: Memory_RedeemTOTPChallenge_def challenge_sweep_def Let_def split: option.splits)

lemma chstep_ok:
  assumes inv: "ch_ok jti ex s" and "chstep jti ex s s'"
  shows "ch_ok jti ex s'"
  using assms(2)
proof cases
  case (tick d)
  then show ?thesis using inv by (auto simp: ch_ok_def split: if_splits)
next
  case (shared ttl m fresh i)
  show ?thesis
  proof (cases "ch_tried s")
    case True
    then have "kv_get (ch_shared s) (ch_now s) (challenge_key jti) \<noteq> None"
      using inv shared(2) unfolding ch_ok_def by simp
    then have "m = ch_shared s" "\<not> fresh" using shared(4) by (auto simp: Valkey_RedeemTOTPChallenge_def SetNX_def)
    then show ?thesis using inv shared(1) True unfolding ch_ok_def by simp
  next
    case False
    then have "ch_shared s (challenge_key jti) = None" using inv unfolding ch_ok_def by simp
    then have m: "m = kv_set (ch_now s) (challenge_key jti) ''1'' ttl (ch_shared s)" "fresh"
      using shared(4) by (auto simp: Valkey_RedeemTOTPChallenge_def SetNX_def kv_get_def)
    then have "kv_get m t (challenge_key jti) \<noteq> None" if "t < ex + challengeBurnSlack" for t
      using that shared(3) by (simp add: kv_set_def kv_get_upd)
    then show ?thesis using inv shared(1) False m(2) unfolding ch_ok_def by simp
  qed
next
  case (local i ttl g fresh)
  have one: "ch_pending s = [(i, ttl)]" "ch_wins s = 0" "ch_tried s"
    using inv local(2) by (cases "ch_pending s"; simp add: ch_ok_def split: if_splits)+
  then have "cg_spent (ch_local s i) jti = None" using inv unfolding ch_ok_def by simp
  then have "fresh" using redeem_first local(3) by (metis snd_conv)
  then show ?thesis using inv local(1) one unfolding ch_ok_def by simp
qed

text \<open>
  While Valkey answers, whatever way the redemptions of one login
  challenge interleave over any number of instances until its record expires, at most one of them wins;
  and once one was attempted and none is in flight, exactly one has won.
\<close>

theorem redeemTOTPChallenge_once:
  assumes "(chstep jti expiresAt)\<^sup>*\<^sup>*
      \<lparr>ch_now = t0, ch_shared = m, ch_local = (\<lambda>i. \<lparr>cg_spent = spent i, cg_lastSweep = z i\<rparr>),
       ch_pending = [], ch_tried = False, ch_wins = 0\<rparr> s"
    and "m (challenge_key jti) = None" "\<forall>i. spent i jti = None"
  shows "ch_wins s \<le> 1 \<and> (ch_tried s \<and> ch_pending s = [] \<longrightarrow> ch_wins s = 1)"
proof -
  have "ch_ok jti expiresAt s"
    by (rule reach_inv [OF assms(1), of "ch_ok jti expiresAt"], simp add: ch_ok_def assms(2,3), rule chstep_ok)
  then show ?thesis by (auto simp: ch_ok_def split: if_splits)
qed

theorem redeemTOTPChallenge_once_witness:
  "\<exists>s :: ChSys. ch_tried s \<and> ch_pending s = [] \<and> ch_wins s = 1"
proof -
  let ?g = "\<lambda>i :: nat. \<lparr>cg_spent = (\<lambda>_. None), cg_lastSweep = 0\<rparr>"
  let ?s0 = "\<lparr>ch_now = 0, ch_shared = (\<lambda>_. None), ch_local = ?g, ch_pending = [], ch_tried = False, ch_wins = 0\<rparr>"
  let ?m = "fst (Valkey_RedeemTOTPChallenge (\<lambda>_. None) 0 ''j'' 360000)"
  let ?s1 = "?s0\<lparr>ch_shared := ?m, ch_tried := True, ch_pending := (if True then (2, 360000) # ch_pending ?s0 else ch_pending ?s0)\<rparr>"
  let ?h = "fst (Memory_RedeemTOTPChallenge (ch_local ?s1 2) 0 ''j'' 360000)"
  let ?s2 = "?s1\<lparr>ch_local := (ch_local ?s1)(2 := ?h), ch_pending := remove1 (2, 360000) (ch_pending ?s1),
      ch_wins := ch_wins ?s1 + (if True then 1 else 0)\<rparr>"
  have "Valkey_RedeemTOTPChallenge (\<lambda>_. None) 0 ''j'' 360000 = (?m, True)"
    by (simp add: Valkey_RedeemTOTPChallenge_def SetNX_def kv_get_def)
  then have 1: "chstep ''j'' 300000 ?s0 ?s1"
    by (intro chstep.shared) (simp_all add: challengeBurnSlack_def)
  have "snd (Memory_RedeemTOTPChallenge (ch_local ?s1 2) 0 ''j'' 360000)" by (rule redeem_first) simp
  then have 2: "chstep ''j'' 300000 ?s1 ?s2"
    by (intro chstep.local) (simp_all add: prod_eq_iff)
  from 1 2 have "(chstep ''j'' 300000)\<^sup>*\<^sup>* ?s0 ?s2" by (meson rtranclp.rtrancl_into_rtrancl rtranclp.rtrancl_refl)
  from redeemTOTPChallenge_once [OF this]
  have "ch_wins ?s2 = 1" by simp
  then have "ch_tried ?s2 \<and> ch_pending ?s2 = [] \<and> ch_wins ?s2 = 1" by simp
  then show ?thesis by blast
qed

section \<open>Recovery codes\<close>

definition recoveryAlphabet :: string where
  "recoveryAlphabet = ''ABCDEFGHJKMNPQRSTUVWXYZ23456789''"

text \<open>
  \<open>randomRecoveryCode\<close>'s rejection loop over the bytes the system's generator yields: \<open>n\<close> characters
  are still wanted.  The result carries the unread bytes; \<^const>\<open>None\<close> is a failed read.
\<close>

definition biased_byte :: "8 word \<Rightarrow> bool" where
  "biased_byte b \<longleftrightarrow> b \<ge> of_nat (length recoveryAlphabet * (256 div length recoveryAlphabet))"

definition recovery_char :: "8 word \<Rightarrow> char" where
  "recovery_char b = recoveryAlphabet ! (unat b mod length recoveryAlphabet)"

fun recovery_loop :: "nat \<Rightarrow> 8 word list \<Rightarrow> (string \<times> 8 word list) option" where
  "recovery_loop 0 bs = Some ([], bs)"
| "recovery_loop (Suc n) [] = None"
| "recovery_loop (Suc n) (b # bs) =
     (if biased_byte b then recovery_loop (Suc n) bs
      else map_option (\<lambda>(s, r). (recovery_char b # s, r)) (recovery_loop n bs))"

definition randomRecoveryCode :: "8 word list \<Rightarrow> (string \<times> 8 word list) option" where
  "randomRecoveryCode bs = recovery_loop 10 bs"

text \<open>\<open>HashToken\<close> (SHA-256) is the parameter \<open>hash\<close>.\<close>

fun GenerateRecoveryCodes :: "(string \<Rightarrow> string) \<Rightarrow> nat \<Rightarrow> 8 word list \<Rightarrow> (string list \<times> string list) option" where
  "GenerateRecoveryCodes hash 0 bs = Some ([], [])"
| "GenerateRecoveryCodes hash (Suc n) bs =
     (case randomRecoveryCode bs of
        None \<Rightarrow> None
      | Some (raw, rest) \<Rightarrow>
          map_option (\<lambda>(ds, hs). ((take 5 raw @ ''-'' @ drop 5 raw) # ds, hash raw # hs))
            (GenerateRecoveryCodes hash n rest))"

definition code_char :: "char \<Rightarrow> bool" where
  "code_char c \<longleftrightarrow> (let n = of_char c :: nat in (65 \<le> n \<and> n \<le> 90) \<or> (48 \<le> n \<and> n \<le> 57))"

definition NormalizeRecoveryCode :: "string \<Rightarrow> string" where
  "NormalizeRecoveryCode s = filter code_char (ToUpper s)"

lemma recovery_alphabet_upper:
  "c \<in> set recoveryAlphabet \<Longrightarrow> code_char c \<and> upper_char c = c \<and> upper_char (lower_char c) = c"
proof -
  have "list_all (\<lambda>c. code_char c \<and> upper_char c = c \<and> upper_char (lower_char c) = c) recoveryAlphabet" by code_simp
  then show "c \<in> set recoveryAlphabet \<Longrightarrow> code_char c \<and> upper_char c = c \<and> upper_char (lower_char c) = c"
    unfolding list_all_iff by blast
qed

lemma recovery_loop_alphabet:
  "recovery_loop n bs = Some (s, r) \<Longrightarrow> length s = n \<and> set s \<subseteq> set recoveryAlphabet"
proof (induction n bs arbitrary: s r rule: recovery_loop.induct)
  case (3 n b bs)
  have "unat b mod length recoveryAlphabet < length recoveryAlphabet"
    by (simp add: recoveryAlphabet_def)
  then have "recovery_char b \<in> set recoveryAlphabet" unfolding recovery_char_def by (rule nth_mem)
  then show ?case using 3 by (auto split: if_splits)
qed auto

lemma Generate_length:
  "GenerateRecoveryCodes hash n bs = Some (ds, hs) \<Longrightarrow> length ds = n \<and> length hs = n"
  by (induction n arbitrary: bs ds hs) (auto split: option.splits)

text \<open>
  Of every batch of codes, however the user types one back
  (any case, any placing of dashes and blanks), its normal form hashes to the stored value of the same
  position.
\<close>

theorem recovery_code_roundtrip:
  assumes "GenerateRecoveryCodes hash n bs = Some (display, hashes)" "i < n"
    and "filter code_char (ToUpper typed) = filter code_char (display ! i)"
  shows "length display = n \<and> length hashes = n \<and> hash (NormalizeRecoveryCode typed) = hashes ! i"
  using assms
proof (induction hash n bs arbitrary: display hashes i rule: GenerateRecoveryCodes.induct)
  case (2 hash n bs)
  obtain raw rest ds hs where raw: "randomRecoveryCode bs = Some (raw, rest)"
    and gen: "GenerateRecoveryCodes hash n rest = Some (ds, hs)"
    and d: "display = (take 5 raw @ ''-'' @ drop 5 raw) # ds" and h: "hashes = hash raw # hs"
    using "2.prems"(1) by (auto split: option.splits)
  have "set raw \<subseteq> set recoveryAlphabet"
    using recovery_loop_alphabet raw unfolding randomRecoveryCode_def by blast
  then have "filter code_char raw = raw"
    using recovery_alphabet_upper by (auto simp: filter_id_conv)
  moreover have "filter code_char (a @ ''-'' @ b) = filter code_char (a @ b)" for a b
    by (simp add: code_char_def)
  ultimately have first: "filter code_char (take 5 raw @ ''-'' @ drop 5 raw) = raw"
    by (metis append_take_drop_id)
  show ?case
  proof (cases i)
    case 0
    then have "NormalizeRecoveryCode typed = raw"
      using "2.prems"(3) d first by (simp add: NormalizeRecoveryCode_def)
    then show ?thesis using Generate_length [OF gen] 0 d h by simp
  next
    case (Suc j)
    then show ?thesis using "2.IH" [OF raw _ gen] "2.prems" d h by simp
  qed
qed simp

theorem recovery_code_roundtrip_witness:
  "GenerateRecoveryCodes (\<lambda>s. ''h'' @ s) 1 [0, 1, 255, 2, 3, 4, 5, 6, 7, 8, 30]
     = Some ([''ABCDE-FGHJ9''], [''hABCDEFGHJ9''])
   \<and> ''h'' @ NormalizeRecoveryCode '' abcdefg hj9'' = ''hABCDEFGHJ9''"
proof -
  have g: "GenerateRecoveryCodes (\<lambda>s. ''h'' @ s) 1 [0, 1, 255, 2, 3, 4, 5, 6, 7, 8, 30]
     = Some ([''ABCDE-FGHJ9''], [''hABCDEFGHJ9''])" by code_simp
  have "filter code_char (ToUpper '' abcdefg hj9'') = filter code_char ([''ABCDE-FGHJ9''] ! 0)" by code_simp
  from recovery_code_roundtrip [OF g _ this] show ?thesis using g by simp
qed

end
