(* ===== verification/RateLimit.thy ===== *)
theory RateLimit
  imports OSPrelude "HOL-Library.Multiset" "HOL-Library.Char_ord" "HOL-Library.List_Lexorder" "HOL-Library.Product_Lexorder"
begin

text \<open>
  The rate limiter (\<open>internal/valkey/ratelimit.go\<close>): the sliding window of \<open>Allow\<close> and
  \<open>AllowFailClosed\<close>, and the failure throttle of \<open>CheckFailures\<close>, \<open>IncrFailure\<close>, \<open>ResetFailures\<close>
  and \<open>Failures\<close>.  Each Lua script runs atomically in Valkey, so one script is one function on the
  key it touches.

  A Valkey sorted set is the list of its (score, member) pairs in its own order; the whole key
  carries an expiry, both in milliseconds.
\<close>

section \<open>Sorted sets\<close>

type_synonym zset = "(int \<times> string) list"

definition ZADD :: "int \<Rightarrow> string \<Rightarrow> zset \<Rightarrow> zset" where
  "ZADD score member z = insort (score, member) (filter (\<lambda>e. snd e \<noteq> member) z)"

definition ZREMRANGEBYSCORE :: "int \<Rightarrow> zset \<Rightarrow> zset" where
  "ZREMRANGEBYSCORE hi z = filter (\<lambda>e. hi < fst e) z"

definition ZPOPMIN :: "zset \<Rightarrow> zset" where
  "ZPOPMIN z = tl z"

text \<open>A key with an expiry; the read of an expired key finds nothing.\<close>

type_synonym 'a expiring = "('a \<times> int) option"

definition live :: "'a \<Rightarrow> int \<Rightarrow> 'a expiring \<Rightarrow> 'a" where
  "live dflt now k = (case k of None \<Rightarrow> dflt | Some (v, ex) \<Rightarrow> if now < ex then v else dflt)"

lemma ZADD_fresh:
  assumes "member \<notin> snd ` set z"
  shows "ZADD score member z = insort (score, member) z"
proof -
  have "filter (\<lambda>e. snd e \<noteq> member) z = z" using assms by (auto simp: filter_id_conv)
  then show ?thesis by (simp add: ZADD_def)
qed

section \<open>The sliding window\<close>

definition request_member :: "int \<Rightarrow> int \<Rightarrow> string" where
  "request_member now n = Itoa now @ ''-'' @ Itoa n"

text \<open>\<open>slidingWindowScript\<close>: the key after the script, whether the request is allowed, what remains.\<close>

definition slidingWindow ::
  "int \<Rightarrow> int \<Rightarrow> int \<Rightarrow> zset expiring \<Rightarrow> zset expiring \<times> bool \<times> int" where
  "slidingWindow now window limit k =
    (let z = ZREMRANGEBYSCORE (now - window) (live [] now k);
         ex = (case k of None \<Rightarrow> 0 | Some (_, e) \<Rightarrow> e);
         n = int (length z)
     in if limit \<le> n then ((if z = [] then None else Some (z, ex)), False, 0)
        else (Some (ZADD now (request_member now n) z, now + window), True, limit - n - 1))"

text \<open>The answer of Valkey to the script, and the answer of \<open>allow\<close> to its caller.\<close>

datatype ValkeyReply = Reply "bool \<times> int" | CtxErr | DownErr

datatype AllowResult = Answer bool int | Failed

definition allow :: "bool \<Rightarrow> ValkeyReply \<Rightarrow> AllowResult" where
  "allow failClosed r =
    (case r of
       CtxErr \<Rightarrow> Failed
     | DownErr \<Rightarrow> if failClosed then Failed else Answer True 0
     | Reply (allowed, remaining) \<Rightarrow> Answer allowed remaining)"

definition Allow :: "ValkeyReply \<Rightarrow> AllowResult" where
  "Allow r = allow False r"

definition AllowFailClosed :: "ValkeyReply \<Rightarrow> AllowResult" where
  "AllowFailClosed r = allow True r"

text \<open>Requests of one key at the given times, while Valkey answers.\<close>

fun allow_run :: "int \<Rightarrow> int \<Rightarrow> zset expiring \<Rightarrow> int list \<Rightarrow> AllowResult list" where
  "allow_run window limit k [] = []"
| "allow_run window limit k (now # ts) =
     (let (k', r) = slidingWindow now window limit k in AllowFailClosed (Reply r) # allow_run window limit k' ts)"

text \<open>
  The specification: a request is allowed exactly when fewer than \<open>limit\<close> of the requests allowed so
  far lie in the window that ends with it.
\<close>

definition in_window :: "int \<Rightarrow> int \<Rightarrow> int list \<Rightarrow> int list" where
  "in_window window now ts = filter (\<lambda>t. now - window < t \<and> t \<le> now) ts"

fun spec_run :: "int \<Rightarrow> int \<Rightarrow> int list \<Rightarrow> int list \<Rightarrow> AllowResult list" where
  "spec_run window limit granted [] = []"
| "spec_run window limit granted (now # ts) =
     (let n = int (length (in_window window now granted)) in
      if n < limit then Answer True (limit - n - 1) # spec_run window limit (granted @ [now]) ts
      else Answer False 0 # spec_run window limit granted ts)"

fun granted_of :: "int list \<Rightarrow> AllowResult list \<Rightarrow> int list" where
  "granted_of (t # ts) (Answer True _ # rs) = t # granted_of ts rs"
| "granted_of (t # ts) (_ # rs) = granted_of ts rs"
| "granted_of _ _ = []"

subsection \<open>Members\<close>

lemma takeWhile_digits: "list_all is_digit d \<Longrightarrow> takeWhile is_digit (d @ ''-'' @ s) = d"
  by (induction d) (auto simp: is_digit_def)

lemma request_member_inj:
  assumes "request_member a i = request_member b j" "0 \<le> a" "0 \<le> b" "0 \<le> i" "0 \<le> j"
  shows "a = b \<and> i = j"
proof -
  have eq: "dec_digits a @ ''-'' @ dec_digits i = dec_digits b @ ''-'' @ dec_digits j"
    using assms by (simp add: request_member_def Itoa_def)
  then have 1: "dec_digits a = dec_digits b"
    using takeWhile_digits dec_digits_all assms(2,3) by metis
  then have "dec_digits i = dec_digits j" using eq by simp
  then show ?thesis using 1 dec_digits_val assms by metis
qed

subsection \<open>The window and its specification\<close>

text \<open>The part of the key that a request at time \<open>t\<close> counts.\<close>

definition window_of :: "int \<Rightarrow> int \<Rightarrow> zset expiring \<Rightarrow> zset" where
  "window_of window t k = ZREMRANGEBYSCORE (t - window) (live [] t k)"

text \<open>
  What the key holds from \<open>now\<close> on, when \<open>granted\<close> are the requests allowed so far: the granted times
  of the window, each under its own member, and no member of this instant that a next request could pick.
\<close>

definition window_ok :: "int \<Rightarrow> int \<Rightarrow> int list \<Rightarrow> zset expiring \<Rightarrow> bool" where
  "window_ok window now granted k \<longleftrightarrow>
    (\<forall>t \<ge> now. mset (map fst (window_of window t k)) = mset (filter (\<lambda>x. t - window < x) granted))
    \<and> (\<forall>x \<in> set granted. x \<le> now)
    \<and> (\<forall>e \<in> set (window_of window now k). \<exists>c. 0 \<le> c \<and> 0 \<le> fst e \<and> snd e = request_member (fst e) c
         \<and> (fst e = now \<longrightarrow> c < int (length (window_of window now k))))"

lemma window_ok_start: "window_ok window now [] None"
  by (simp add: window_ok_def window_of_def ZREMRANGEBYSCORE_def live_def)

lemma window_of_shrinks:
  "now \<le> t \<Longrightarrow> live [] t k = live [] now k \<or> live [] t k = []"
  by (auto simp: live_def split: option.splits if_splits)

lemma window_of_sub: "now \<le> t \<Longrightarrow> set (window_of window t k) \<subseteq> set (window_of window now k)"
  using window_of_shrinks [of now t k] by (auto simp: window_of_def ZREMRANGEBYSCORE_def)

lemma window_ok_later:
  assumes ok: "window_ok window now granted k" and le: "now \<le> t"
  shows "window_ok window t granted k"
proof (cases "now = t")
  case False
  have "fst e < t" if "e \<in> set (window_of window t k)" for e
  proof -
    have "fst e \<in> set (map fst (window_of window now k))" using window_of_sub [OF le] that by force
    then have "fst e \<in> set granted"
      using ok unfolding window_ok_def by (metis filter_is_subset order_refl set_mset_mset subsetD)
    then show ?thesis using ok le False by (auto simp: window_ok_def)
  qed
  then show ?thesis using ok le window_of_sub [OF le, of window k] unfolding window_ok_def by fastforce
qed (use ok in simp)

lemma window_count:
  assumes "window_ok window now granted k"
  shows "length (window_of window now k) = length (in_window window now granted)"
proof -
  have "filter (\<lambda>x. now - window < x) granted = in_window window now granted"
    using assms by (auto simp: window_ok_def in_window_def intro: filter_cong)
  then show ?thesis using assms unfolding window_ok_def by (metis length_map order_refl size_mset)
qed

lemma window_of_Some: "window_of window t (Some (z, e)) = (if t < e then ZREMRANGEBYSCORE (t - window) z else [])"
  by (simp add: window_of_def live_def ZREMRANGEBYSCORE_def)

lemma window_again:
  assumes "now \<le> t"
  shows "ZREMRANGEBYSCORE (t - window) (window_of window now k) = ZREMRANGEBYSCORE (t - window) (live [] now k)"
  using assms by (auto simp: window_of_def ZREMRANGEBYSCORE_def intro: filter_cong)

lemma denied_ok:
  assumes "window_ok window now granted k" "limit \<le> int (length (window_of window now k))"
  shows "window_ok window now granted (fst (slidingWindow now window limit k))"
proof -
  let ?k = "fst (slidingWindow now window limit k)"
  have k': "?k = (if window_of window now k = [] then None
       else Some (window_of window now k, (case k of None \<Rightarrow> 0 | Some (_, e) \<Rightarrow> e)))"
    using assms(2) by (simp add: slidingWindow_def window_of_def Let_def)
  have "window_of window t ?k = window_of window t k" if t: "now \<le> t" for t
  proof (cases "window_of window now k = []")
    case True
    then have "window_of window t k = []" using window_of_sub [OF t, of window k] by simp
    then show ?thesis using True by (simp add: k' window_of_def live_def ZREMRANGEBYSCORE_def)
  next
    case False
    then obtain v e where k: "k = Some (v, e)" "now < e"
      by (cases k) (auto simp: window_of_def live_def ZREMRANGEBYSCORE_def split: if_splits)
    then have "?k = Some (window_of window now k, e)" using k' False by simp
    then show ?thesis using k window_again [OF t, of window k] by (simp add: window_of_Some live_def)
  qed
  then show ?thesis using assms(1) by (simp add: window_ok_def)
qed

lemma mset_scores: "mset (map fst (ZREMRANGEBYSCORE hi z)) = filter_mset (\<lambda>x. hi < x) (mset (map fst z))"
  by (induction z) (auto simp: ZREMRANGEBYSCORE_def)

lemma allowed_ok:
  assumes ok: "window_ok window now granted k" and "int (length (window_of window now k)) < limit"
    and "0 \<le> now" "0 < window"
  shows "window_ok window now (granted @ [now]) (fst (slidingWindow now window limit k))"
proof -
  let ?z = "window_of window now k"
  let ?m = "request_member now (int (length ?z))"
  let ?k = "fst (slidingWindow now window limit k)"
  note mem = ok [unfolded window_ok_def, THEN conjunct2, THEN conjunct2, rule_format]
  have new: "?m \<noteq> snd e" if "e \<in> set ?z" for e
  proof
    assume eq: "?m = snd e"
    from mem [OF that] obtain c where c: "0 \<le> c" "0 \<le> fst e" "snd e = request_member (fst e) c" "fst e = now \<longrightarrow> c < int (length ?z)"
      by blast
    then show False using request_member_inj [of now "int (length ?z)" "fst e" c] eq assms(3) by auto
  qed
  then have "ZADD now ?m ?z = insort (now, ?m) ?z" by (intro ZADD_fresh) auto
  then have k': "?k = Some (insort (now, ?m) ?z, now + window)"
    using assms(2) by (simp add: slidingWindow_def window_of_def Let_def)
  have z: "mset (map fst ?z) = filter_mset (\<lambda>x. now - window < x) (mset granted)"
    and le: "\<forall>x \<in> set granted. x \<le> now"
    using ok unfolding window_ok_def by auto
  have cont: "mset (map fst (window_of window t ?k)) = mset (filter (\<lambda>x. t - window < x) (granted @ [now]))"
    if t: "now \<le> t" for t
  proof (cases "t < now + window")
    case True
    have "mset (map fst (insort (now, ?m) ?z)) = add_mset now (mset (map fst ?z))" by simp
    moreover have "filter_mset (\<lambda>x. t - window < x) (mset (map fst ?z)) = filter_mset (\<lambda>x. t - window < x) (mset granted)"
      unfolding z using t by (auto simp: filter_filter_mset intro!: filter_mset_cong)
    ultimately show ?thesis using True by (simp only: k' window_of_Some if_True mset_scores) simp
  next
    case False
    then have "filter (\<lambda>x. t - window < x) (granted @ [now]) = []" using le by (auto simp: filter_empty_conv)
    then show ?thesis using False by (simp add: k' window_of_Some)
  qed
  have all: "window_of window now ?k = insort (now, ?m) ?z"
  proof -
    have "\<forall>e \<in> set ?z. now - window < fst e" by (simp add: window_of_def ZREMRANGEBYSCORE_def)
    then have "ZREMRANGEBYSCORE (now - window) (insort (now, ?m) ?z) = insort (now, ?m) ?z"
      using assms(4) by (simp add: ZREMRANGEBYSCORE_def filter_id_conv set_insort_key)
    then show ?thesis using assms(4) by (simp add: k' window_of_Some)
  qed
  have "\<exists>c. 0 \<le> c \<and> 0 \<le> fst e \<and> snd e = request_member (fst e) c
         \<and> (fst e = now \<longrightarrow> c < int (length (window_of window now ?k)))" if "e \<in> set (window_of window now ?k)" for e
  proof (cases "e = (now, ?m)")
    case True
    then show ?thesis using assms(3) by (intro exI [of _ "int (length ?z)"]) (simp add: all)
  next
    case False
    then have "e \<in> set ?z" using that by (simp add: all set_insort_key)
    then show ?thesis using mem by (fastforce simp: all)
  qed
  then show ?thesis using cont le unfolding window_ok_def by auto
qed

lemma allow_run_spec:
  assumes "window_ok window p granted k" "sorted (p # ts)" "\<forall>t \<in> set ts. 0 \<le> t" "0 < window"
  shows "allow_run window limit k ts = spec_run window limit granted ts"
  using assms
proof (induction ts arbitrary: p granted k)
  case (Cons now ts)
  have ok: "window_ok window now granted k" using window_ok_later [OF Cons.prems(1)] Cons.prems(2) by simp
  have srt: "sorted (now # ts)" "\<forall>t \<in> set ts. 0 \<le> t" "0 \<le> now" using Cons.prems by auto
  let ?n = "int (length (in_window window now granted))"
  have n: "int (length (ZREMRANGEBYSCORE (now - window) (live [] now k))) = ?n"
    using window_count [OF ok] by (simp add: window_of_def)
  show ?case
  proof (cases "?n < limit")
    case True
    have "window_ok window now (granted @ [now]) (fst (slidingWindow now window limit k))"
      using allowed_ok [OF ok _ srt(3) Cons.prems(4)] True window_count [OF ok] by simp
    from Cons.IH [OF this srt(1,2) Cons.prems(4)] True show ?thesis
      by (simp add: case_prod_beta AllowFailClosed_def allow_def) (simp add: slidingWindow_def n Let_def)
  next
    case False
    have "window_ok window now granted (fst (slidingWindow now window limit k))"
      using denied_ok [OF ok] False window_count [OF ok] by simp
    from Cons.IH [OF this srt(1,2) Cons.prems(4)] False show ?thesis
      by (simp add: case_prod_beta AllowFailClosed_def allow_def) (simp add: slidingWindow_def n Let_def)
  qed
qed simp

lemma spec_run_bound:
  assumes "\<forall>T. int (length (in_window window T granted)) \<le> limit" "\<forall>x \<in> set granted. x \<le> p"
    "sorted (p # ts)" "0 < limit"
  shows "int (length (in_window window T (granted @ granted_of ts (spec_run window limit granted ts)))) \<le> limit"
  using assms
proof (induction ts arbitrary: granted p)
  case (Cons now ts)
  let ?n = "int (length (in_window window now granted))"
  have srt: "sorted (now # ts)" "\<forall>x \<in> set granted. x \<le> now" using Cons.prems by auto
  show ?case
  proof (cases "?n < limit")
    case True
    have "int (length (in_window window t (granted @ [now]))) \<le> limit" for t
    proof (cases "t - window < now \<and> now \<le> t")
      case c: True
      have "in_window window t granted = filter (\<lambda>x. t - window < x) (in_window window now granted)"
        using srt(2) c by (auto simp: in_window_def intro!: filter_cong)
      then have "length (in_window window t granted) \<le> length (in_window window now granted)" by simp
      then show ?thesis using True by (simp add: in_window_def)
    next
      case False
      then show ?thesis using Cons.prems(1) by (auto simp: in_window_def)
    qed
    from Cons.IH [OF allI [OF this] _ srt(1) Cons.prems(4)] srt(2) True show ?thesis by simp
  next
    case False
    then show ?thesis using Cons.IH [OF Cons.prems(1) srt(2,1) Cons.prems(4)] by simp
  qed
qed simp

text \<open>
  C32 (refinement).  While the clock does not run backwards, the sorted set with its expiry and its
  invented member names answers every request, decision and remaining count alike, as the specification
  does: allowed exactly when fewer than the limit of the allowed ones lie in the window that ends with it.
  So no window of that length, wherever it lies, ever holds more than the limit.
\<close>

theorem Allow_sliding_window:
  assumes "sorted ts" "\<forall>t \<in> set ts. 0 \<le> t" "0 < window" "0 < limit"
  shows "allow_run window limit None ts = spec_run window limit [] ts
    \<and> int (length (in_window window T (granted_of ts (allow_run window limit None ts)))) \<le> limit"
proof (cases ts)
  case (Cons x xs)
  have srt: "sorted (x # ts)" using assms(1) Cons by simp
  have eq: "allow_run window limit None ts = spec_run window limit [] ts"
    by (rule allow_run_spec [OF window_ok_start srt assms(2,3)])
  show ?thesis unfolding eq using spec_run_bound [OF _ _ srt assms(4), of window "[]" T] assms(4)
    by (simp add: in_window_def)
qed (use assms(4) in \<open>simp add: in_window_def\<close>)

theorem Allow_sliding_window_witness:
  "allow_run 1000 2 None [5, 5, 7, 1005, 1006] =
     [Answer True 1, Answer True 0, Answer False 0, Answer True 1, Answer True 0]"
proof -
  have "sorted [5 :: int, 5, 7, 1005, 1006]" by simp
  from Allow_sliding_window [OF this, of 1000 2] show ?thesis by (simp add: in_window_def)
qed

text \<open>
  The proviso matters: an instance whose clock lags can pick a member name that is already in the set,
  and its request is then allowed without being counted, any number of times.
\<close>

lemma Allow_clock_lag:
  "allow_run 10 3 None ([1, 2, 5, 13] @ replicate 5 5) = map (Answer True) [2, 1, 0, 1, 0, 0, 0, 0, 0]"
  by code_simp

section \<open>The failure throttle\<close>

definition failurePendingTTL :: int where
  "failurePendingTTL = 60 * 1000"

text \<open>The two keys of one throttled identity.\<close>

record FailureKeys =
  fk_counter :: "int expiring"
  fk_pending :: "zset expiring"

definition no_failures :: FailureKeys where
  "no_failures = \<lparr>fk_counter = None, fk_pending = None\<rparr>"

text \<open>\<open>failureReserveScript\<close>: the keys after it and the slots in use before, -1 when refused.\<close>

definition failureReserve :: "int \<Rightarrow> int \<Rightarrow> int \<Rightarrow> string \<Rightarrow> FailureKeys \<Rightarrow> FailureKeys \<times> int" where
  "failureReserve limit now ttl member f =
    (let z = ZREMRANGEBYSCORE now (live [] now (fk_pending f));
         ex = (case fk_pending f of None \<Rightarrow> 0 | Some (_, e) \<Rightarrow> e);
         used = live 0 now (fk_counter f) + int (length z)
     in if limit \<le> used then (f\<lparr>fk_pending := (if z = [] then None else Some (z, ex))\<rparr>, -1)
        else (f\<lparr>fk_pending := Some (ZADD (now + ttl) member z, now + ttl)\<rparr>, used))"

text \<open>\<open>failureCommitScript\<close>.\<close>

definition failureCommit :: "int \<Rightarrow> int \<Rightarrow> FailureKeys \<Rightarrow> FailureKeys" where
  "failureCommit now window f =
    f\<lparr>fk_counter := Some (live 0 now (fk_counter f) + 1, now + window),
      fk_pending := (case fk_pending f of
         None \<Rightarrow> None
       | Some (z, e) \<Rightarrow> if now < e \<and> ZPOPMIN z \<noteq> [] then Some (ZPOPMIN z, e) else None)\<rparr>"

text \<open>
  The four operations; \<^const>\<open>None\<close> for the reservation id is a failed read of the random source.  When
  Valkey is down the keys stay as they are.
\<close>

definition CheckFailures :: "int \<Rightarrow> int \<Rightarrow> string option \<Rightarrow> bool \<Rightarrow> bool \<Rightarrow> FailureKeys \<Rightarrow> FailureKeys \<times> AllowResult" where
  "CheckFailures limit now member up canceled f =
    (case member of
       None \<Rightarrow> (f, Failed)
     | Some m \<Rightarrow>
         if \<not> up then (f, if canceled then Failed else Answer True 0)
         else (let (f', res) = failureReserve limit now failurePendingTTL m f in (f', Answer (0 \<le> res) 0)))"

definition IncrFailure :: "int \<Rightarrow> int \<Rightarrow> bool \<Rightarrow> FailureKeys \<Rightarrow> FailureKeys" where
  "IncrFailure now window up f = (if up then failureCommit now window f else f)"

definition ResetFailures :: "bool \<Rightarrow> FailureKeys \<Rightarrow> FailureKeys" where
  "ResetFailures up f = (if up then no_failures else f)"

definition Failures :: "int \<Rightarrow> FailureKeys \<Rightarrow> int" where
  "Failures now f = live 0 now (fk_counter f)"

subsection \<open>Guesses\<close>

text \<open>
  Attempts against one identity: a guess asks for a slot under a fresh reservation id, and a wrong one is
  committed some time later, in any order.
\<close>

datatype FailureEvent = Guess int string | Wrong int

fun event_time :: "FailureEvent \<Rightarrow> int" where
  "event_time (Guess t _) = t"
| "event_time (Wrong t) = t"

text \<open>The state after the events, how many guesses were let through and how many reservations aged out.\<close>

definition aged_out :: "int \<Rightarrow> FailureKeys \<Rightarrow> int" where
  "aged_out now f = (case fk_pending f of None \<Rightarrow> 0
     | Some (z, _) \<Rightarrow> int (length z) - int (length (ZREMRANGEBYSCORE now (live [] now (fk_pending f)))))"

definition guess_step :: "int \<Rightarrow> int \<Rightarrow> FailureEvent \<Rightarrow> FailureKeys \<times> int \<times> int \<Rightarrow> FailureKeys \<times> int \<times> int" where
  "guess_step limit window e c =
    (case (e, c) of
       (Guess now m, f, granted, aged) \<Rightarrow>
         (case CheckFailures limit now (Some m) True False f of
            (f', Answer True _) \<Rightarrow> (f', granted + 1, aged + aged_out now f)
          | (f', _) \<Rightarrow> (f', granted, aged + aged_out now f))
     | (Wrong now, f, granted, aged) \<Rightarrow>
         (IncrFailure now window True f, granted,
          aged + (case fk_pending f of None \<Rightarrow> 0 | Some (z, ex) \<Rightarrow> if now < ex then 0 else int (length z))))"

definition guess_run :: "int \<Rightarrow> int \<Rightarrow> FailureEvent list \<Rightarrow> FailureKeys \<times> int \<times> int" where
  "guess_run limit window es = foldl (\<lambda>c e. guess_step limit window e c) (no_failures, 0, 0) es"

definition stored :: "FailureKeys \<Rightarrow> zset" where
  "stored f = (case fk_pending f of None \<Rightarrow> [] | Some (z, _) \<Rightarrow> z)"

text \<open>
  Every guess let through is still accounted for: as a committed failure, as a reservation, or as one
  that aged out.  \<open>t0\<close> is the start of the stretch, \<open>used\<close> the reservation ids so far.
\<close>

definition throttle_ok :: "int \<Rightarrow> int \<Rightarrow> int \<Rightarrow> string set \<Rightarrow> FailureKeys \<times> int \<times> int \<Rightarrow> bool" where
  "throttle_ok limit window t0 used c \<longleftrightarrow>
    (case c of (f, granted, aged) \<Rightarrow>
      granted \<le> live 0 t0 (fk_counter f) + int (length (stored f)) + aged \<and> granted \<le> limit + aged \<and> 0 \<le> aged
      \<and> (\<forall>n ex. fk_counter f = Some (n, ex) \<longrightarrow> t0 + window \<le> ex)
      \<and> snd ` set (stored f) \<subseteq> used)"

lemma throttle_counter:
  assumes "\<forall>n ex. fk_counter f = Some (n, ex) \<longrightarrow> t0 + window \<le> ex" "t0 \<le> now" "now < t0 + window"
  shows "live 0 now (fk_counter f) = live 0 t0 (fk_counter f)"
  using assms by (cases "fk_counter f") (auto simp: live_def)

lemma length_purged: "length (ZREMRANGEBYSCORE now (live [] now (fk_pending f))) \<le> length (stored f)"
  by (auto simp: stored_def live_def ZREMRANGEBYSCORE_def split: option.splits)

lemma aged_out_eq:
  "aged_out now f = int (length (stored f)) - int (length (ZREMRANGEBYSCORE now (live [] now (fk_pending f))))"
  by (auto simp: aged_out_def stored_def live_def ZREMRANGEBYSCORE_def split: option.splits)

lemma guess_ok:
  assumes ok: "throttle_ok limit window t0 used (f, granted, aged)" and t: "t0 \<le> now" "now < t0 + window"
    and m: "m \<notin> used" and lim: "0 \<le> limit"
  shows "throttle_ok limit window t0 (insert m used) (guess_step limit window (Guess now m) (f, granted, aged))"
proof -
  let ?z = "ZREMRANGEBYSCORE now (live [] now (fk_pending f))"
  have c: "live 0 now (fk_counter f) = live 0 t0 (fk_counter f)"
    using throttle_counter [OF _ t] ok by (auto simp: throttle_ok_def)
  have "set ?z \<subseteq> set (stored f)" by (auto simp: stored_def live_def ZREMRANGEBYSCORE_def split: option.splits)
  then have sub: "snd ` set ?z \<subseteq> used" using ok unfolding throttle_ok_def prod.case by blast
  have "m \<notin> snd ` set ?z" using sub m by blast
  note add = ZADD_fresh [OF this, of "now + failurePendingTTL"]
  have z: "length (ZADD (now + failurePendingTTL) m ?z) = Suc (length ?z)"
    "snd ` set (ZADD (now + failurePendingTTL) m ?z) \<subseteq> insert m used"
    using sub unfolding add by (simp_all add: set_insort_key subset_insertI2)
  note facts = ok [unfolded throttle_ok_def prod.case] aged_out_eq [of now f] length_purged [of now f] c sub z
  show ?thesis
  proof (cases "limit \<le> live 0 t0 (fk_counter f) + int (length ?z)")
    case True
    then have "guess_step limit window (Guess now m) (f, granted, aged) =
        (f\<lparr>fk_pending := (if ?z = [] then None else Some (?z, (case fk_pending f of None \<Rightarrow> 0 | Some (_, e) \<Rightarrow> e)))\<rparr>,
         granted, aged + aged_out now f)"
      by (simp add: guess_step_def CheckFailures_def failureReserve_def c Let_def)
    then show ?thesis using facts by (auto simp: throttle_ok_def stored_def)
  next
    case False
    then have "guess_step limit window (Guess now m) (f, granted, aged) =
        (f\<lparr>fk_pending := Some (ZADD (now + failurePendingTTL) m ?z, now + failurePendingTTL)\<rparr>,
         granted + (if 0 \<le> live 0 t0 (fk_counter f) + int (length ?z) then 1 else 0), aged + aged_out now f)"
      by (auto simp: guess_step_def CheckFailures_def failureReserve_def c Let_def)
    then show ?thesis using facts False by (auto simp: throttle_ok_def stored_def)
  qed
qed

lemma wrong_ok:
  assumes ok: "throttle_ok limit window t0 used (f, granted, aged)" and t: "t0 \<le> now" "now < t0 + window"
  shows "throttle_ok limit window t0 used (guess_step limit window (Wrong now) (f, granted, aged))"
proof -
  have c: "live 0 now (fk_counter f) = live 0 t0 (fk_counter f)"
    using throttle_counter [OF _ t] ok by (auto simp: throttle_ok_def)
  let ?lost = "case fk_pending f of None \<Rightarrow> 0 | Some (z, ex) \<Rightarrow> if now < ex then 0 else int (length z)"
  let ?f = "failureCommit now window f"
  have step: "guess_step limit window (Wrong now) (f, granted, aged) = (?f, granted, aged + ?lost)"
    by (simp add: guess_step_def IncrFailure_def)
  have cnt: "fk_counter ?f = Some (live 0 t0 (fk_counter f) + 1, now + window)"
    by (simp add: failureCommit_def c)
  have tl_short: "tl z = [] \<Longrightarrow> length z \<le> Suc 0" "x \<in> set (tl z) \<Longrightarrow> x \<in> set z" for z :: zset and x
    by (cases z; simp)+
  have pend: "int (length (stored f)) \<le> int (length (stored ?f)) + ?lost + 1" "0 \<le> ?lost"
    and sub: "set (stored ?f) \<subseteq> set (stored f)"
    using tl_short by (auto simp: failureCommit_def stored_def ZPOPMIN_def split: option.splits)
  have "snd ` set (stored ?f) \<subseteq> used" using sub ok unfolding throttle_ok_def prod.case by blast
  moreover have "t0 < now + window" using t by simp
  ultimately show ?thesis
    using ok t cnt pend unfolding step throttle_ok_def prod.case by (auto simp: live_def)
qed

definition event_ids :: "FailureEvent list \<Rightarrow> string list" where
  "event_ids es = List.map_filter (\<lambda>e. case e of Guess _ m \<Rightarrow> Some m | Wrong _ \<Rightarrow> None) es"

lemma guess_run_ok:
  assumes "throttle_ok limit window t0 used c" "\<forall>e \<in> set es. t0 \<le> event_time e \<and> event_time e < t0 + window"
    "distinct (event_ids es)" "set (event_ids es) \<inter> used = {}" "0 \<le> limit"
  shows "\<exists>used'. throttle_ok limit window t0 used' (foldl (\<lambda>c e. guess_step limit window e c) c es)"
  using assms
proof (induction es arbitrary: c used)
  case (Cons e es)
  obtain f granted aged where c: "c = (f, granted, aged)" by (cases c)
  show ?case
  proof (cases e)
    case (Guess now m)
    have "throttle_ok limit window t0 (insert m used) (guess_step limit window e c)"
      using Cons.prems guess_ok [of limit window t0 used f granted aged now m] by (simp add: Guess c event_ids_def map_filter_simps)
    then show ?thesis using Cons by (auto simp: Guess event_ids_def map_filter_simps)
  next
    case (Wrong now)
    have "throttle_ok limit window t0 used (guess_step limit window e c)"
      using Cons.prems wrong_ok [of limit window t0 used f granted aged now] by (simp add: Wrong c)
    then show ?thesis using Cons by (auto simp: Wrong event_ids_def map_filter_simps)
  qed
qed auto

text \<open>
  In any stretch no longer than the failure window and without a success, however many
  guesses race each other and in whatever order the wrong ones are recorded, the throttle lets through at
  most the limit, plus one for every reservation whose credential check outlived a minute.
\<close>

theorem CheckFailures_bound:
  assumes "\<forall>e \<in> set es. t0 \<le> event_time e \<and> event_time e < t0 + window" "distinct (event_ids es)" "0 \<le> limit"
    and "guess_run limit window es = (f, granted, aged)"
  shows "granted \<le> limit + aged"
proof -
  have "throttle_ok limit window t0 {} (no_failures, 0, 0)"
    using assms(3) by (simp add: throttle_ok_def no_failures_def stored_def live_def)
  from guess_run_ok [OF this assms(1,2) _ assms(3)] assms(4) show ?thesis
    by (auto simp: guess_run_def throttle_ok_def)
qed

theorem CheckFailures_bound_witness:
  "fst (snd (guess_run 2 900000 [Guess 0 ''a'', Guess 0 ''b'', Guess 1 ''c'', Wrong 2, Guess 3 ''d''])) = 2
   \<and> snd (snd (guess_run 2 900000 [Guess 0 ''a'', Guess 0 ''b'', Guess 1 ''c'', Wrong 2, Guess 3 ''d''])) = 0"
proof -
  let ?es = "[Guess 0 ''a'', Guess 0 ''b'', Guess 1 ''c'', Wrong 2, Guess 3 ''d'']"
  obtain f g a where r: "guess_run 2 900000 ?es = (f, g, a)" by (cases "guess_run 2 900000 ?es") auto
  have "g \<le> 2 + a"
    by (rule CheckFailures_bound [OF _ _ _ r, of 0]) (auto simp: event_ids_def map_filter_simps)
  moreover have "fst (snd (guess_run 2 900000 ?es)) = 2 \<and> snd (snd (guess_run 2 900000 ?es)) = 0" by code_simp
  ultimately show ?thesis by blast
qed

end
