(* ===== verification/Playlist.thy ===== *)
theory Playlist
  imports Worker GoText
begin

text \<open>
  Continuing an HLS session past a defect of its source (\<open>internal/transcode/continuation.go\<close>): reading
  and stitching media playlists, and \<open>continueShortSession\<close>, which restarts ffmpeg behind the defect and
  folds the new segments into the playlist the player is polling.

  A playlist is the text of its file.  What the outside does in one attempt (the files it finds, the
  session store's answer, the ffmpeg run) is the record \<open>Attempt\<close>.
\<close>

section \<open>Lines of a media playlist\<close>

definition shortCompletionMarginSec :: rat where
  "shortCompletionMarginSec = 12"

definition continuationSkipStepSec :: rat where
  "continuationSkipStepSec = 4"

definition maxContinuationSkipSec :: rat where
  "maxContinuationSkipSec = 60"

definition maxContinuations :: nat where
  "maxContinuations = 24"

definition shortOfSource :: "rat \<Rightarrow> rat \<Rightarrow> bool" where
  "shortOfSource producedEnd sourceDur \<longleftrightarrow>
    0 < sourceDur \<and> producedEnd < fsub sourceDur shortCompletionMarginSec"

definition continuationSkip :: "bool \<Rightarrow> rat \<Rightarrow> rat \<times> bool" where
  "continuationSkip progressed currentSkip =
    (if progressed then (0, False)
     else let n = fadd currentSkip continuationSkipStepSec in (n, maxContinuationSkipSec < n))"

definition endlist :: string where
  "endlist = ''#EXT-X-ENDLIST''"

definition discontinuity :: string where
  "discontinuity = ''#EXT-X-DISCONTINUITY''"

definition playlistGlobalTags :: "string list" where
  "playlistGlobalTags = [''#EXTM3U'', ''#EXT-X-VERSION'', ''#EXT-X-TARGETDURATION'', ''#EXT-X-MEDIA-SEQUENCE'',
     ''#EXT-X-PLAYLIST-TYPE'', ''#EXT-X-INDEPENDENT-SEGMENTS'', endlist]"

definition playlistTag :: "string \<Rightarrow> string" where
  "playlistTag line =
    (if \<not> HasPrefix line ''#'' then []
     else case Cut line '':'' of Some (a, _) \<Rightarrow> a | None \<Rightarrow> line)"

definition extinf_sec :: "string \<Rightarrow> rat option" where
  "extinf_sec raw =
    (let line = TrimSpace raw in
     case CutPrefix line ''#EXTINF:'' of
       None \<Rightarrow> None
     | Some v \<Rightarrow> ParseFloat (TrimSpace (case Cut v '','' of Some (a, _) \<Rightarrow> a | None \<Rightarrow> v)))"

definition playlistDurationSec :: "string \<Rightarrow> rat" where
  "playlistDurationSec pl = foldl fadd 0 (List.map_filter extinf_sec (scan_lines pl))"

definition extractSegmentBody :: "string \<Rightarrow> string list" where
  "extractSegmentBody pl =
    filter (\<lambda>l. TrimSpace l \<noteq> [] \<and> playlistTag (TrimSpace l) \<notin> set playlistGlobalTags) (scan_lines pl)"

definition stitch_lines :: "string list \<Rightarrow> string list \<Rightarrow> bool \<Rightarrow> string list" where
  "stitch_lines lines body ended =
    (let kept = filter (\<lambda>l. TrimSpace l \<noteq> endlist) lines;
         kept = rev (dropWhile (\<lambda>l. TrimSpace l = []) (rev kept));
         kept = (if body \<noteq> [] then kept @ [discontinuity] @ body else kept)
     in if ended then kept @ [endlist] else kept)"

definition stitchPlaylist :: "string \<Rightarrow> string list \<Rightarrow> bool \<Rightarrow> string" where
  "stitchPlaylist prefix contBody ended =
    Join (stitch_lines (Split (TrimRight newline prefix) newline) contBody ended) [newline] @ [newline]"

section \<open>Continuing a short session\<close>

record Attempt =
  at_readable :: bool                 \<comment> \<open>\<open>index.m3u8\<close> could be read\<close>
  at_alive :: bool                    \<comment> \<open>the session store still has the session\<close>
  at_strip_ok :: bool                 \<comment> \<open>the stripped playlist could be written\<close>
  at_entries :: "string list option"  \<comment> \<open>the session directory\<close>
  at_stitched :: "string option"      \<comment> \<open>\<open>cont.m3u8\<close> at the last write of the stitching goroutine\<close>
  at_exited :: bool                   \<comment> \<open>ffmpeg ended by itself\<close>
  at_cont :: "string option"          \<comment> \<open>\<open>cont.m3u8\<close> when ffmpeg is done\<close>
  at_fold_ok :: bool                  \<comment> \<open>the merged playlist could be written\<close>

text \<open>
  The loop from attempt \<open>k\<close> on, \<open>n\<close> attempts left, with the current \<open>index.m3u8\<close>.  It yields the
  playlist it leaves and the runs it started, as (seek position, first segment number).
\<close>

fun continue_loop ::
  "rat \<Rightarrow> rat \<Rightarrow> string \<Rightarrow> (nat \<Rightarrow> Attempt) \<Rightarrow> nat \<Rightarrow> nat \<Rightarrow> rat \<Rightarrow> string \<Rightarrow> string \<times> (rat \<times> int) list" where
  "continue_loop start sourceDur segExt att k 0 skip pl = (pl, [])"
| "continue_loop start sourceDur segExt att k (Suc n) skip pl =
    (let a = att k;
         producedEnd = fadd start (playlistDurationSec pl)
     in if \<not> at_readable a \<or> \<not> shortOfSource producedEnd sourceDur \<or> \<not> at_alive a \<or> \<not> at_strip_ok a
        then (pl, [])
        else
          let prefix = stitchPlaylist pl [] False;
              run = (fadd producedEnd skip, HighestSegmentIndex (at_entries a) segExt + 1);
              shown = (case at_stitched a of
                         None \<Rightarrow> prefix | Some b \<Rightarrow> stitchPlaylist prefix (extractSegmentBody b) False);
              body = extractSegmentBody (case at_cont a of None \<Rightarrow> [] | Some b \<Rightarrow> b);
              merged = stitchPlaylist prefix body False;
              index = (if at_fold_ok a then merged else shown);
              newProduced = fadd start (playlistDurationSec merged);
              (skip', giveUp) = continuationSkip (fadd producedEnd 1 < newProduced) skip
          in if \<not> at_exited a then (shown, [run])
             else if giveUp then (index, [run])
             else let (pl', runs) = continue_loop start sourceDur segExt att (Suc k) n skip' index in (pl', run # runs))"

text \<open>
  The whole function.  \<open>first_ok\<close>: the write that strips a final ENDLIST; \<open>close_ok\<close>: the deferred write
  at the end.  The length of a stacked source comes from the job, that of any other from the probe.
\<close>

definition close_playlist :: "bool \<Rightarrow> string \<Rightarrow> string" where
  "close_playlist close_ok pl =
    (if \<not> Contains pl endlist \<and> close_ok then TrimRight newline pl @ [newline] @ endlist @ [newline] else pl)"

definition source_duration :: "SourcePart list \<Rightarrow> rat \<Rightarrow> rat" where
  "source_duration parts probed = (if length parts > 1 then PartsDurationSec parts else probed)"

definition continueShortSession ::
  "rat \<Rightarrow> SourcePart list \<Rightarrow> rat \<Rightarrow> string \<Rightarrow> (nat \<Rightarrow> Attempt) \<Rightarrow> bool \<Rightarrow> bool \<Rightarrow> string \<Rightarrow> string \<times> (rat \<times> int) list" where
  "continueShortSession start parts probed segExt att first_ok close_ok pl0 =
    (if Contains pl0 endlist \<and> \<not> first_ok then (pl0, [])
     else
       let pl = (if Contains pl0 endlist then stitchPlaylist pl0 [] False else pl0);
           sourceDur = source_duration parts probed;
           (pl', runs) = (if sourceDur \<le> 0 then (pl, [])
                          else continue_loop start sourceDur segExt att 1 maxContinuations 0 pl)
       in (close_playlist close_ok pl', runs))"

section \<open>What the player sees\<close>

text \<open>A playlist file with the given lines, and the lines that may stand in one before it is ended.\<close>

definition render :: "string list \<Rightarrow> string" where
  "render ls = Join ls [newline] @ [newline]"

definition open_lines :: "string list \<Rightarrow> bool" where
  "open_lines ls \<longleftrightarrow> ls \<noteq> [] \<and> TrimSpace (last ls) \<noteq> []
     \<and> (\<forall>l \<in> set ls. newline \<notin> set l \<and> \<not> Contains l endlist)"

definition block :: "string list \<Rightarrow> string list" where
  "block body = (if body = [] then [] else discontinuity # body)"

lemma TrimSpace_sub: "Contains l (TrimSpace l)"
proof -
  have "\<exists>u v. l = u @ TrimSpace l @ v"
    unfolding TrimSpace_def TrimRightBy_def TrimLeftBy_def
    by (metis rev_append rev_rev_ident takeWhile_dropWhile_id)
  then show ?thesis by (simp add: Contains_iff)
qed

lemma render_lines:
  assumes "open_lines ls"
  shows "TrimRight newline (render ls) = Join ls [newline]" "Split (Join ls [newline]) newline = ls"
proof -
  have "last ls \<noteq> []" using assms by (auto simp: open_lines_def TrimSpace_def TrimRightBy_def TrimLeftBy_def)
  then have "Join ls [newline] \<noteq> []" "last (Join ls [newline]) = last (last ls)"
    using assms Join_last by (auto simp: open_lines_def)
  moreover have "last (last ls) \<noteq> newline"
    using assms \<open>last ls \<noteq> []\<close> unfolding open_lines_def by (metis last_in_set)
  ultimately show "TrimRight newline (render ls) = Join ls [newline]"
    by (simp add: render_def TrimRight_snoc TrimRight_id)
  show "Split (Join ls [newline]) newline = ls"
    using assms by (intro Split_Join) (auto simp: open_lines_def)
qed

lemma render_open: "open_lines ls \<Longrightarrow> \<not> Contains (render ls) endlist"
proof -
  assume ls: "open_lines ls"
  have e: "newline \<notin> set endlist" "endlist \<noteq> []" by (simp_all add: endlist_def)
  then have "\<not> Contains [] endlist" by (simp add: Contains_iff)
  then show ?thesis using ls Contains_newline [OF e, of "Join ls [newline]" "[]"] Contains_Join [OF e, of ls]
    by (auto simp: render_def open_lines_def)
qed

lemma open_kept:
  assumes "open_lines ls"
  shows "filter (\<lambda>l. TrimSpace l \<noteq> endlist) ls = ls" "rev (dropWhile (\<lambda>l. TrimSpace l = []) (rev ls)) = ls"
proof -
  have "TrimSpace l \<noteq> endlist" if "l \<in> set ls" for l
    using assms that TrimSpace_sub [of l] unfolding open_lines_def by metis
  then show "filter (\<lambda>l. TrimSpace l \<noteq> endlist) ls = ls" by (simp add: filter_id_conv)
  show "rev (dropWhile (\<lambda>l. TrimSpace l = []) (rev ls)) = ls"
    using assms by (cases ls rule: rev_cases) (auto simp: open_lines_def)
qed

lemma stitch_open:
  assumes "open_lines ls"
  shows "stitchPlaylist (render ls) body False = render (ls @ block body)"
proof -
  have "stitch_lines ls body False = ls @ block body"
    by (simp add: stitch_lines_def Let_def block_def open_kept [OF assms])
  then show ?thesis using render_lines [OF assms] by (simp add: stitchPlaylist_def render_def)
qed

lemma stitch_ended:
  assumes "open_lines ls"
  shows "stitchPlaylist (render (ls @ [endlist])) [] False = render ls"
proof -
  have ne: "ls \<noteq> []" using assms by (simp add: open_lines_def)
  have "TrimRight newline (render (ls @ [endlist])) = Join (ls @ [endlist]) [newline]"
    using Join_last [of "ls @ [endlist]" "[newline]"]
    by (simp add: render_def TrimRight_snoc TrimRight_id endlist_def)
  moreover have "Split (Join (ls @ [endlist]) [newline]) newline = ls @ [endlist]"
    using assms by (intro Split_Join) (auto simp: open_lines_def endlist_def)
  moreover have "TrimSpace endlist = endlist" by code_simp
  ultimately show ?thesis
    by (simp add: stitchPlaylist_def stitch_lines_def Let_def render_def open_kept [OF assms])
qed

lemma extract_lines:
  "l \<in> set (extractSegmentBody pl) \<Longrightarrow> newline \<notin> set l \<and> TrimSpace l \<noteq> []"
  using scan_lines_plain by (auto simp: extractSegmentBody_def)

lemma block_open:
  assumes "open_lines ls" "\<forall>l \<in> set body. newline \<notin> set l \<and> TrimSpace l \<noteq> [] \<and> \<not> Contains l endlist"
  shows "open_lines (ls @ block body)"
proof -
  have "newline \<notin> set discontinuity \<and> TrimSpace discontinuity \<noteq> [] \<and> \<not> Contains discontinuity endlist" by code_simp
  then show ?thesis using assms by (auto simp: open_lines_def block_def)
qed

text \<open>What ffmpeg writes into \<open>cont.m3u8\<close> may hold an ENDLIST line, but no other line that mentions one.\<close>

definition clean_attempts :: "(nat \<Rightarrow> Attempt) \<Rightarrow> bool" where
  "clean_attempts att \<longleftrightarrow> (\<forall>k b. at_stitched (att k) = Some b \<or> at_cont (att k) = Some b \<longrightarrow>
     (\<forall>l \<in> set (extractSegmentBody b). \<not> Contains l endlist))"

lemma clean_body:
  assumes "clean_attempts att" "at_stitched (att k) = Some b \<or> at_cont (att k) = Some b" "open_lines ls"
  shows "open_lines (ls @ block (extractSegmentBody b))"
  using assms extract_lines by (intro block_open) (auto simp: clean_attempts_def)

definition skips :: "rat list" where
  "skips = [0, 4, 8, 12, 16, 20, 24, 28, 32, 36, 40, 44, 48, 52, 56, 60]"

lemma continuationSkip_steps:
  assumes "s \<in> set skips" "continuationSkip p s = (s', False)"
  shows "s' \<in> set skips"
proof -
  have "list_all (\<lambda>s. snd (continuationSkip False s) \<or> fst (continuationSkip False s) \<in> set skips) skips" by code_simp
  then have "snd (continuationSkip False s) \<or> fst (continuationSkip False s) \<in> set skips"
    using assms(1) by (simp add: list_all_iff)
  then show ?thesis using assms(2) by (cases p) (auto simp: continuationSkip_def skips_def)
qed

text \<open>What a run may be: behind content that falls short, by a bounded skip, under fresh segment numbers.\<close>

definition run_ok :: "rat \<Rightarrow> string \<Rightarrow> (nat \<Rightarrow> Attempt) \<Rightarrow> rat \<times> int \<Rightarrow> bool" where
  "run_ok sourceDur segExt att r \<longleftrightarrow> (\<exists>k p s. shortOfSource p sourceDur \<and> s \<in> set skips \<and> fst r = fadd p s
     \<and> (\<forall>names n i. at_entries (att k) = Some names \<and> n \<in> set names \<and> segment_index segExt n = Some i \<longrightarrow> i < snd r))"

lemma run_fresh:
  assumes "shortOfSource p sourceDur" "s \<in> set skips"
  shows "run_ok sourceDur segExt att (fadd p s, HighestSegmentIndex (at_entries (att k)) segExt + 1)"
  unfolding run_ok_def using assms HighestSegmentIndex_max(1)
  by (intro exI [of _ k] exI [of _ p] exI [of _ s]) fastforce

lemma continue_loop_result:
  assumes "clean_attempts att" "open_lines ls" "skip \<in> set skips"
    "continue_loop start sourceDur segExt att k n skip (render ls) = (pl', runs)"
  shows "\<exists>bodies. pl' = render (ls @ concat (map block bodies)) \<and> open_lines (ls @ concat (map block bodies))
    \<and> length bodies \<le> length runs \<and> length runs \<le> n \<and> (\<forall>r \<in> set runs. run_ok sourceDur segExt att r)"
  using assms(2-4)
proof (induction n arbitrary: k skip ls runs pl')
  case 0
  then show ?case by (intro exI [of _ "[]"]) simp
next
  case (Suc n)
  let ?a = "att k" and ?p = "fadd start (playlistDurationSec (render ls))"
  let ?run = "(fadd ?p skip, HighestSegmentIndex (at_entries ?a) segExt + 1)"
  let ?body = "extractSegmentBody (case at_cont ?a of None \<Rightarrow> [] | Some b \<Rightarrow> b)"
  let ?shown = "case at_stitched ?a of None \<Rightarrow> render ls | Some b \<Rightarrow> stitchPlaylist (render ls) (extractSegmentBody b) False"
  let ?merged = "stitchPlaylist (render ls) ?body False"
  let ?index = "if at_fold_ok ?a then ?merged else ?shown"
  have pre: "stitchPlaylist (render ls) [] False = render ls" using stitch_open [OF Suc.prems(1), of "[]"] by (simp add: block_def)
  show ?case
  proof (cases "\<not> at_readable ?a \<or> \<not> shortOfSource ?p sourceDur \<or> \<not> at_alive ?a \<or> \<not> at_strip_ok ?a")
    case True
    then have "pl' = render ls" "runs = []" using Suc.prems(3) by (simp_all add: Let_def)
    then show ?thesis using Suc.prems(1) by (intro exI [of _ "[]"]) simp
  next
    case False
    have ok: "run_ok sourceDur segExt att ?run" using run_fresh False Suc.prems(2) by blast
    have shown: "\<exists>b. ?shown = render (ls @ block b) \<and> open_lines (ls @ block b)"
    proof (cases "at_stitched ?a")
      case None
      then show ?thesis using Suc.prems(1) by (intro exI [of _ "[]"]) (simp add: block_def)
    next
      case (Some b)
      then show ?thesis using clean_body [OF assms(1) _ Suc.prems(1)] stitch_open [OF Suc.prems(1)] by auto
    qed
    have merged: "\<exists>b. ?merged = render (ls @ block b) \<and> open_lines (ls @ block b)"
    proof (cases "at_cont ?a")
      case None
      have "extractSegmentBody [] = []" by code_simp
      then show ?thesis using None Suc.prems(1) pre by (intro exI [of _ "[]"]) (simp add: block_def)
    next
      case (Some b)
      then show ?thesis using clean_body [OF assms(1) _ Suc.prems(1)] stitch_open [OF Suc.prems(1)] by auto
    qed
    obtain skip' giveUp where sk: "continuationSkip (fadd ?p 1 < fadd start (playlistDurationSec ?merged)) skip = (skip', giveUp)"
      by (cases "continuationSkip (fadd ?p 1 < fadd start (playlistDurationSec ?merged)) skip")
    note loop = Suc.prems(3) [unfolded continue_loop.simps Let_def pre sk prod.case if_not_P [OF False]]
    have index: "\<exists>b. ?index = render (ls @ block b) \<and> open_lines (ls @ block b)" using shown merged by presburger
    show ?thesis
    proof (cases "\<not> at_exited ?a \<or> giveUp")
      case True
      then have "(pl' = ?shown \<or> pl' = ?index) \<and> runs = [?run]" using loop by (auto split: if_splits)
      then obtain b where "pl' = render (ls @ block b)" "open_lines (ls @ block b)" "runs = [?run]"
        using shown index by metis
      then show ?thesis using ok by (intro exI [of _ "[b]"]) simp
    next
      case go: False
      obtain pl2 runs2 where r: "continue_loop start sourceDur segExt att (Suc k) n skip' ?index = (pl2, runs2)"
        by (cases "continue_loop start sourceDur segExt att (Suc k) n skip' ?index")
      then have eq: "pl' = pl2" "runs = ?run # runs2" using loop go by auto
      from index obtain b where b: "?index = render (ls @ block b)" "open_lines (ls @ block b)" by blast
      have "giveUp = False" using go by simp
      then have "skip' \<in> set skips" using continuationSkip_steps [OF Suc.prems(2)] sk by simp
      from Suc.IH [OF b(2) this r [unfolded b(1)]] obtain bs where
        "pl2 = render ((ls @ block b) @ concat (map block bs))" "open_lines ((ls @ block b) @ concat (map block bs))"
        "length bs \<le> length runs2" "length runs2 \<le> n" "\<forall>r \<in> set runs2. run_ok sourceDur segExt att r" by blast
      then show ?thesis using ok eq by (intro exI [of _ "b # bs"]) simp
    qed
  qed
qed

lemma close_open:
  assumes "open_lines ls"
  shows "close_playlist True (render ls) = render (ls @ [endlist])"
proof -
  have "ls \<noteq> []" using assms by (simp add: open_lines_def)
  then show ?thesis using render_open [OF assms] render_lines(1) [OF assms]
    by (simp add: close_playlist_def) (simp add: render_def Join_snoc)
qed


definition sample_attempt :: Attempt where
  "sample_attempt = \<lparr>at_readable = True, at_alive = True, at_strip_ok = True, at_entries = Some [''seg00000.ts''],
     at_stitched = None, at_exited = True,
     at_cont = Some (''#EXTM3U'' @ [newline] @ ''#EXTINF:96.0,'' @ [newline] @ ''seg00001.ts'' @ [newline] @ endlist @ [newline]),
     at_fold_ok = True\<rparr>"


end
