(* ===== verification/IntroMarker.thy ===== *)
theory IntroMarker
  imports GoFloat
begin

text \<open>
  Finding a season's intro (\<open>internal/intromarker/align.go\<close>): the offset search for the longest stretch
  in which the audio fingerprints of two episodes agree, and the vote over all episodes of a season.

  A fingerprint frame is a 32-bit word, a fingerprint a list of frames.
\<close>

unbundle bit_operations_syntax

type_synonym frame = "32 word"

definition OnesCount32 :: "frame \<Rightarrow> int" where
  "OnesCount32 w = int (length (filter (bit w) [0..<32]))"

definition matchBitThreshold :: int where
  "matchBitThreshold = 6"

definition minIntroFrames :: int where
  "minIntroFrames = 40"

record alignment =
  al_aStart :: int
  al_bStart :: int
  al_length :: int
  al_score :: rat

definition no_alignment :: alignment where
  "no_alignment = \<lparr>al_aStart = 0, al_bStart = 0, al_length = 0, al_score = 0\<rparr>"

text \<open>The variables of the inner loop: the start of the open run (-1: none), its summed distance and length.\<close>

record walk_state =
  ws_runStart :: int
  ws_runSim :: rat
  ws_runLen :: int
  ws_best :: alignment

definition emit :: "int \<Rightarrow> walk_state \<Rightarrow> walk_state" where
  "emit off s =
    (if al_length (ws_best s) < ws_runLen s
     then s\<lparr>ws_best := \<lparr>al_aStart = ws_runStart s, al_bStart = ws_runStart s - off, al_length = ws_runLen s,
        al_score = fsub 1 (fdiv (fdiv (ws_runSim s) (of_int (ws_runLen s))) 32)\<rparr>\<rparr>
     else s)"

definition frame_dist :: "frame \<times> frame \<Rightarrow> int" where
  "frame_dist p = OnesCount32 (fst p XOR snd p)"

definition similar :: "frame \<times> frame \<Rightarrow> bool" where
  "similar p \<longleftrightarrow> frame_dist p \<le> matchBitThreshold"

definition walk_step :: "int \<Rightarrow> walk_state \<Rightarrow> nat \<times> frame \<times> frame \<Rightarrow> walk_state" where
  "walk_step off s e =
    (case e of (i, p) \<Rightarrow>
      if similar p then
        (let s' = (if ws_runStart s < 0 then s\<lparr>ws_runStart := int i, ws_runSim := 0, ws_runLen := 0\<rparr> else s)
         in s'\<lparr>ws_runSim := ws_runSim s' + of_int (frame_dist p), ws_runLen := ws_runLen s' + 1\<rparr>)
      else if 0 \<le> ws_runStart s then (emit off s)\<lparr>ws_runStart := -1\<rparr>
      else s)"

text \<open>One offset: the two indices move together from \<open>iStart\<close> and \<open>jStart\<close> until a fingerprint ends.\<close>

definition walk_offset :: "frame list \<Rightarrow> frame list \<Rightarrow> int \<Rightarrow> alignment \<Rightarrow> alignment" where
  "walk_offset a b off best =
    (let iStart = (if 0 \<le> off then nat off else 0);
         jStart = (if 0 \<le> off then 0 else nat (- off));
         s0 = \<lparr>ws_runStart = -1, ws_runSim = 0, ws_runLen = 0, ws_best = best\<rparr>;
         s = foldl (walk_step off) s0 (enumerate iStart (zip (drop iStart a) (drop jStart b)))
     in ws_best (if 0 \<le> ws_runStart s then emit off s else s))"

definition alignPair :: "frame list \<Rightarrow> frame list \<Rightarrow> alignment" where
  "alignPair a b =
    (if a = [] \<or> b = [] then no_alignment
     else foldl (\<lambda>best off. walk_offset a b off best) no_alignment [- (int (length b) - 1) .. int (length a) - 1])"

section \<open>The season vote\<close>

record cand =
  cd_start :: int
  cd_length :: int
  cd_score :: rat

record episodeIntro =
  ei_startFrame :: int
  ei_lengthFrames :: int
  ei_score :: rat

definition no_intro :: episodeIntro where
  "no_intro = \<lparr>ei_startFrame = 0, ei_lengthFrames = 0, ei_score = 0\<rparr>"

definition cluster_of :: "cand list \<Rightarrow> cand \<Rightarrow> cand list" where
  "cluster_of cands c = filter (\<lambda>d. \<bar>cd_start d - cd_start c\<bar> \<le> 16) cands"

definition cluster_intro :: "cand list \<Rightarrow> episodeIntro" where
  "cluster_intro cs =
    \<lparr>ei_startFrame = go_div (sum_list (map cd_start cs)) (int (length cs)),
     ei_lengthFrames = go_div (sum_list (map cd_length cs)) (int (length cs)),
     ei_score = fdiv (foldl fadd 0 (map cd_score cs)) (of_nat (length cs))\<rparr>"

fun cluster_scan :: "cand list \<Rightarrow> episodeIntro \<times> nat \<Rightarrow> cand list \<Rightarrow> episodeIntro \<times> nat" where
  "cluster_scan cands best [] = best"
| "cluster_scan cands (best, n) (c # cs) =
     (let cl = cluster_of cands c in
      cluster_scan cands (if n < length cl then (cluster_intro cl, length cl) else (best, n)) cs)"

definition clusterBest :: "cand list \<Rightarrow> episodeIntro" where
  "clusterBest cands = fst (cluster_scan cands (no_intro, 0) cands)"

definition candidates :: "frame list list \<Rightarrow> nat \<Rightarrow> cand list" where
  "candidates fps i = List.map_filter (\<lambda>j.
     if i = j then None
     else let al = alignPair (fps ! i) (fps ! j) in
       if al_length al < minIntroFrames then None
       else Some \<lparr>cd_start = al_aStart al, cd_length = al_length al, cd_score = al_score al\<rparr>) [0..<length fps]"

definition detectSeasonIntros :: "frame list list \<Rightarrow> episodeIntro list" where
  "detectSeasonIntros fps =
    (if length fps < 2 then replicate (length fps) no_intro
     else map (\<lambda>i. if candidates fps i = [] then no_intro else clusterBest (candidates fps i)) [0..<length fps])"

section \<open>The longest common run\<close>

text \<open>\<open>run_in ps s e\<close>: the pairs from \<open>s\<close> to \<open>e\<close> all agree.\<close>

definition run_in :: "(frame \<times> frame) list \<Rightarrow> nat \<Rightarrow> nat \<Rightarrow> bool" where
  "run_in ps s e \<longleftrightarrow> s \<le> e \<and> e \<le> length ps \<and> (\<forall>k. s \<le> k \<and> k < e \<longrightarrow> similar (ps ! k))"

definition open_len :: "walk_state \<Rightarrow> int" where
  "open_len s = (if 0 \<le> ws_runStart s then ws_runLen s else 0)"

definition run_of :: "int \<Rightarrow> nat \<Rightarrow> (frame \<times> frame) list \<Rightarrow> alignment \<Rightarrow> bool" where
  "run_of off i0 ps al \<longleftrightarrow> (\<exists>s e. run_in ps s e \<and> al_length al = int (e - s)
     \<and> al_aStart al = int (i0 + s) \<and> al_bStart al = int (i0 + s) - off)"

definition walk_inv :: "int \<Rightarrow> nat \<Rightarrow> alignment \<Rightarrow> (frame \<times> frame) list \<Rightarrow> walk_state \<Rightarrow> bool" where
  "walk_inv off i0 best0 ps s \<longleftrightarrow>
    (\<forall>b e. run_in ps b e \<longrightarrow> int (e - b) \<le> max (al_length (ws_best s)) (open_len s))
    \<and> (\<forall>b. run_in ps b (length ps) \<longrightarrow> int (length ps - b) \<le> open_len s)
    \<and> (0 \<le> ws_runStart s \<longrightarrow> (\<exists>b. run_in ps b (length ps) \<and> ws_runStart s = int (i0 + b) \<and> ws_runLen s = int (length ps - b)))
    \<and> (ws_best s = best0 \<or> run_of off i0 ps (ws_best s)) \<and> al_length best0 \<le> al_length (ws_best s)"

lemma run_in_snoc:
  "run_in (ps @ [p]) b e \<longleftrightarrow>
     run_in ps b e \<or> (e = Suc (length ps) \<and> (b = e \<or> (run_in ps b (length ps) \<and> similar p)))"
  by (auto simp: run_in_def nth_append less_Suc_eq le_Suc_eq)

lemma run_of_snoc: "run_of off i0 ps al \<Longrightarrow> run_of off i0 (ps @ [p]) al"
  unfolding run_of_def using run_in_snoc by blast

lemma run_in_refl: "s \<le> length ps \<Longrightarrow> run_in ps s s"
  unfolding run_in_def by (meson leD order_refl)

lemma emit_best:
  assumes "walk_inv off i0 best0 ps s" "0 \<le> ws_runStart s"
  shows "al_length (ws_best (emit off s)) = max (al_length (ws_best s)) (open_len s)"
    and "ws_best (emit off s) = best0 \<or> run_of off i0 ps (ws_best (emit off s))"
proof -
  show "al_length (ws_best (emit off s)) = max (al_length (ws_best s)) (open_len s)"
    using assms(2) by (simp add: emit_def open_len_def max_def)
  obtain b where "run_in ps b (length ps)" "ws_runStart s = int (i0 + b)" "ws_runLen s = int (length ps - b)"
    using assms unfolding walk_inv_def by blast
  then show "ws_best (emit off s) = best0 \<or> run_of off i0 ps (ws_best (emit off s))"
    using assms(1) by (auto simp: emit_def run_of_def walk_inv_def)
qed

lemma walk_inv_extend:
  assumes inv: "walk_inv off i0 best0 ps s" and sim: "similar p"
  shows "walk_inv off i0 best0 (ps @ [p]) (walk_step off s (i0 + length ps, p))"
proof -
  let ?t = "walk_step off s (i0 + length ps, p)"
  let ?n = "length ps"
  have len: "open_len ?t = open_len s + 1" "ws_best ?t = ws_best s"
    using sim by (auto simp: walk_step_def open_len_def Let_def)
  have ends: "int (?n - b) \<le> open_len s" if "run_in ps b ?n" for b using inv that unfolding walk_inv_def by blast
  have "run_in ps ?n ?n" by (simp add: run_in_refl)
  then have open0: "0 \<le> open_len s" using ends by fastforce
  have new: "int (Suc ?n - b) \<le> open_len ?t" if "run_in ps b ?n" for b
    using ends [OF that] that len by (simp add: run_in_def Suc_diff_le)
  have run: "\<exists>b. run_in (ps @ [p]) b (Suc ?n) \<and> ws_runStart ?t = int (i0 + b) \<and> ws_runLen ?t = int (Suc ?n - b)"
  proof (cases "0 \<le> ws_runStart s")
    case True
    then obtain b where b: "run_in ps b ?n" "ws_runStart s = int (i0 + b)" "ws_runLen s = int (?n - b)"
      using inv unfolding walk_inv_def by blast
    then have "b \<le> ?n" by (simp add: run_in_def)
    then show ?thesis using b sim True
      by (intro exI [of _ b]) (auto simp: run_in_snoc walk_step_def Let_def Suc_diff_le)
  next
    case False
    have "run_in ps ?n ?n" by (simp add: run_in_refl)
    then show ?thesis using False sim by (intro exI [of _ ?n]) (auto simp: run_in_snoc walk_step_def Let_def)
  qed
  have "int (e - b) \<le> max (al_length (ws_best ?t)) (open_len ?t)" if "run_in (ps @ [p]) b e" for b e
    using that [unfolded run_in_snoc]
  proof (elim disjE conjE)
    assume "run_in ps b e"
    then have "int (e - b) \<le> max (al_length (ws_best s)) (open_len s)" using inv unfolding walk_inv_def by blast
    then show ?thesis using len by simp
  next
    assume "e = Suc ?n" "run_in ps b ?n"
    then show ?thesis using new by fastforce
  qed (use open0 len in auto)
  moreover have "int (Suc ?n - b) \<le> open_len ?t" if "run_in (ps @ [p]) b (Suc ?n)" for b
    using that new open0 len unfolding run_in_snoc by (auto simp: run_in_def)
  moreover have "ws_best ?t = best0 \<or> run_of off i0 (ps @ [p]) (ws_best ?t)" "al_length best0 \<le> al_length (ws_best ?t)"
    using inv len run_of_snoc [of off i0 ps "ws_best s" p] unfolding walk_inv_def by auto
  ultimately show ?thesis using run unfolding walk_inv_def by simp
qed

lemma walk_inv_break:
  assumes inv: "walk_inv off i0 best0 ps s" and sim: "\<not> similar p"
  shows "walk_inv off i0 best0 (ps @ [p]) (walk_step off s (i0 + length ps, p))"
proof -
  let ?t = "walk_step off s (i0 + length ps, p)"
  have closed: "ws_runStart ?t < 0" "open_len ?t = 0"
    using sim by (auto simp: walk_step_def open_len_def)
  have best: "al_length (ws_best ?t) = max (al_length (ws_best s)) (open_len s) \<or> (al_length (ws_best ?t) = al_length (ws_best s) \<and> open_len s = 0)"
    "ws_best ?t = best0 \<or> run_of off i0 ps (ws_best ?t)"
    using sim emit_best [OF inv] inv by (cases "0 \<le> ws_runStart s"; auto simp: walk_step_def open_len_def walk_inv_def)+
  have runs: "run_in (ps @ [p]) b e \<longleftrightarrow> run_in ps b e \<or> (b = Suc (length ps) \<and> e = Suc (length ps))" for b e
    using sim by (auto simp: run_in_snoc)
  have old: "int (e - b) \<le> max (al_length (ws_best ?t)) 0" if "run_in ps b e" for b e
    using inv that best(1) unfolding walk_inv_def by fastforce
  have "al_length best0 \<le> al_length (ws_best ?t)" using inv best(1) unfolding walk_inv_def by auto
  moreover have "b = Suc (length ps)" if "run_in (ps @ [p]) b (Suc (length ps))" for b
    using that unfolding runs by (auto simp: run_in_def)
  moreover have "int (e - b) \<le> max (al_length (ws_best ?t)) (open_len ?t)" if "run_in (ps @ [p]) b e" for b e
    using that old closed(2) unfolding runs by auto
  moreover have "ws_best ?t = best0 \<or> run_of off i0 (ps @ [p]) (ws_best ?t)" using best(2) run_of_snoc by blast
  ultimately show ?thesis using closed unfolding walk_inv_def by auto
qed

lemma walk_inv_foldl:
  "walk_inv off i0 best ps (foldl (walk_step off) \<lparr>ws_runStart = -1, ws_runSim = 0, ws_runLen = 0, ws_best = best\<rparr> (enumerate i0 ps))"
proof (induction ps rule: rev_induct)
  case Nil
  show ?case by (auto simp: walk_inv_def run_in_def open_len_def)
next
  case (snoc p ps)
  then show ?case
    using walk_inv_extend [OF snoc] walk_inv_break [OF snoc] by (cases "similar p") (auto simp: enumerate_append_eq)
qed

lemma walk_offset_best:
  fixes a b off best
  defines "i0 \<equiv> if 0 \<le> off then nat off else 0" and "j0 \<equiv> if 0 \<le> off then 0 else nat (- off)"
  shows "run_in (zip (drop i0 a) (drop j0 b)) s e \<Longrightarrow> int (e - s) \<le> max 0 (al_length (walk_offset a b off best))"
    and "walk_offset a b off best = best \<or> run_of off i0 (zip (drop i0 a) (drop j0 b)) (walk_offset a b off best)"
    and "al_length best \<le> al_length (walk_offset a b off best)"
proof -
  let ?ps = "zip (drop i0 a) (drop j0 b)"
  let ?s = "foldl (walk_step off) \<lparr>ws_runStart = -1, ws_runSim = 0, ws_runLen = 0, ws_best = best\<rparr> (enumerate i0 ?ps)"
  have inv: "walk_inv off i0 best ?ps ?s" by (rule walk_inv_foldl)
  have w: "walk_offset a b off best = ws_best (if 0 \<le> ws_runStart ?s then emit off ?s else ?s)"
    by (simp add: walk_offset_def i0_def j0_def Let_def)
  have len: "max (al_length (ws_best ?s)) (open_len ?s) \<le> max 0 (al_length (walk_offset a b off best))"
    "al_length (ws_best ?s) \<le> al_length (walk_offset a b off best)"
    using emit_best(1) [OF inv] by (auto simp: w open_len_def)
  show "run_in ?ps s e \<Longrightarrow> int (e - s) \<le> max 0 (al_length (walk_offset a b off best))"
    using inv len(1) unfolding walk_inv_def by (meson order_trans)
  show "walk_offset a b off best = best \<or> run_of off i0 ?ps (walk_offset a b off best)"
    using inv emit_best(2) [OF inv] unfolding w walk_inv_def by auto
  show "al_length best \<le> al_length (walk_offset a b off best)"
    using inv len(2) unfolding walk_inv_def by linarith
qed

text \<open>A common run of two fingerprints: \<open>n\<close> frames from \<open>p\<close> of the one and from \<open>q\<close> of the other agree.\<close>

definition common_run :: "frame list \<Rightarrow> frame list \<Rightarrow> nat \<Rightarrow> nat \<Rightarrow> nat \<Rightarrow> bool" where
  "common_run a b p q n \<longleftrightarrow> p + n \<le> length a \<and> q + n \<le> length b \<and> (\<forall>k < n. similar (a ! (p + k), b ! (q + k)))"

definition is_run :: "frame list \<Rightarrow> frame list \<Rightarrow> alignment \<Rightarrow> bool" where
  "is_run a b al \<longleftrightarrow> 0 \<le> al_aStart al \<and> 0 \<le> al_bStart al \<and> 0 \<le> al_length al
     \<and> common_run a b (nat (al_aStart al)) (nat (al_bStart al)) (nat (al_length al))"

lemma run_in_common:
  assumes "run_in (zip (drop i0 a) (drop j0 b)) s e" "i0 \<le> length a" "j0 \<le> length b"
  shows "common_run a b (i0 + s) (j0 + s) (e - s)"
  unfolding common_run_def
proof (intro conjI allI impI)
  fix k assume k: "k < e - s"
  then have "similar (zip (drop i0 a) (drop j0 b) ! (s + k))" using assms(1) by (simp add: run_in_def)
  moreover have "s + k < length (drop i0 a)" "s + k < length (drop j0 b)" using assms k by (auto simp: run_in_def)
  ultimately show "similar (a ! (i0 + s + k), b ! (j0 + s + k))"
    using assms(2,3) by (simp add: nth_zip nth_drop add.assoc)
qed (use assms in \<open>auto simp: run_in_def\<close>)

lemma common_run_in:
  assumes "common_run a b p q n" "i0 \<le> p" "j0 \<le> q" "p - i0 = q - j0"
  shows "run_in (zip (drop i0 a) (drop j0 b)) (p - i0) (p - i0 + n)"
  unfolding run_in_def
proof (intro conjI allI impI)
  fix k assume k: "p - i0 \<le> k \<and> k < p - i0 + n"
  then have "k - (p - i0) < n" by auto
  then have "similar (a ! (p + (k - (p - i0))), b ! (q + (k - (p - i0))))" using assms(1) unfolding common_run_def by blast
  moreover have "p + (k - (p - i0)) = i0 + k" "q + (k - (p - i0)) = j0 + k" using assms k by auto
  moreover have "k < length a - i0" "k < length b - j0" using assms k by (auto simp: common_run_def)
  ultimately show "similar (zip (drop i0 a) (drop j0 b) ! k)" by (simp add: add.commute)
qed (use assms in \<open>auto simp: common_run_def\<close>)

lemma walk_offsets:
  assumes "is_run a b best" "set offs \<subseteq> {- int (length b) .. int (length a)}"
  shows "is_run a b (foldl (\<lambda>best off. walk_offset a b off best) best offs)
    \<and> al_length best \<le> al_length (foldl (\<lambda>best off. walk_offset a b off best) best offs)
    \<and> (\<forall>p q n. common_run a b p q n \<and> int p - int q \<in> set offs \<longrightarrow>
         int n \<le> al_length (foldl (\<lambda>best off. walk_offset a b off best) best offs))"
  using assms
proof (induction offs arbitrary: best)
  case (Cons off offs)
  let ?i = "if 0 \<le> off then nat off else 0" and ?j = "if 0 \<le> off then 0 else nat (- off)"
  let ?w = "walk_offset a b off best"
  have ij: "?i \<le> length a" "?j \<le> length b" "int ?i - int ?j = off" using Cons.prems(2) by auto
  have "is_run a b ?w"
  proof (cases "?w = best")
    case False
    then obtain s e where r: "run_in (zip (drop ?i a) (drop ?j b)) s e" "al_length ?w = int (e - s)"
      "al_aStart ?w = int (?i + s)" "al_bStart ?w = int (?i + s) - off"
      using walk_offset_best(2) [of a b off best] unfolding run_of_def by auto
    moreover have "int (?i + s) - off = int (?j + s)" using ij(3) by simp
    ultimately show ?thesis using run_in_common [OF r(1) ij(1,2)] by (simp add: is_run_def del: of_nat_add)
  qed (use Cons.prems in simp)
  let ?r = "foldl (\<lambda>best off. walk_offset a b off best) ?w offs"
  have IH: "is_run a b ?r" "al_length ?w \<le> al_length ?r"
    "\<And>p q n. common_run a b p q n \<Longrightarrow> int p - int q \<in> set offs \<Longrightarrow> int n \<le> al_length ?r"
    using Cons.IH [OF \<open>is_run a b ?w\<close>] Cons.prems(2) by auto
  have here: "int n \<le> al_length ?w" if "common_run a b p q n" "int p - int q = off" for p q n
  proof -
    have "run_in (zip (drop ?i a) (drop ?j b)) (p - ?i) (p - ?i + n)"
      using that by (intro common_run_in) auto
    from walk_offset_best(1) [OF this, of best] \<open>is_run a b ?w\<close> show ?thesis by (simp add: is_run_def)
  qed
  have "al_length best \<le> al_length ?r" using walk_offset_best(3) [of best a b off] IH(2) by simp
  moreover have "int n \<le> al_length ?r" if "common_run a b p q n" "int p - int q \<in> set (off # offs)" for p q n
    using that here [of p q n] IH(2) IH(3) [of p q n] by auto
  ultimately show ?case using IH(1) by auto
qed simp

lemma alignPair_run: "is_run a b (alignPair a b)"
proof -
  have start: "is_run a b no_alignment" by (simp add: is_run_def common_run_def no_alignment_def)
  show ?thesis
    using walk_offsets [OF start, of "[- (int (length b) - 1) .. int (length a) - 1]"] start
    by (auto simp: alignPair_def)
qed

text \<open>
  \<open>alignPair\<close> finds the longest stretch the two fingerprints share: the
  frames it reports do agree within the bit threshold, and no common stretch, at any pair of positions, is
  longer.
\<close>

theorem alignPair_longest:
  "is_run a b (alignPair a b) \<and> (\<forall>p q n. common_run a b p q n \<longrightarrow> int n \<le> al_length (alignPair a b))"
proof (cases "a = [] \<or> b = []")
  case True
  then show ?thesis by (auto simp: alignPair_def no_alignment_def is_run_def common_run_def)
next
  case False
  let ?offs = "[- (int (length b) - 1) .. int (length a) - 1]"
  have start: "is_run a b no_alignment" by (simp add: is_run_def common_run_def no_alignment_def)
  have al: "alignPair a b = foldl (\<lambda>best off. walk_offset a b off best) no_alignment ?offs"
    using False by (simp add: alignPair_def)
  have "int n \<le> al_length (alignPair a b)" if "common_run a b p q n" for p q n
  proof (cases "n = 0")
    case True
    then show ?thesis using walk_offsets [OF start, of ?offs] unfolding al by (auto simp: no_alignment_def)
  next
    case False
    then have "int p - int q \<in> set ?offs" using that by (auto simp: common_run_def)
    then show ?thesis using walk_offsets [OF start, of ?offs] that unfolding al by auto
  qed
  then show ?thesis using alignPair_run by blast
qed

theorem alignPair_longest_witness:
  "al_length (alignPair [0, 7, 1, 2, 255, 4] [9, 1, 2, 255]) = 4 \<and> common_run [0, 7, 1, 2, 255, 4] [9, 1, 2, 255] 1 0 4"
proof -
  have "common_run [0, 7, 1, 2, 255, 4] [9, 1, 2, 255] 1 0 4" by code_simp
  with alignPair_longest [of "[0, 7, 1, 2, 255, 4]" "[9, 1, 2, 255]"]
  have "4 \<le> al_length (alignPair [0, 7, 1, 2, 255, 4] [9, 1, 2, 255])" by force
  moreover have "al_length (alignPair [0, 7, 1, 2, 255, 4] [9, 1, 2, 255]) \<le> 4"
    using alignPair_longest [of "[0, 7, 1, 2, 255, 4]" "[9, 1, 2, 255]"] unfolding is_run_def common_run_def
    by (elim conjE) simp
  ultimately show ?thesis using \<open>common_run [0, 7, 1, 2, 255, 4] [9, 1, 2, 255] 1 0 4\<close> by simp
qed

text \<open>A detected intro is never shorter than the minimum, and its start lies within the fingerprint.\<close>

lemma go_div_mean_ge:
  assumes "cs \<noteq> []" "\<forall>c \<in> set cs. m \<le> f c" "0 \<le> m"
  shows "m \<le> go_div (sum_list (map f cs)) (int (length cs))"
proof -
  have "m * int (length cs) \<le> sum_list (map f cs)" using assms(2)
    by (induction cs) (auto simp: algebra_simps)
  moreover have "0 < int (length cs)" using assms(1) by simp
  ultimately show ?thesis using assms(3)
    by (smt (verit) go_div_nonneg mult_nonneg_nonneg nonzero_mult_div_cancel_right zdiv_mono1)
qed

lemma cluster_scan_cases:
  "fst (cluster_scan cands (b, n) cs) = b \<or> (\<exists>c \<in> set cs. fst (cluster_scan cands (b, n) cs) = cluster_intro (cluster_of cands c))"
  by (induction cs arbitrary: b n) (auto simp: Let_def split: if_splits)

lemma detectSeasonIntros_min:
  assumes "ei \<in> set (detectSeasonIntros fps)"
  shows "ei = no_intro \<or> minIntroFrames \<le> ei_lengthFrames ei \<and> 0 \<le> ei_startFrame ei"
proof -
  have c: "minIntroFrames \<le> cd_length c \<and> 0 \<le> cd_start c" if "c \<in> set (candidates fps i)" for c i
    using that alignPair_run by (auto simp: candidates_def map_filter_def is_run_def Let_def split: if_splits)
  show ?thesis
  proof (cases "ei = no_intro")
    case False
    then obtain i d where "d \<in> set (candidates fps i)" "ei = cluster_intro (cluster_of (candidates fps i) d)"
      using assms cluster_scan_cases [of "candidates fps _" no_intro 0 "candidates fps _"]
      by (auto simp: detectSeasonIntros_def clusterBest_def split: if_splits)
    moreover have "d \<in> set (cluster_of (candidates fps i) d)" using calculation by (simp add: cluster_of_def)
    moreover have "\<forall>e \<in> set (cluster_of (candidates fps i) d). minIntroFrames \<le> cd_length e \<and> 0 \<le> cd_start e"
      using c by (auto simp: cluster_of_def)
    moreover from calculation have "cluster_of (candidates fps i) d \<noteq> []" by force
    ultimately show ?thesis
      using go_div_mean_ge [of "cluster_of (candidates fps i) d" minIntroFrames cd_length]
        go_div_mean_ge [of "cluster_of (candidates fps i) d" 0 cd_start]
      by (simp add: cluster_intro_def minIntroFrames_def)
  qed simp
qed

end
