(* ===== verification/SegToken.thy ===== *)
theory SegToken
  imports Valkey
begin

text \<open>
  HLS segment tokens (\<open>internal/transcode/segtoken.go\<close>): issuing, validating with a sliding expiry,
  revoking one, and revoking all of a user's tokens through the per-user index.

  The token keys and the index keys are two typed key spaces; in Valkey they are told apart by prefix.
  Times and expiries are milliseconds.
\<close>

definition segTokenTTL :: int where
  "segTokenTTL = 4 * 60 * 60 * 1000"

record segTokenData =
  td_SessionID :: string
  td_UserID :: string

definition segTokenKey :: "string \<Rightarrow> string" where
  "segTokenKey token = ''segment_token:'' @ token"

definition userIndexKey :: "string \<Rightarrow> string" where
  "userIndexKey user = ''user_segtokens:'' @ user"

record TokenStore =
  tk_tokens :: "segTokenData kvs"
  tk_index :: "string list kvs"

text \<open>\<open>EXPIRE\<close>, \<open>SADD\<close> and \<open>SMEMBERS\<close>; a set whose key does not exist is empty and has no expiry yet.\<close>

definition kv_expire :: "int \<Rightarrow> string \<Rightarrow> int \<Rightarrow> 'v kvs \<Rightarrow> 'v kvs" where
  "kv_expire now k ttl m = (case kv_get m now k of None \<Rightarrow> m | Some v \<Rightarrow> m(k \<mapsto> (v, now + ttl)))"

definition set_members :: "string list kvs \<Rightarrow> int \<Rightarrow> string \<Rightarrow> string list" where
  "set_members m now k = (case kv_get m now k of None \<Rightarrow> [] | Some xs \<Rightarrow> xs)"

text \<open>
  \<open>Issue\<close>: the token, drawn by \<open>uuid.New\<close>, is an argument; \<open>idx_ok\<close> is whether the \<open>SADD\<close> succeeded,
  whose failure is ignored.  \<open>SADD\<close> and the \<open>EXPIRE\<close> that follows it are one write here.
\<close>

definition Issue :: "int \<Rightarrow> string \<Rightarrow> string \<Rightarrow> string \<Rightarrow> bool \<Rightarrow> TokenStore \<Rightarrow> TokenStore" where
  "Issue now token sessionID user idx_ok st =
    (let st' = st\<lparr>tk_tokens := kv_set now (segTokenKey token) \<lparr>td_SessionID = sessionID, td_UserID = user\<rparr> segTokenTTL (tk_tokens st)\<rparr>
     in if idx_ok
        then st'\<lparr>tk_index := kv_set now (userIndexKey user)
               (List.insert token (set_members (tk_index st) now (userIndexKey user))) segTokenTTL (tk_index st)\<rparr>
        else st')"

definition Validate :: "int \<Rightarrow> string \<Rightarrow> TokenStore \<Rightarrow> TokenStore \<times> (string \<times> string) option" where
  "Validate now token st =
    (case kv_get (tk_tokens st) now (segTokenKey token) of
       None \<Rightarrow> (st, None)
     | Some d \<Rightarrow>
         (st\<lparr>tk_tokens := kv_expire now (segTokenKey token) segTokenTTL (tk_tokens st),
             tk_index := kv_expire now (userIndexKey (td_UserID d)) segTokenTTL (tk_index st)\<rparr>,
          Some (td_SessionID d, td_UserID d)))"

definition Revoke :: "string \<Rightarrow> TokenStore \<Rightarrow> TokenStore" where
  "Revoke token st = st\<lparr>tk_tokens := (tk_tokens st)(segTokenKey token := None)\<rparr>"

definition RevokeAllForUser :: "int \<Rightarrow> string \<Rightarrow> TokenStore \<Rightarrow> TokenStore" where
  "RevokeAllForUser now user st =
    (let toks = set_members (tk_index st) now (userIndexKey user) in
     if toks = [] then st
     else st\<lparr>tk_tokens := (\<lambda>k. if k \<in> segTokenKey ` set toks then None else tk_tokens st k),
             tk_index := (tk_index st)(userIndexKey user := None)\<rparr>)"

section \<open>The index outlives the tokens\<close>

lemma token_key_inj [simp]: "segTokenKey a = segTokenKey b \<longleftrightarrow> a = b"
  by (simp add: segTokenKey_def)

lemma index_key_inj [simp]: "userIndexKey a = userIndexKey b \<longleftrightarrow> a = b"
  by (simp add: userIndexKey_def)

text \<open>The service at work: tokens are drawn fresh, the clock runs on, every write reaches Valkey.\<close>

definition unused :: "string \<Rightarrow> TokenStore \<Rightarrow> bool" where
  "unused token st \<longleftrightarrow> tk_tokens st (segTokenKey token) = None
     \<and> (\<forall>u xs e. tk_index st (userIndexKey u) = Some (xs, e) \<longrightarrow> token \<notin> set xs)"

inductive tkstep :: "int \<times> TokenStore \<Rightarrow> int \<times> TokenStore \<Rightarrow> bool" where
  tick: "0 \<le> d \<Longrightarrow> tkstep (now, st) (now + d, st)"
| issue: "unused token st \<Longrightarrow> tkstep (now, st) (now, Issue now token sessionID user True st)"
| validate: "tkstep (now, st) (now, fst (Validate now token st))"
| revoke: "tkstep (now, st) (now, Revoke token st)"
| revoke_all: "tkstep (now, st) (now, RevokeAllForUser now user st)"

text \<open>
  Whenever a token is still alive, the index of its user is alive too, lists it, and lives at least as
  long; no token outlives a full period from now; an index lists no other user's token.
\<close>

definition covered :: "int \<Rightarrow> TokenStore \<Rightarrow> bool" where
  "covered now st \<longleftrightarrow>
    (\<forall>token d e. tk_tokens st (segTokenKey token) = Some (d, e) \<longrightarrow> e \<le> now + segTokenTTL \<and> (now < e \<longrightarrow>
       (\<exists>xs e'. tk_index st (userIndexKey (td_UserID d)) = Some (xs, e') \<and> e \<le> e' \<and> token \<in> set xs)))"

definition own_index :: "TokenStore \<Rightarrow> bool" where
  "own_index st \<longleftrightarrow> (\<forall>u xs e' token d e. tk_index st (userIndexKey u) = Some (xs, e') \<longrightarrow> token \<in> set xs \<longrightarrow>
     tk_tokens st (segTokenKey token) = Some (d, e) \<longrightarrow> td_UserID d = u)"

lemma coveredD:
  assumes "covered now st" "tk_tokens st (segTokenKey token) = Some (d, e)" "now < e"
  obtains xs e' where "tk_index st (userIndexKey (td_UserID d)) = Some (xs, e')" "e \<le> e'" "token \<in> set xs"
  using assms unfolding covered_def by blast

lemma covered_bound: "covered now st \<Longrightarrow> tk_tokens st (segTokenKey token) = Some (d, e) \<Longrightarrow> e \<le> now + segTokenTTL"
  unfolding covered_def by blast

lemma coveredI:
  assumes "\<And>token d e. tk_tokens st (segTokenKey token) = Some (d, e) \<Longrightarrow> e \<le> now + segTokenTTL"
    and "\<And>token d e. tk_tokens st (segTokenKey token) = Some (d, e) \<Longrightarrow> now < e \<Longrightarrow>
      \<exists>xs e'. tk_index st (userIndexKey (td_UserID d)) = Some (xs, e') \<and> e \<le> e' \<and> token \<in> set xs"
  shows "covered now st"
  using assms unfolding covered_def by blast

lemma covered_tick:
  assumes "covered now st" "0 \<le> d"
  shows "covered (now + d) st"
proof (rule coveredI)
  fix token x e assume t: "tk_tokens st (segTokenKey token) = Some (x, e)"
  show "e \<le> now + d + segTokenTTL" using covered_bound [OF assms(1) t] assms(2) by linarith
  assume "now + d < e"
  then have "now < e" using assms(2) by linarith
  from coveredD [OF assms(1) t this]
  show "\<exists>xs e'. tk_index st (userIndexKey (td_UserID x)) = Some (xs, e') \<and> e \<le> e' \<and> token \<in> set xs" by blast
qed

lemma set_members_live: "m k = Some (xs, e) \<Longrightarrow> now < e \<Longrightarrow> set_members m now k = xs"
  by (simp add: set_members_def kv_get_def)

lemma covered_issue:
  assumes cov: "covered now st"
  shows "covered now (Issue now token sessionID user True st)"
proof (rule coveredI)
  let ?st = "Issue now token sessionID user True st"
  fix tok d e assume t: "tk_tokens ?st (segTokenKey tok) = Some (d, e)"
  show "e \<le> now + segTokenTTL"
    using t covered_bound [OF cov] by (auto simp: Issue_def kv_set_def split: if_splits)
  assume "now < e"
  show "\<exists>xs e'. tk_index ?st (userIndexKey (td_UserID d)) = Some (xs, e') \<and> e \<le> e' \<and> tok \<in> set xs"
  proof (cases "tok = token")
    case True
    then show ?thesis using t by (auto simp: Issue_def kv_set_def)
  next
    case False
    then have old: "tk_tokens st (segTokenKey tok) = Some (d, e)" using t by (simp add: Issue_def kv_set_def)
    obtain xs e' where x: "tk_index st (userIndexKey (td_UserID d)) = Some (xs, e')" "e \<le> e'" "tok \<in> set xs"
      using coveredD [OF cov old \<open>now < e\<close>] .
    show ?thesis
    proof (cases "td_UserID d = user")
      case True
      then have "set_members (tk_index st) now (userIndexKey user) = xs"
        using set_members_live [of "tk_index st" "userIndexKey (td_UserID d)" xs e' now] x(1,2) \<open>now < e\<close> by simp
      then show ?thesis using True x(3) covered_bound [OF cov old] by (simp add: Issue_def kv_set_def)
    next
      case False
      then show ?thesis using x by (simp add: Issue_def kv_set_def)
    qed
  qed
qed

lemma covered_validate:
  assumes cov: "covered now st"
  shows "covered now (fst (Validate now token st))"
proof (cases "kv_get (tk_tokens st) now (segTokenKey token)")
  case None
  then show ?thesis using cov by (simp add: Validate_def)
next
  case (Some d0)
  then obtain e0 where e0: "tk_tokens st (segTokenKey token) = Some (d0, e0)" "now < e0"
    by (auto simp: kv_get_def split: option.splits if_splits)
  obtain ys f where ys: "tk_index st (userIndexKey (td_UserID d0)) = Some (ys, f)" "e0 \<le> f" "token \<in> set ys"
    using coveredD [OF cov e0] .
  have tk: "tk_tokens (fst (Validate now token st)) = (tk_tokens st)(segTokenKey token \<mapsto> (d0, now + segTokenTTL))"
    and ix: "tk_index (fst (Validate now token st)) = (tk_index st)(userIndexKey (td_UserID d0) \<mapsto> (ys, now + segTokenTTL))"
    using Some ys e0 by (auto simp: Validate_def kv_expire_def kv_get_def)
  show ?thesis
  proof (rule coveredI)
    fix tok d e assume t: "tk_tokens (fst (Validate now token st)) (segTokenKey tok) = Some (d, e)"
    then show "e \<le> now + segTokenTTL" using covered_bound [OF cov] by (auto simp: tk split: if_splits)
    assume "now < e"
    show "\<exists>xs e'. tk_index (fst (Validate now token st)) (userIndexKey (td_UserID d)) = Some (xs, e') \<and> e \<le> e' \<and> tok \<in> set xs"
    proof (cases "tok = token")
      case True
      then show ?thesis using t ys(3) by (simp add: tk ix)
    next
      case False
      then have old: "tk_tokens st (segTokenKey tok) = Some (d, e)" using t by (simp add: tk)
      obtain xs e' where "tk_index st (userIndexKey (td_UserID d)) = Some (xs, e')" "e \<le> e'" "tok \<in> set xs"
        using coveredD [OF cov old \<open>now < e\<close>] .
      then show ?thesis using ys(1) covered_bound [OF cov old] by (cases "td_UserID d = td_UserID d0") (auto simp: ix)
    qed
  qed
qed

lemma covered_revoke: "covered now st \<Longrightarrow> covered now (Revoke token st)"
  unfolding covered_def by (simp add: Revoke_def)

lemma covered_revoke_all:
  assumes cov: "covered now st"
  shows "covered now (RevokeAllForUser now user st)"
proof (rule coveredI)
  let ?st = "RevokeAllForUser now user st"
  fix tok d e assume t: "tk_tokens ?st (segTokenKey tok) = Some (d, e)"
  then have old: "tk_tokens st (segTokenKey tok) = Some (d, e)"
    by (auto simp: RevokeAllForUser_def Let_def split: if_splits)
  show "e \<le> now + segTokenTTL" by (rule covered_bound [OF cov old])
  assume e: "now < e"
  obtain xs e' where x: "tk_index st (userIndexKey (td_UserID d)) = Some (xs, e')" "e \<le> e'" "tok \<in> set xs"
    using coveredD [OF cov old e] .
  moreover have "td_UserID d \<noteq> user"
  proof
    assume u: "td_UserID d = user"
    have "set_members (tk_index st) now (userIndexKey user) = xs" using set_members_live [of "tk_index st" "userIndexKey (td_UserID d)" xs e' now] x(1,2) e u by simp
    then show False using t x(3) by (auto simp: RevokeAllForUser_def Let_def split: if_splits)
  qed
  ultimately show "\<exists>xs e'. tk_index ?st (userIndexKey (td_UserID d)) = Some (xs, e') \<and> e \<le> e' \<and> tok \<in> set xs"
    by (simp add: RevokeAllForUser_def Let_def)
qed

lemma own_step:
  assumes "own_index st" "tkstep (now, st) (now', st')"
  shows "own_index st'"
  using assms(2)
proof cases
  case (issue token sessionID user)
  show ?thesis unfolding own_index_def
  proof (intro allI impI)
    fix u xs e' tok d e
    assume ix: "tk_index st' (userIndexKey u) = Some (xs, e')" and tok: "tok \<in> set xs"
      and tk: "tk_tokens st' (segTokenKey tok) = Some (d, e)"
    show "td_UserID d = u"
    proof (cases "tok = token")
      case True
      then have "u = user" using ix tok issue unfolding unused_def by (auto simp: Issue_def kv_set_def split: if_splits)
      then show ?thesis using tk True issue by (auto simp: Issue_def kv_set_def)
    next
      case False
      then have old: "tk_tokens st (segTokenKey tok) = Some (d, e)" using tk issue by (simp add: Issue_def kv_set_def)
      have "\<exists>ys f. tk_index st (userIndexKey u) = Some (ys, f) \<and> tok \<in> set ys"
        using ix tok False issue
        by (auto simp: Issue_def kv_set_def set_members_def kv_get_def split: if_splits option.splits)
      then show ?thesis using assms(1) old unfolding own_index_def by blast
    qed
  qed
next
  case (validate token)
  have "\<exists>f. tk_index st k = Some (xs, f)" if "tk_index st' k = Some (xs, e)" for k xs e
    using that validate
    by (auto simp: Validate_def kv_expire_def kv_get_def split: option.splits if_splits)
  moreover have "\<exists>f. tk_tokens st k = Some (d, f)" if "tk_tokens st' k = Some (d, e)" for k d e
    using that validate
    by (auto simp: Validate_def kv_expire_def kv_get_def split: option.splits if_splits)
  ultimately show ?thesis using assms(1) unfolding own_index_def by metis
qed (use assms(1) in \<open>auto simp: own_index_def Revoke_def RevokeAllForUser_def Let_def split: if_splits\<close>)

lemma covered_step: "covered now st \<Longrightarrow> tkstep (now, st) (now', st') \<Longrightarrow> covered now' st'"
  by (auto elim!: tkstep.cases intro: covered_tick covered_issue covered_validate covered_revoke covered_revoke_all)

text \<open>
  C30 (safety, by rule induction).  However tokens are issued, used, revoked and left to age, revoking all
  of a user's tokens leaves not one of them valid, now or later, although each use had moved its expiry;
  and no other user's token is touched.
\<close>

theorem RevokeAllForUser_complete:
  assumes "tkstep\<^sup>*\<^sup>* (t0, \<lparr>tk_tokens = (\<lambda>_. None), tk_index = (\<lambda>_. None)\<rparr>) (now, st)" "now \<le> t"
  shows "snd (Validate t token (RevokeAllForUser now user st)) =
    (case snd (Validate t token st) of Some (s, u) \<Rightarrow> if u = user then None else Some (s, u) | None \<Rightarrow> None)"
proof -
  let ?P = "\<lambda>s. covered (fst s) (snd s) \<and> own_index (snd s)"
  have "?P (now, st)"
  proof (rule reach_inv [OF assms(1), of ?P])
    show "?P (t0, \<lparr>tk_tokens = (\<lambda>_. None), tk_index = (\<lambda>_. None)\<rparr>)"
      by (simp add: covered_def own_index_def)
    show "?P y" if "?P x" "tkstep x y" for x y
      using that covered_step own_step by (cases x; cases y) auto
  qed
  then have cov: "covered now st" and own: "own_index st" by auto
  show ?thesis
  proof (cases "tk_tokens st (segTokenKey token)")
    case None
    then show ?thesis by (simp add: Validate_def RevokeAllForUser_def kv_get_def Let_def)
  next
    case (Some de)
    obtain d e where de: "de = (d, e)" by (cases de)
    note old = Some [unfolded de]
    show ?thesis
    proof (cases "t < e")
      case False
      then show ?thesis using old by (auto simp: Validate_def RevokeAllForUser_def kv_get_def Let_def)
    next
      case True
      then have e: "now < e" using assms(2) by simp
      obtain xs e' where x: "tk_index st (userIndexKey (td_UserID d)) = Some (xs, e')" "e \<le> e'" "token \<in> set xs"
        using coveredD [OF cov old e] .
      have mem: "token \<in> set (set_members (tk_index st) now (userIndexKey user)) \<longleftrightarrow> td_UserID d = user"
      proof
        assume "token \<in> set (set_members (tk_index st) now (userIndexKey user))"
        then obtain ys f where "tk_index st (userIndexKey user) = Some (ys, f)" "token \<in> set ys"
          by (auto simp: set_members_def kv_get_def split: option.splits if_splits)
        then show "td_UserID d = user" using own old unfolding own_index_def by blast
      next
        assume "td_UserID d = user"
        then show "token \<in> set (set_members (tk_index st) now (userIndexKey user))"
          using set_members_live [of "tk_index st" "userIndexKey (td_UserID d)" xs e' now] x e by simp
      qed
      show ?thesis
      proof (cases "td_UserID d = user")
        case u: True
        then have "tk_tokens (RevokeAllForUser now user st) (segTokenKey token) = None"
          using mem by (auto simp: RevokeAllForUser_def Let_def)
        then show ?thesis using old True u by (simp add: Validate_def kv_get_def)
      next
        case u: False
        then have "tk_tokens (RevokeAllForUser now user st) (segTokenKey token) = Some (d, e)"
          using mem old by (auto simp: RevokeAllForUser_def Let_def)
        then show ?thesis using old True u by (simp add: Validate_def kv_get_def)
      qed
    qed
  qed
qed

theorem RevokeAllForUser_complete_witness:
  "snd (Validate 5 ''tok'' (RevokeAllForUser 1 ''ann''
     (Issue 1 ''tok'' ''s'' ''ann'' True \<lparr>tk_tokens = (\<lambda>_. None), tk_index = (\<lambda>_. None)\<rparr>))) = None"
proof -
  let ?e = "\<lparr>tk_tokens = (\<lambda>_. None), tk_index = (\<lambda>_. None)\<rparr> :: TokenStore"
  have "tkstep (1, ?e) (1, Issue 1 ''tok'' ''s'' ''ann'' True ?e)"
    by (rule tkstep.issue) (simp add: unused_def)
  then have "tkstep\<^sup>*\<^sup>* (1, ?e) (1, Issue 1 ''tok'' ''s'' ''ann'' True ?e)" by simp
  moreover have "snd (Validate 5 ''tok'' (Issue 1 ''tok'' ''s'' ''ann'' True ?e)) = Some (''s'', ''ann'')" by code_simp
  ultimately show ?thesis
    using RevokeAllForUser_complete [of 1 1 "Issue 1 ''tok'' ''s'' ''ann'' True ?e" 5 "''tok''" "''ann''"] by simp
qed

end
