(* ===== verification/SafeHttp.thy ===== *)
theory SafeHttp
  imports OSPrelude
begin

unbundle bit_operations_syntax

text \<open>
  The dial-time address policy of outbound fetches (\<open>internal/safehttp/safehttp.go\<close>), with the
  predicates of Go's \<open>net.IP\<close> it relies on.  An address is its bytes: 4 for an IPv4 address, 16 for an
  IPv6 one, where \<open>::ffff:a.b.c.d\<close> also stands for an IPv4 address.
\<close>

type_synonym byte = "8 word"
type_synonym IP = "byte list"

section \<open>The predicates of the \<open>net\<close> package\<close>

definition To4 :: "IP \<Rightarrow> IP option" where
  "To4 ip = (if length ip = 4 then Some ip
    else if length ip = 16 \<and> take 10 ip = replicate 10 0 \<and> ip ! 10 = 0xFF \<and> ip ! 11 = 0xFF then Some (drop 12 ip)
    else None)"

definition IPv4 :: "byte \<Rightarrow> byte \<Rightarrow> byte \<Rightarrow> byte \<Rightarrow> IP" where
  "IPv4 a b c d = replicate 10 0 @ [0xFF, 0xFF, a, b, c, d]"

definition To16 :: "IP \<Rightarrow> IP option" where
  "To16 ip = (if length ip = 4 then Some (IPv4 (ip ! 0) (ip ! 1) (ip ! 2) (ip ! 3))
    else if length ip = 16 then Some ip else None)"

definition IsLoopback :: "IP \<Rightarrow> bool" where
  "IsLoopback ip = (case To4 ip of Some v \<Rightarrow> v ! 0 = 127 | None \<Rightarrow> ip = replicate 15 0 @ [1])"

definition IsLinkLocalUnicast :: "IP \<Rightarrow> bool" where
  "IsLinkLocalUnicast ip = (case To4 ip of Some v \<Rightarrow> v ! 0 = 169 \<and> v ! 1 = 254
    | None \<Rightarrow> length ip = 16 \<and> ip ! 0 = 0xFE \<and> ip ! 1 AND 0xC0 = 0x80)"

definition IsLinkLocalMulticast :: "IP \<Rightarrow> bool" where
  "IsLinkLocalMulticast ip = (case To4 ip of Some v \<Rightarrow> v ! 0 = 224 \<and> v ! 1 = 0 \<and> v ! 2 = 0
    | None \<Rightarrow> length ip = 16 \<and> ip ! 0 = 0xFF \<and> ip ! 1 AND 0x0F = 0x02)"

definition IsPrivate :: "IP \<Rightarrow> bool" where
  "IsPrivate ip = (case To4 ip of
      Some v \<Rightarrow> v ! 0 = 10 \<or> (v ! 0 = 172 \<and> v ! 1 AND 0xF0 = 16) \<or> (v ! 0 = 192 \<and> v ! 1 = 168)
    | None \<Rightarrow> length ip = 16 \<and> ip ! 0 AND 0xFE = 0xFC)"

definition IsUnspecified :: "IP \<Rightarrow> bool" where
  "IsUnspecified ip = (case To4 ip of Some v \<Rightarrow> v = replicate 4 0 | None \<Rightarrow> ip = replicate 16 0)"

definition IsMulticast :: "IP \<Rightarrow> bool" where
  "IsMulticast ip = (case To4 ip of Some v \<Rightarrow> v ! 0 AND 0xF0 = 0xE0 | None \<Rightarrow> length ip = 16 \<and> ip ! 0 = 0xFF)"

text \<open>\<open>IPNet\<close> with its network number and mask, and \<open>IPNet.Contains\<close>.\<close>

record IPNet =
  net_IP :: IP
  net_Mask :: "byte list"

definition IPNet_Contains :: "IPNet \<Rightarrow> IP \<Rightarrow> bool" where
  "IPNet_Contains n ip = (let x = (case To4 ip of Some v \<Rightarrow> v | None \<Rightarrow> ip) in
     length x = length (net_IP n) \<and>
     list_all2 (=) (map2 (AND) (net_IP n) (net_Mask n)) (map2 (AND) x (net_Mask n)))"

section \<open>The policy\<close>

record DialPolicy =
  AllowPrivate :: bool
  AllowLoopback :: bool
  AllowLinkLocal :: bool

datatype BlockReason = Malformed | Unresolved | BLoopback | BLinkLocal | BPrivate | BShared | BUnspecified | BMulticast

definition cgnatNet :: IPNet where
  "cgnatNet = \<lparr>net_IP = [100, 64, 0, 0], net_Mask = [255, 192, 0, 0]\<rparr>"

definition nat64Net :: IPNet where
  "nat64Net = \<lparr>net_IP = [0x00, 0x64, 0xFF, 0x9B] @ replicate 12 0, net_Mask = replicate 12 255 @ replicate 4 0\<rparr>"

definition sixToFour :: IPNet where
  "sixToFour = \<lparr>net_IP = [0x20, 0x02] @ replicate 14 0, net_Mask = replicate 2 255 @ replicate 14 0\<rparr>"

definition isCGNAT :: "IP \<Rightarrow> bool" where
  "isCGNAT ip = (case To4 ip of None \<Rightarrow> False | Some v \<Rightarrow> IPNet_Contains cgnatNet v)"

definition embeddedV4 :: "IP \<Rightarrow> IP option" where
  "embeddedV4 ip = (if To4 ip \<noteq> None then None else
     case To16 ip of None \<Rightarrow> None
     | Some v \<Rightarrow>
         if IPNet_Contains nat64Net ip then Some (IPv4 (v ! 12) (v ! 13) (v ! 14) (v ! 15))
         else if IPNet_Contains sixToFour ip then Some (IPv4 (v ! 2) (v ! 3) (v ! 4) (v ! 5))
         else None)"

lemma To4_IPv4 [simp]: "To4 (IPv4 a b c d) = Some [a, b, c, d]"
  by (simp add: To4_def IPv4_def nth_append)

text \<open>
  \<open>checkIP\<close>: \<open>None\<close> is the nil error, \<open>Some (why, ip)\<close> the wrapped \<open>ErrBlockedAddress\<close> with the address
  it prints.  The recursion goes into the embedded IPv4 address, which embeds none itself.
\<close>

function checkIP :: "DialPolicy \<Rightarrow> IP \<Rightarrow> (BlockReason \<times> IP) option" where
  "checkIP p ip =
    (if IsLoopback ip then if AllowLoopback p then None else Some (BLoopback, ip)
     else if IsLinkLocalUnicast ip \<or> IsLinkLocalMulticast ip then if AllowLinkLocal p then None else Some (BLinkLocal, ip)
     else if IsPrivate ip then if AllowPrivate p then None else Some (BPrivate, ip)
     else if isCGNAT ip then if AllowPrivate p then None else Some (BShared, ip)
     else if IsUnspecified ip then Some (BUnspecified, ip)
     else if IsMulticast ip then Some (BMulticast, ip)
     else case embeddedV4 ip of Some inner \<Rightarrow> checkIP p inner | None \<Rightarrow> None)"
  by pat_completeness auto

lemma embeddedV4_once: "embeddedV4 ip = Some inner \<Longrightarrow> To4 ip = None \<and> To4 inner \<noteq> None"
  by (auto simp: embeddedV4_def split: if_splits option.splits)

termination checkIP
  by (relation "measure (\<lambda>(p, ip). if To4 ip = None then 1 else 0)") (auto dest: embeddedV4_once)

declare checkIP.simps [simp del]

text \<open>
  \<open>checkAddress\<close>: the dialled address after \<open>SplitHostPort\<close> (\<open>None\<close> when it fails) and \<open>ParseIP\<close>
  (\<open>Some None\<close> when the host is not an address).
\<close>

definition checkAddress :: "DialPolicy \<Rightarrow> IP option option \<Rightarrow> (BlockReason \<times> IP) option" where
  "checkAddress p address = (case address of
       None \<Rightarrow> Some (Malformed, [])
     | Some None \<Rightarrow> Some (Unresolved, [])
     | Some (Some ip) \<Rightarrow> checkIP p ip)"

definition publicOnly :: DialPolicy where
  "publicOnly = \<lparr>AllowPrivate = False, AllowLoopback = False, AllowLinkLocal = False\<rparr>"

definition IsBlocked :: "IP \<Rightarrow> bool" where
  "IsBlocked ip \<longleftrightarrow> checkIP publicOnly ip \<noteq> None"

definition LocalDevice :: DialPolicy where
  "LocalDevice = \<lparr>AllowPrivate = True, AllowLoopback = True, AllowLinkLocal = True\<rparr>"

section \<open>Reference: address blocks as numbers\<close>

text \<open>An address as a number, most significant byte first, and membership in the block \<open>base/len\<close> of \<open>w\<close>-bit addresses.\<close>

definition be_num :: "byte list \<Rightarrow> nat" where
  "be_num bs = foldl (\<lambda>n b. n * 256 + unat b) 0 bs"

definition in_block :: "nat \<Rightarrow> byte list \<Rightarrow> nat \<Rightarrow> nat \<Rightarrow> bool" where
  "in_block w base len n \<longleftrightarrow> n div 2 ^ (w - len) = be_num base div 2 ^ (8 * length base - len)"

text \<open>The IPv4 address a connection to \<open>ip\<close> ends at: its own, or the one inside a mapped, NAT64 or 6to4 address.\<close>

definition reached_v4 :: "IP \<Rightarrow> nat option" where
  "reached_v4 ip =
    (if length ip = 4 then Some (be_num ip)
     else if in_block 128 [0,0,0,0,0,0,0,0,0,0,0xFF,0xFF] 96 (be_num ip) then Some (be_num (drop 12 ip))
     else if in_block 128 [0x00,0x64,0xFF,0x9B,0,0,0,0,0,0,0,0] 96 (be_num ip) then Some (be_num (drop 12 ip))
     else if in_block 128 [0x20,0x02] 16 (be_num ip) then Some (be_num (take 4 (drop 2 ip)))
     else None)"

definition v4_permitted :: "DialPolicy \<Rightarrow> nat \<Rightarrow> bool" where
  "v4_permitted p n \<longleftrightarrow>
     (in_block 32 [127] 8 n \<longrightarrow> AllowLoopback p)
   \<and> (in_block 32 [169, 254] 16 n \<or> in_block 32 [224, 0, 0] 24 n \<longrightarrow> AllowLinkLocal p)
   \<and> (in_block 32 [10] 8 n \<or> in_block 32 [172, 16] 12 n \<or> in_block 32 [192, 168] 16 n \<or> in_block 32 [100, 64] 10 n \<longrightarrow> AllowPrivate p)
   \<and> n \<noteq> 0 \<and> (in_block 32 [224] 4 n \<longrightarrow> in_block 32 [224, 0, 0] 24 n)"

definition v6_permitted :: "DialPolicy \<Rightarrow> nat \<Rightarrow> bool" where
  "v6_permitted p n \<longleftrightarrow>
     (n = 1 \<longrightarrow> AllowLoopback p)
   \<and> (in_block 128 [0xFE, 0x80] 10 n \<longrightarrow> AllowLinkLocal p)
   \<and> (in_block 128 [0xFC] 7 n \<longrightarrow> AllowPrivate p)
   \<and> n \<noteq> 0
   \<and> (in_block 128 [0xFF] 8 n \<longrightarrow> (n div 2 ^ 112) mod 16 = 2 \<and> AllowLinkLocal p)"

section \<open>The code against the reference\<close>

lemma be_num_Nil [simp]: "be_num [] = 0"
  by (simp add: be_num_def)

lemma be_num_snoc: "be_num (xs @ [b]) = be_num xs * 256 + unat b"
  by (simp add: be_num_def)

lemma be_num_append: "be_num (xs @ ys) = be_num xs * 256 ^ length ys + be_num ys"
proof (induction ys rule: rev_induct)
  case (snoc b ys)
  then show ?case using be_num_snoc [of "xs @ ys" b] by (simp add: be_num_snoc algebra_simps)
qed simp

lemma unat_byte: "unat (b :: byte) < 256"
  using unsigned_less [of b, where 'a = nat] by simp

lemma be_num_bound: "be_num xs < 256 ^ length xs"
proof (induction xs rule: rev_induct)
  case (snoc b xs)
  then show ?case using unat_byte [of b] by (simp add: be_num_snoc)
qed simp

lemma be_num_inj: "length xs = length ys \<Longrightarrow> be_num xs = be_num ys \<longleftrightarrow> xs = ys"
proof (induction xs arbitrary: ys rule: rev_induct)
  case (snoc b xs)
  then obtain zs c where ys: "ys = zs @ [c]" by (cases ys rule: rev_cases) auto
  have "be_num xs * 256 + unat b = be_num zs * 256 + unat c \<longleftrightarrow> be_num xs = be_num zs \<and> unat b = unat c"
    (is "?l \<longleftrightarrow> ?r")
  proof
    assume ?l
    then have "(be_num xs * 256 + unat b) div 256 = (be_num zs * 256 + unat c) div 256"
      and "(be_num xs * 256 + unat b) mod 256 = (be_num zs * 256 + unat c) mod 256" by simp_all
    then show ?r using unat_byte [of b] unat_byte [of c] by simp
  qed simp
  then show ?case using snoc ys by (simp add: be_num_snoc word_unat_eq_iff)
qed simp

lemma be_num_take: "be_num ip div 256 ^ (length ip - k) = be_num (take k ip)"
proof (cases "k \<le> length ip")
  case True
  have "be_num ip = be_num (take k ip) * 256 ^ (length ip - k) + be_num (drop k ip)"
    using be_num_append [of "take k ip" "drop k ip"] by simp
  then show ?thesis using be_num_bound [of "drop k ip"] by simp
qed simp

lemma in_block_take:
  assumes "w = 8 * length ip" "length base \<le> length ip" "len \<le> 8 * length base"
  shows "in_block w base len (be_num ip) \<longleftrightarrow>
    be_num (take (length base) ip) div 2 ^ (8 * length base - len) = be_num base div 2 ^ (8 * length base - len)"
proof -
  have "w - len = 8 * (length ip - length base) + (8 * length base - len)" using assms by simp
  then have "(2::nat) ^ (w - len) = (2 ^ 8) ^ (length ip - length base) * 2 ^ (8 * length base - len)"
    by (simp only: power_add power_mult)
  then have "be_num ip div 2 ^ (w - len) = be_num ip div 256 ^ (length ip - length base) div 2 ^ (8 * length base - len)"
    by (simp add: div_mult2_eq)
  then show ?thesis by (simp add: in_block_def be_num_take)
qed

lemma in_block_bytes:
  assumes "w = 8 * length ip" "length base \<le> length ip" "len = 8 * length base"
  shows "in_block w base len (be_num ip) \<longleftrightarrow> take (length base) ip = base"
  using assms be_num_inj [of "take (length base) ip" base] by (simp add: in_block_take)

lemma int_byte_bits:
  "list_all (\<lambda>i :: int. (i AND 240 = 16) = (i div 16 = 1)) [0..255]"
  "list_all (\<lambda>i :: int. (i AND 240 = 224) = (i div 16 = 14)) [0..255]"
  "list_all (\<lambda>i :: int. (i AND 192 = 64) = (i div 64 = 1)) [0..255]"
  "list_all (\<lambda>i :: int. (i AND 192 = 128) = (i div 64 = 2)) [0..255]"
  "list_all (\<lambda>i :: int. (i AND 15 = 2) = (i mod 16 = 2)) [0..255]"
  "list_all (\<lambda>i :: int. (i AND 254 = 252) = (i div 2 = 126)) [0..255]"
  "list_all (\<lambda>i :: int. i AND 255 = i) [0..255]"
  by code_simp+

lemma byte_range: "uint (b :: byte) \<in> set [0..255]"
  using unsigned_less [of b, where 'a = int] by simp

lemma byte_bits:
  fixes b :: byte
  shows "b AND 0xF0 = 16 \<longleftrightarrow> unat b div 16 = 1"
    and "b AND 0xF0 = 0xE0 \<longleftrightarrow> unat b div 16 = 14"
    and "b AND 192 = 64 \<longleftrightarrow> unat b div 64 = 1"
    and "b AND 0xC0 = 0x80 \<longleftrightarrow> unat b div 64 = 2"
    and "b AND 0x0F = 0x02 \<longleftrightarrow> unat b mod 16 = 2"
    and "b AND 0xFE = 0xFC \<longleftrightarrow> unat b div 2 = 126"
    and "b AND 255 = b"
proof -
  note f = int_byte_bits [THEN list_all_iff [THEN iffD1], THEN bspec, OF byte_range [of b]]
  have a: "b AND m = k \<longleftrightarrow> uint b AND uint m = uint k" for m k
    by (simp add: word_uint_eq_iff uint_and)
  have d: "uint b div int m = int k \<longleftrightarrow> unat b div m = k" "uint b mod int m = int k \<longleftrightarrow> unat b mod m = k" for m k
    by (simp_all only: uint_nat of_nat_div [symmetric] of_nat_mod [symmetric] of_nat_eq_iff)
  show "b AND 0xF0 = 16 \<longleftrightarrow> unat b div 16 = 1" using a [of 240 16] f(1) d(1) [of 16 1] by simp
  show "b AND 0xF0 = 0xE0 \<longleftrightarrow> unat b div 16 = 14" using a [of 240 224] f(2) d(1) [of 16 14] by simp
  show "b AND 192 = 64 \<longleftrightarrow> unat b div 64 = 1" using a [of 192 64] f(3) d(1) [of 64 1] by simp
  show "b AND 0xC0 = 0x80 \<longleftrightarrow> unat b div 64 = 2" using a [of 192 128] f(4) d(1) [of 64 2] by simp
  show "b AND 0x0F = 0x02 \<longleftrightarrow> unat b mod 16 = 2" using a [of 15 2] f(5) d(2) [of 16 2] by simp
  show "b AND 0xFE = 0xFC \<longleftrightarrow> unat b div 2 = 126" using a [of 254 252] f(6) d(1) [of 2 126] by simp
  show "b AND 255 = b" using a [of 255 b] f(7) by simp
qed

lemma length_4: "length xs = 4 \<longleftrightarrow> (\<exists>a b c d. xs = [a, b, c, d])"
  by (auto simp: length_Suc_conv eval_nat_numeral)

lemma two_bytes: "(unat (a :: byte) * 256 + unat (b :: byte)) div m = (k * 256 + l) div m \<longleftrightarrow> a = of_nat k \<and> unat b div m = l div m"
  if m: "m dvd 256" and k: "k < 256" and l: "l < 256"
proof -
  obtain q where q: "256 = m * q" using m by (elim dvdE)
  have "0 < m" using q by (cases m) auto
  have split: "(x * 256 + y) div m = x * q + y div m" for x y
    using q \<open>0 < m\<close> by (metis div_mult_self3 mult.left_commute mult.commute neq0_conv)
  have y: "y div m < q" if "y < 256" for y
    using that q by (simp add: less_mult_imp_div_less mult.commute)
  have "unat a * q + unat b div m = k * q + l div m \<longleftrightarrow> unat a = k \<and> unat b div m = l div m"
    (is "?l \<longleftrightarrow> ?r")
  proof
    assume ?l
    then have "(unat a * q + unat b div m) div q = (k * q + l div m) div q" "(unat a * q + unat b div m) mod q = (k * q + l div m) mod q"
      by simp_all
    then show ?r using y [OF unat_byte, of b] y [OF l] by simp
  qed simp
  moreover have "unat a = k \<longleftrightarrow> a = of_nat k" using k by (simp add: word_unat_eq_iff unat_of_nat)
  ultimately show ?thesis by (simp add: split)
qed

text \<open>The predicates on an IPv4 address, block by block.\<close>

lemma v4_blocks:
  fixes a b c d :: byte
  defines "n \<equiv> be_num [a, b, c, d]"
  shows "in_block 32 [127] 8 n \<longleftrightarrow> a = 127" "in_block 32 [169, 254] 16 n \<longleftrightarrow> a = 169 \<and> b = 254"
    "in_block 32 [224, 0, 0] 24 n \<longleftrightarrow> a = 224 \<and> b = 0 \<and> c = 0" "in_block 32 [10] 8 n \<longleftrightarrow> a = 10"
    "in_block 32 [192, 168] 16 n \<longleftrightarrow> a = 192 \<and> b = 168"
    "in_block 32 [172, 16] 12 n \<longleftrightarrow> a = 172 \<and> b AND 0xF0 = 16"
    "in_block 32 [100, 64] 10 n \<longleftrightarrow> a = 100 \<and> b AND 192 = 64"
    "in_block 32 [224] 4 n \<longleftrightarrow> a AND 0xF0 = 0xE0" "n = 0 \<longleftrightarrow> [a, b, c, d] = replicate 4 0"
proof -
  note take = in_block_take [of 32 "[a, b, c, d]"]
  have num: "be_num [x, y] = unat x * 256 + unat y" "be_num [x] = unat x" for x y :: byte by (simp_all add: be_num_def)
  show "in_block 32 [127] 8 n \<longleftrightarrow> a = 127" "in_block 32 [169, 254] 16 n \<longleftrightarrow> a = 169 \<and> b = 254"
    "in_block 32 [224, 0, 0] 24 n \<longleftrightarrow> a = 224 \<and> b = 0 \<and> c = 0" "in_block 32 [10] 8 n \<longleftrightarrow> a = 10"
    "in_block 32 [192, 168] 16 n \<longleftrightarrow> a = 192 \<and> b = 168"
    by (simp_all only: n_def, simp_all add: in_block_bytes)
  show "in_block 32 [172, 16] 12 n \<longleftrightarrow> a = 172 \<and> b AND 0xF0 = 16"
    using take [of "[172, 16]" 12] two_bytes [of 16 172 16 a b] by (simp add: n_def num byte_bits)
  show "in_block 32 [100, 64] 10 n \<longleftrightarrow> a = 100 \<and> b AND 192 = 64"
    using take [of "[100, 64]" 10] two_bytes [of 64 100 64 a b] by (simp add: n_def num byte_bits)
  show "in_block 32 [224] 4 n \<longleftrightarrow> a AND 0xF0 = 0xE0"
    using take [of "[224]" 4] by (simp add: n_def num byte_bits)
  have "replicate 4 (0 :: byte) = [0, 0, 0, 0]" "be_num [0, 0, 0, 0] = 0" by code_simp+
  then show "n = 0 \<longleftrightarrow> [a, b, c, d] = replicate 4 0"
    using be_num_inj [of "[a, b, c, d]" "[0, 0, 0, 0]"] by (simp add: n_def)
qed

lemma mask_zero: "length xs = n \<Longrightarrow> map2 (AND) xs (replicate n (0 :: byte)) = replicate n 0"
  by (induction xs arbitrary: n) auto

lemma mask_full: "length xs = n \<Longrightarrow> map2 (AND) xs (replicate n (255 :: byte)) = xs"
  by (induction xs arbitrary: n) (auto simp: byte_bits)

lemma contains_bytes:
  assumes "To4 ip = None" "length ip = k + j" "length base = k"
  shows "IPNet_Contains \<lparr>net_IP = base @ replicate j 0, net_Mask = replicate k 255 @ replicate j 0\<rparr> ip \<longleftrightarrow> take k ip = base"
proof -
  obtain xs ys where ip: "ip = xs @ ys" "length xs = k" "length ys = j"
    using assms(2) by (metis append_take_drop_id length_drop length_take add_diff_cancel_left' le_add1 min.absorb2)
  then have "map2 (AND) ip (replicate k 255 @ replicate j 0) = take k ip @ replicate j 0"
    by (simp add: mask_full mask_zero)
  moreover have "map2 (AND) (base @ replicate j 0) (replicate k 255 @ replicate j 0) = base @ replicate j 0"
    using assms(3) by (simp add: mask_full mask_zero)
  ultimately show ?thesis using assms by (auto simp: IPNet_Contains_def list.rel_eq)
qed

lemma isCGNAT_v4: "To4 ip = Some [a, b, c, d] \<Longrightarrow> isCGNAT ip \<longleftrightarrow> a = 100 \<and> b AND 192 = 64"
  by (auto simp: isCGNAT_def IPNet_Contains_def cgnatNet_def To4_def byte_bits)

lemma checkIP_v4:
  assumes "To4 ip = Some [a, b, c, d]"
  shows "checkIP p ip = None \<longleftrightarrow> v4_permitted p (be_num [a, b, c, d])"
proof -
  have e: "embeddedV4 ip = None" using assms by (simp add: embeddedV4_def)
  note preds = IsLoopback_def IsLinkLocalUnicast_def IsLinkLocalMulticast_def IsPrivate_def isCGNAT_v4 [OF assms]
    IsUnspecified_def IsMulticast_def assms e option.case nth_Cons_0 One_nat_def nth_Cons_Suc
  have z: "replicate 4 (0 :: byte) = [0, 0, 0, 0]" by code_simp
  consider "a = 127" | "a = 169" | "a = 224" | "a = 10" | "a = 172" | "a = 192" | "a = 100"
    | "a \<noteq> 127 \<and> a \<noteq> 169 \<and> a \<noteq> 224 \<and> a \<noteq> 10 \<and> a \<noteq> 172 \<and> a \<noteq> 192 \<and> a \<noteq> 100" by blast
  then show ?thesis
    unfolding v4_permitted_def v4_blocks checkIP.simps [of p ip] by cases (simp_all add: preds z)
qed

lemma To4_16: "length ip = 16 \<Longrightarrow> To4 ip = (if take 12 ip = [0,0,0,0,0,0,0,0,0,0,0xFF,0xFF] then Some (drop 12 ip) else None)"
proof -
  assume l: "length ip = 16"
  have "take 12 ip = take 10 ip @ [ip ! 10, ip ! 11]"
    using l take_Suc_conv_app_nth [of 11 ip] take_Suc_conv_app_nth [of 10 ip] by simp
  moreover have "replicate 10 (0 :: byte) = [0,0,0,0,0,0,0,0,0,0]" by code_simp
  ultimately show ?thesis using l by (auto simp: To4_def)
qed

lemma v6_blocks:
  assumes l: "length ip = 16"
  defines "n \<equiv> be_num ip"
  shows "in_block 128 [0,0,0,0,0,0,0,0,0,0,0xFF,0xFF] 96 n \<longleftrightarrow> To4 ip \<noteq> None"
    "in_block 128 [0x00,0x64,0xFF,0x9B,0,0,0,0,0,0,0,0] 96 n \<longleftrightarrow> take 12 ip = [0x00,0x64,0xFF,0x9B,0,0,0,0,0,0,0,0]"
    "in_block 128 [0x20,0x02] 16 n \<longleftrightarrow> take 2 ip = [0x20,0x02]"
    "in_block 128 [0xFE, 0x80] 10 n \<longleftrightarrow> ip ! 0 = 0xFE \<and> ip ! 1 AND 0xC0 = 0x80"
    "in_block 128 [0xFC] 7 n \<longleftrightarrow> ip ! 0 AND 0xFE = 0xFC"
    "in_block 128 [0xFF] 8 n \<longleftrightarrow> ip ! 0 = 0xFF"
    "(n div 2 ^ 112) mod 16 = 2 \<longleftrightarrow> ip ! 1 AND 0x0F = 0x02"
    "n = 0 \<longleftrightarrow> ip = replicate 16 0" "n = 1 \<longleftrightarrow> ip = replicate 15 0 @ [1]"
proof -
  have num: "be_num [x, y] = unat x * 256 + unat y" "be_num [x] = unat x" for x y :: byte by (simp_all add: be_num_def)
  obtain x y zs where ip: "ip = x # y # zs" using l by (cases ip; cases "tl ip") auto
  then have t1: "take (Suc 0) ip = [ip ! 0]" and t2: "take 2 ip = [ip ! 0, ip ! 1]" and t2': "take (Suc (Suc 0)) ip = [ip ! 0, ip ! 1]" by simp_all
  have mod16: "(u * 256 + v) mod 16 = v mod 16" for u v :: nat
    using mod_mult_self3 [of "u * 16" 16 v] by (simp add: mult.commute)
  have t12: "take (Suc (Suc (Suc (Suc (Suc (Suc (Suc (Suc (Suc (Suc (Suc (Suc 0)))))))))))) ip = take 12 ip"
    by (simp add: eval_nat_numeral)
  show "in_block 128 [0,0,0,0,0,0,0,0,0,0,0xFF,0xFF] 96 n \<longleftrightarrow> To4 ip \<noteq> None"
    using l by (simp only: n_def, simp add: in_block_bytes To4_16 t12)
  show "in_block 128 [0x00,0x64,0xFF,0x9B,0,0,0,0,0,0,0,0] 96 n \<longleftrightarrow> take 12 ip = [0x00,0x64,0xFF,0x9B,0,0,0,0,0,0,0,0]"
    using l by (simp only: n_def, simp add: in_block_bytes t12)
  show "in_block 128 [0x20,0x02] 16 n \<longleftrightarrow> take 2 ip = [0x20,0x02]" "in_block 128 [0xFF] 8 n \<longleftrightarrow> ip ! 0 = 0xFF"
    using l by (simp_all only: n_def, simp_all add: in_block_bytes t1 t2 t2')
  show "in_block 128 [0xFE, 0x80] 10 n \<longleftrightarrow> ip ! 0 = 0xFE \<and> ip ! 1 AND 0xC0 = 0x80"
    using l in_block_take [of 128 ip "[0xFE, 0x80]" 10] two_bytes [of 64 254 128 "ip ! 0" "ip ! 1"]
    by (simp add: n_def num byte_bits t2')
  show "in_block 128 [0xFC] 7 n \<longleftrightarrow> ip ! 0 AND 0xFE = 0xFC"
    using l in_block_take [of 128 ip "[0xFC]" 7] by (simp add: n_def num byte_bits t1)
  have "n div 2 ^ 112 = be_num (take 2 ip)" using be_num_take [of ip 2] l by (simp add: n_def)
  then have "(n div 2 ^ 112) mod 16 = unat (ip ! 1) mod 16" by (simp only: t2 num mod16)
  then show "(n div 2 ^ 112) mod 16 = 2 \<longleftrightarrow> ip ! 1 AND 0x0F = 0x02" by (simp add: byte_bits)
  have "be_num (replicate 16 0) = 0" "be_num (replicate 15 0 @ [1]) = 1" by code_simp+
  then show "n = 0 \<longleftrightarrow> ip = replicate 16 0" "n = 1 \<longleftrightarrow> ip = replicate 15 0 @ [1]"
    using l be_num_inj [of ip "replicate 16 0"] be_num_inj [of ip "replicate 15 0 @ [1]"] by (simp_all add: n_def)
qed

text \<open>The IPv4 address inside a NAT64 or 6to4 address, and the checks of the outer address, which such an address passes.\<close>

lemma embeddedV4_16:
  assumes l: "length ip = 16" and t: "To4 ip = None"
  shows "embeddedV4 ip =
    (if take 12 ip = [0x00,0x64,0xFF,0x9B,0,0,0,0,0,0,0,0] then Some (IPv4 (ip ! 12) (ip ! 13) (ip ! 14) (ip ! 15))
     else if take 2 ip = [0x20,0x02] then Some (IPv4 (ip ! 2) (ip ! 3) (ip ! 4) (ip ! 5)) else None)"
proof -
  have "nat64Net = \<lparr>net_IP = [0x00,0x64,0xFF,0x9B,0,0,0,0,0,0,0,0] @ replicate 4 0, net_Mask = replicate 12 255 @ replicate 4 0\<rparr>"
    by code_simp
  then have "IPNet_Contains nat64Net ip \<longleftrightarrow> take 12 ip = [0x00,0x64,0xFF,0x9B,0,0,0,0,0,0,0,0]"
    using contains_bytes [OF t, of 12 4 "[0x00,0x64,0xFF,0x9B,0,0,0,0,0,0,0,0]"] l by simp
  moreover have "IPNet_Contains sixToFour ip \<longleftrightarrow> take 2 ip = [0x20, 0x02]"
    using contains_bytes [OF t, of 2 14 "[0x20, 0x02]"] l by (simp add: sixToFour_def)
  ultimately show ?thesis using l t by (simp add: embeddedV4_def To16_def)
qed

lemma policy_cases:
  "(A \<longrightarrow> \<not> U \<and> \<not> X \<and> \<not> F \<and> \<not> P) \<Longrightarrow> (U \<longrightarrow> \<not> X \<and> \<not> F \<and> \<not> P) \<Longrightarrow> (X \<longrightarrow> \<not> F \<and> \<not> P) \<Longrightarrow> (F \<longrightarrow> \<not> P) \<Longrightarrow>
   (if A then if lb then None else Some a else if X \<or> (F \<and> M) then if ll then None else Some b
    else if P then if pv then None else Some c else if U then Some e else if F then Some f else None) = None \<longleftrightarrow>
   (A \<longrightarrow> lb) \<and> (X \<longrightarrow> ll) \<and> (P \<longrightarrow> pv) \<and> \<not> U \<and> (F \<longrightarrow> M \<and> ll)"
  by auto

lemma checkIP_v6:
  assumes l: "length ip = 16" and t: "To4 ip = None"
  shows "checkIP p ip = None \<longleftrightarrow> (case embeddedV4 ip of Some inner \<Rightarrow> checkIP p inner = None | None \<Rightarrow> v6_permitted p (be_num ip))"
proof -
  have cg: "\<not> isCGNAT ip" using t by (simp add: isCGNAT_def)
  have lo: "IsLoopback ip \<longleftrightarrow> ip = replicate 15 0 @ [1]" and un: "IsUnspecified ip \<longleftrightarrow> ip = replicate 16 0"
    and ll: "IsLinkLocalUnicast ip \<longleftrightarrow> ip ! 0 = 0xFE \<and> ip ! 1 AND 0xC0 = 0x80"
    and lm: "IsLinkLocalMulticast ip \<longleftrightarrow> ip ! 0 = 0xFF \<and> ip ! 1 AND 0x0F = 0x02"
    and pr: "IsPrivate ip \<longleftrightarrow> ip ! 0 AND 0xFE = 0xFC" and mu: "IsMulticast ip \<longleftrightarrow> ip ! 0 = 0xFF"
    using t l by (simp_all add: IsLoopback_def IsUnspecified_def IsLinkLocalUnicast_def IsLinkLocalMulticast_def IsPrivate_def IsMulticast_def)
  note preds = lo un ll lm pr mu
  have z: "(replicate 15 0 @ [1]) ! 0 = (0 :: byte)" "(replicate 16 0) ! 0 = (0 :: byte)" "replicate 15 0 @ [1] \<noteq> replicate 16 (0 :: byte)"
    "(0 :: byte) AND 254 \<noteq> 252" "(0 :: byte) \<noteq> 254" "(0 :: byte) \<noteq> 255" "(254 :: byte) AND 254 \<noteq> 252" "(255 :: byte) AND 254 \<noteq> 252"
    "(254 :: byte) \<noteq> 255"
    by code_simp+
  show ?thesis
  proof (cases "embeddedV4 ip")
    case None
    have "ip = replicate 15 0 @ [1] \<Longrightarrow> ip ! 0 = 0 \<and> ip \<noteq> replicate 16 0" "ip = replicate 16 0 \<Longrightarrow> ip ! 0 = 0"
      using z(1-3) by (simp_all only:) simp_all
    then have ex: "ip = replicate 15 0 @ [1] \<longrightarrow> ip \<noteq> replicate 16 0 \<and> \<not> (ip ! 0 = 254 \<and> ip ! 1 AND 192 = 128) \<and> ip ! 0 \<noteq> 255 \<and> ip ! 0 AND 254 \<noteq> 252"
      "ip = replicate 16 0 \<longrightarrow> \<not> (ip ! 0 = 254 \<and> ip ! 1 AND 192 = 128) \<and> ip ! 0 \<noteq> 255 \<and> ip ! 0 AND 254 \<noteq> 252"
      "ip ! 0 = 254 \<and> ip ! 1 AND 192 = 128 \<longrightarrow> ip ! 0 \<noteq> 255 \<and> ip ! 0 AND 254 \<noteq> 252" "ip ! 0 = 255 \<longrightarrow> ip ! 0 AND 254 \<noteq> 252"
      using z by metis+
    show ?thesis unfolding v6_permitted_def v6_blocks [OF l] checkIP.simps [of p ip] preds
      by (simp only: None cg option.case if_False) (rule policy_cases [OF ex])
  next
    case (Some inner)
    then have "take 12 ip = [0x00,0x64,0xFF,0x9B,0,0,0,0,0,0,0,0] \<or> take 2 ip = [0x20,0x02]"
      by (auto simp: embeddedV4_16 [OF l t] split: if_splits)
    moreover have "take 2 (take 12 ip) = take 2 ip" by simp
    ultimately have "take 2 ip = [0, 0x64] \<or> take 2 ip = [0x20, 0x02]" by (metis take_Suc_Cons take0 numeral_2_eq_2)
    moreover obtain x y zs where "ip = x # y # zs" using l by (cases ip; cases "tl ip") auto
    ultimately have b: "ip ! 0 = 0 \<and> ip ! 1 = 0x64 \<or> ip ! 0 = 0x20 \<and> ip ! 1 = 0x02" by simp
    have n: "(replicate 15 0 @ [1]) ! 1 = (0 :: byte)" "(replicate 16 0) ! 1 = (0 :: byte)" "(0x64 :: byte) \<noteq> 0" "(0x02 :: byte) \<noteq> 0"
      "(0x20 :: byte) \<noteq> 254" "(0x20 :: byte) \<noteq> 255" "(0x20 :: byte) AND 254 \<noteq> 252"
      by code_simp+
    have "ip \<noteq> replicate 15 0 @ [1]" "ip \<noteq> replicate 16 0" "ip ! 0 \<noteq> 254" "ip ! 0 \<noteq> 255" "ip ! 0 AND 254 \<noteq> 252"
      using b n z by auto
    then show ?thesis using Some cg preds by (simp add: checkIP.simps [of p ip])
  qed
qed

text \<open>
  C31 (equivalence).  Read as numbers and blocks, the policy lets a connection through exactly when the
  address it ends at is allowed: the IPv4 address itself, written plainly, mapped into IPv6, or wrapped
  for NAT64 or 6to4, outside loopback, link-local, private and shared space unless the policy opens
  them, and never unspecified or multicast (link-local groups apart); and the same for native IPv6.
  The recursion into the wrapped address ends.
\<close>

theorem checkIP_blocks:
  assumes "length ip \<in> {4, 16}"
  shows "checkIP p ip = None \<longleftrightarrow>
    (case reached_v4 ip of Some n \<Rightarrow> v4_permitted p n | None \<Rightarrow> v6_permitted p (be_num ip))"
proof (cases "length ip = 4")
  case True
  then obtain a b c d where "ip = [a, b, c, d]" by (auto simp: length_4)
  then show ?thesis using checkIP_v4 [of ip a b c d p] by (simp add: reached_v4_def To4_def)
next
  case False
  then have l: "length ip = 16" using assms by simp
  have d4: "drop 12 ip = [ip ! 12, ip ! 13, ip ! 14, ip ! 15]" "take 4 (drop 2 ip) = [ip ! 2, ip ! 3, ip ! 4, ip ! 5]"
    using l by (auto intro!: nth_equalityI simp: nth_Cons numeral_eq_Suc less_Suc_eq split: nat.splits)
  show ?thesis
  proof (cases "To4 ip")
    case (Some v)
    then have "v = drop 12 ip" using l by (simp add: To4_16 split: if_splits)
    then show ?thesis using Some l v6_blocks(1) [OF l] checkIP_v4 [of ip "ip ! 12" "ip ! 13" "ip ! 14" "ip ! 15" p]
      by (simp add: reached_v4_def d4)
  next
    case None
    have inner: "checkIP p (IPv4 a b c d) = None \<longleftrightarrow> v4_permitted p (be_num [a, b, c, d])" for a b c d
      by (rule checkIP_v4) simp
    have "reached_v4 ip = (if take 12 ip = [0x00,0x64,0xFF,0x9B,0,0,0,0,0,0,0,0] then Some (be_num (drop 12 ip))
       else if take 2 ip = [0x20,0x02] then Some (be_num (take 4 (drop 2 ip))) else None)"
      unfolding reached_v4_def v6_blocks [OF l] using None l by simp
    then show ?thesis
      using checkIP_v6 [OF l None, of p] unfolding embeddedV4_16 [OF l None] d4 by (simp add: inner)
  qed
qed

theorem checkIP_blocks_witness:
  "IsBlocked ([0x00, 0x64, 0xFF, 0x9B, 0, 0, 0, 0, 0, 0, 0, 0, 169, 254, 169, 254])
   \<and> checkIP publicOnly [1, 1, 1, 1] = None"
proof -
  let ?ip = "[0x00, 0x64, 0xFF, 0x9B, 0, 0, 0, 0, 0, 0, 0, 0, 169, 254, 169, 254] :: IP"
  have "length ?ip \<in> {4, 16}" "length [1, 1, 1, 1 :: byte] \<in> {4, 16}" by simp_all
  moreover have "reached_v4 ?ip = Some 2852039166" "reached_v4 [1, 1, 1, 1] = Some 16843009"
    by (simp_all add: reached_v4_def in_block_def be_num_def)
  moreover have "\<not> v4_permitted publicOnly 2852039166" "v4_permitted publicOnly 16843009"
    by (simp_all add: v4_permitted_def in_block_def be_num_def publicOnly_def)
  ultimately show ?thesis using checkIP_blocks [of ?ip publicOnly] checkIP_blocks [of "[1, 1, 1, 1]" publicOnly]
    by (simp add: IsBlocked_def)
qed

end
