(* ===== verification/Pcp.thy ===== *)
theory Pcp
  imports SafeHttp
begin

text \<open>
  The Port Control Protocol client (\<open>internal/portmap/pcp.go\<close>): the wire format of the MAP opcode, the
  reading of a response, and the request loop with its doubling timeout.  Durations are milliseconds.
\<close>

section \<open>Wire format\<close>

definition PutUint16 :: "16 word \<Rightarrow> byte list" where
  "PutUint16 w = [ucast (drop_bit 8 w), ucast w]"

definition PutUint32 :: "32 word \<Rightarrow> byte list" where
  "PutUint32 w = [ucast (drop_bit 24 w), ucast (drop_bit 16 w), ucast (drop_bit 8 w), ucast w]"

definition Uint16 :: "byte list \<Rightarrow> 16 word" where
  "Uint16 b = (push_bit 8 (ucast (b ! 0))) OR ucast (b ! 1)"

definition Uint32 :: "byte list \<Rightarrow> 32 word" where
  "Uint32 b = push_bit 24 (ucast (b ! 0)) OR push_bit 16 (ucast (b ! 1)) OR push_bit 8 (ucast (b ! 2)) OR ucast (b ! 3)"

text \<open>\<open>copy\<close> into a zeroed 16-byte field; \<open>To16\<close> of a malformed address is nil and copies nothing.\<close>

definition addr_field :: "IP \<Rightarrow> byte list" where
  "addr_field ip = (case To16 ip of None \<Rightarrow> replicate 16 0 | Some v \<Rightarrow> v)"

definition encodePCPMap :: "IP \<Rightarrow> byte list \<Rightarrow> int \<Rightarrow> int \<Rightarrow> 32 word \<Rightarrow> byte list" where
  "encodePCPMap client nonce internalPort suggestedPort lifetime =
     [2, 1, 0, 0] @ PutUint32 lifetime @ addr_field client
     @ nonce @ [6, 0, 0, 0] @ PutUint16 (word_of_int internalPort) @ PutUint16 (word_of_int suggestedPort)
     @ IPv4 0 0 0 0"

datatype pcpError = errPCPUnsupported | ShortResponse nat | Unexpected byte byte | pcpResultError byte
  | errPCPOtherNonce | NetError | ContextError | NoAnswer

record pcpMapResponse =
  lifetime :: "32 word"
  externalPort :: int
  externalIP :: "IP option"

definition decodePCPMap :: "byte list \<Rightarrow> byte list \<Rightarrow> pcpError + pcpMapResponse" where
  "decodePCPMap b nonce =
    (if 2 \<le> length b \<and> b ! 0 = 0 then Inl errPCPUnsupported
     else if length b < 60 then Inl (ShortResponse (length b))
     else if b ! 0 \<noteq> 2 \<or> b ! 1 \<noteq> 0x80 OR 1 then Inl (Unexpected (b ! 0) (b ! 1))
     else if b ! 3 \<noteq> 0 then Inl (if b ! 3 = 1 then errPCPUnsupported else pcpResultError (b ! 3))
     else let p = drop 24 b in
       if take 12 p \<noteq> nonce then Inl errPCPOtherNonce
       else Inr \<lparr>lifetime = Uint32 (take 4 (drop 4 b)), externalPort = uint (Uint16 (take 2 (drop 18 p))),
                 externalIP = To4 (take 16 (drop 20 p))\<rparr>)"

text \<open>The refusals the status page spells out.\<close>

definition pcpResultError_Error :: "byte \<Rightarrow> string" where
  "pcpResultError_Error code =
    (if code = 2 then ''the router refused the mapping (PCP NOT_AUTHORIZED)''
     else if code = 8 then ''the router has no room for another mapping (PCP NO_RESOURCES)''
     else if code = 9 then ''the router can't map TCP (PCP UNSUPP_PROTOCOL)''
     else if code = 11 then ''the router can't provide that external port (PCP CANNOT_PROVIDE_EXTERNAL)''
     else ''the router refused the mapping (PCP result '' @ Itoa (uint code) @ '')'')"

section \<open>The request loop\<close>

text \<open>
  What the network does during one attempt: the datagrams that arrive before the read deadline, then a
  time-out or another read error; \<open>late\<close> is how long after the read deadline the time-out is noticed.
\<close>

record Attempt =
  write_ok :: bool
  datagrams :: "byte list list"
  read_fails :: bool
  late :: int
  ctx_err :: bool

text \<open>The inner loop: the first datagram that is not a stray decides; \<open>None\<close> means the read timed out.\<close>

fun read_loop :: "byte list \<Rightarrow> byte list list \<Rightarrow> bool \<Rightarrow> (pcpError + pcpMapResponse) option" where
  "read_loop nonce [] fails = (if fails then Some (Inl NetError) else None)"
| "read_loop nonce (b # bs) fails =
    (let r = decodePCPMap b nonce in if r = Inl errPCPOtherNonce then read_loop nonce bs fails else Some r)"

fun map_loop :: "byte list \<Rightarrow> int \<Rightarrow> int \<Rightarrow> int \<Rightarrow> Attempt list \<Rightarrow> (pcpError + pcpMapResponse) option" where
  "map_loop nonce deadline now wait [] = None"
| "map_loop nonce deadline now wait (a # as) =
    (if \<not> write_ok a then Some (Inl NetError)
     else let nxt = (if deadline < now + wait then deadline else now + wait) in
       case read_loop nonce (datagrams a) (read_fails a) of
         Some r \<Rightarrow> Some r
       | None \<Rightarrow>
           if ctx_err a then Some (Inl ContextError)
           else let now' = max now nxt + late a in
             if \<not> now' < deadline then Some (Inl NoAnswer) else map_loop nonce deadline now' (wait * 2) as)"

text \<open>\<open>mapRequest\<close>: \<open>net\<close> is the network, from the request sent to what the attempts see.\<close>

definition mapRequest ::
  "int \<Rightarrow> int \<Rightarrow> int option \<Rightarrow> byte list \<Rightarrow> (byte list \<Rightarrow> Attempt list) \<Rightarrow> IP \<Rightarrow> int \<Rightarrow> int \<Rightarrow> 32 word \<Rightarrow>
   (pcpError + pcpMapResponse) option" where
  "mapRequest now timeout ctx_deadline nonce net internalIP internalPort extPort life =
    (let d = now + timeout; deadline = (case ctx_deadline of Some c \<Rightarrow> if c < d then c else d | None \<Rightarrow> d)
     in map_loop nonce deadline now 1000 (net (encodePCPMap internalIP nonce internalPort extPort life)))"

text \<open>\<open>AddMapping\<close> and \<open>DeleteMapping\<close> of the gateway, with the address the last MAP assigned.\<close>

record pcpGateway =
  nonce :: "byte list"
  gw_timeout :: int
  external :: "IP option"

definition lease_secs :: "int \<Rightarrow> 32 word" where
  "lease_secs lease = (let s = word_of_int (go_div lease 1000) in if s = 0 then 3600 else s)"

definition pcp_AddMapping ::
  "int \<Rightarrow> int option \<Rightarrow> (byte list \<Rightarrow> Attempt list) \<Rightarrow> pcpGateway \<Rightarrow> IP \<Rightarrow> int \<Rightarrow> int \<Rightarrow> int \<Rightarrow>
   pcpGateway \<times> (pcpError + int \<times> int) option" where
  "pcp_AddMapping now ctx net g internalIP internalPort extPort lease =
    (case mapRequest now (gw_timeout g) ctx (nonce g) net internalIP internalPort extPort (lease_secs lease) of
       None \<Rightarrow> (g, None)
     | Some (Inl e) \<Rightarrow> (g, Some (Inl e))
     | Some (Inr r) \<Rightarrow> (g\<lparr>external := externalIP r\<rparr>, Some (Inr (externalPort r, uint (lifetime r) * 1000))))"

definition pcp_DeleteMapping ::
  "int \<Rightarrow> int option \<Rightarrow> (byte list \<Rightarrow> Attempt list) \<Rightarrow> pcpGateway \<Rightarrow> IP \<Rightarrow> int \<Rightarrow> int \<Rightarrow> (pcpError option) option" where
  "pcp_DeleteMapping now ctx net g internalIP internalPort extPort =
    (case mapRequest now (gw_timeout g) ctx (nonce g) net internalIP internalPort extPort 0 of
       None \<Rightarrow> None | Some (Inl e) \<Rightarrow> Some (Some e) | Some (Inr _) \<Rightarrow> Some None)"

definition pcp_ExternalIP :: "pcpGateway \<Rightarrow> IP option" where
  "pcp_ExternalIP g = external g"

section \<open>Round trip\<close>

text \<open>The answer of a server to a request (RFC 6887, sections 7.2 and 11.1): the nonce, protocol and internal port are echoed.\<close>

definition pcpAnswer :: "byte list \<Rightarrow> byte \<Rightarrow> 32 word \<Rightarrow> byte list \<Rightarrow> 16 word \<Rightarrow> IP \<Rightarrow> byte list" where
  "pcpAnswer req code life epoch ext ip =
     [2, 0x81, 0, code] @ PutUint32 life @ epoch @ replicate 12 0
     @ take 12 (drop 24 req) @ take 4 (drop 36 req) @ take 2 (drop 40 req) @ PutUint16 ext @ addr_field ip"

lemma Uint16_Put [simp]: "Uint16 (PutUint16 w) = w"
  unfolding Uint16_def PutUint16_def
  by (rule bit_word_eqI) (auto simp: bit_simps)

lemma Uint32_Put [simp]: "Uint32 (PutUint32 w) = w"
proof (rule bit_word_eqI)
  fix n assume "n < LENGTH(32)"
  then consider "n < 8" | "8 \<le> n" "n < 16" | "16 \<le> n" "n < 24" | "24 \<le> n" "n < 32" by force
  then show "bit (Uint32 (PutUint32 w)) n \<longleftrightarrow> bit w n"
    unfolding Uint32_def PutUint32_def by cases (auto simp: bit_simps)
qed

lemma lengths [simp]: "length (PutUint16 w) = 2" "length (PutUint32 u) = 4" "length (IPv4 a b c d) = 16"
  by (simp_all add: PutUint16_def PutUint32_def IPv4_def)

lemma addr_field_length [simp]: "length (addr_field ip) = 16"
  by (auto simp: addr_field_def To16_def split: option.splits)

lemma addr_field_To4: "length ip = 4 \<Longrightarrow> To4 (addr_field ip) = Some ip"
  by (auto simp: addr_field_def To16_def length_4)

lemma request_nonce: "length n = 12 \<Longrightarrow> take 12 (drop 24 (encodePCPMap client n iport sport life)) = n"
  by (simp add: encodePCPMap_def)

lemma request_length: "length n = 12 \<Longrightarrow> length (encodePCPMap client n iport sport life) = 60"
  by (simp add: encodePCPMap_def)

lemma decode_answer:
  assumes "length n = 12" "length epoch = 4"
  shows "decodePCPMap (pcpAnswer (encodePCPMap client n iport sport life0) code life epoch ext ip) m =
    (if code = 1 then Inl errPCPUnsupported else if code \<noteq> 0 then Inl (pcpResultError code)
     else if n \<noteq> m then Inl errPCPOtherNonce
     else Inr \<lparr>lifetime = life, externalPort = uint ext, externalIP = To4 (addr_field ip)\<rparr>)"
proof -
  let ?req = "encodePCPMap client n iport sport life0"
  obtain q where q: "take 4 (drop 36 ?req) @ take 2 (drop 40 ?req) = q" "length q = 6" using assms by (simp add: request_length)
  have b: "pcpAnswer ?req code life epoch ext ip
      = [2, 0x81, 0, code] @ PutUint32 life @ epoch @ replicate 12 0 @ n @ q @ PutUint16 ext @ addr_field ip"
    using q assms by (simp add: pcpAnswer_def request_nonce flip: append_assoc)
  define B where "B = pcpAnswer ?req code life epoch ext ip"
  have "(0x80 OR 1 :: byte) = 0x81" by simp
  moreover have "drop 24 B = n @ q @ PutUint16 ext @ addr_field ip" "take 4 (drop 4 B) = PutUint32 life" "length B = 60"
    "B ! 0 = 2" "B ! 1 = 0x81" "B ! 3 = code"
    using q(2) assms by (simp_all add: b B_def)
  moreover have "take 12 (n @ q @ PutUint16 ext @ addr_field ip) = n"
    "take 2 (drop 18 (n @ q @ PutUint16 ext @ addr_field ip)) = PutUint16 ext"
    "take 16 (drop 20 (n @ q @ PutUint16 ext @ addr_field ip)) = addr_field ip"
    using q(2) assms by simp_all
  ultimately have "decodePCPMap B m =
    (if code = 1 then Inl errPCPUnsupported else if code \<noteq> 0 then Inl (pcpResultError code)
     else if n \<noteq> m then Inl errPCPOtherNonce
     else Inr \<lparr>lifetime = life, externalPort = uint ext, externalIP = To4 (addr_field ip)\<rparr>)"
    by (cases "n = m") (simp_all add: decodePCPMap_def Let_def del: take_append drop_append)
  then show ?thesis by (simp add: B_def)
qed

lemma read_loop_strays:
  "list_all (\<lambda>b. decodePCPMap b n = Inl errPCPOtherNonce) strays \<Longrightarrow> decodePCPMap b n \<noteq> Inl errPCPOtherNonce \<Longrightarrow>
   read_loop n (strays @ b # rest) fails = Some (decodePCPMap b n)"
  by (induction strays) auto

text \<open>
  Whatever answers to other clients arrive first, the router's answer to our request
  is the one that is read: the port, lifetime and address it granted come out of the bytes unchanged, a
  refusal comes out as its code, and the sent lease is never the zero that would delete the mapping.
\<close>

theorem pcp_AddMapping_answer:
  assumes "length (nonce g) = 12" "length epoch = 4" "length ip = 4"
    and "list_all (\<lambda>b. \<exists>n client iport sport l0 life e ext q. n \<noteq> nonce g \<and> length n = 12 \<and> length e = 4
           \<and> b = pcpAnswer (encodePCPMap client n iport sport l0) 0 life e ext q) strays"
  shows "pcp_AddMapping now ctx (\<lambda>req. \<lparr>write_ok = True, datagrams = strays @ pcpAnswer req code life epoch ext ip # rest,
             read_fails = fails, late = lt, ctx_err = ce\<rparr> # as) g internalIP internalPort extPort lease =
         (if code = 0 then (g\<lparr>external := Some ip\<rparr>, Some (Inr (uint ext, uint life * 1000)))
          else (g, Some (Inl (if code = 1 then errPCPUnsupported else pcpResultError code))))
       \<and> lease_secs lease \<noteq> 0"
proof -
  let ?req = "encodePCPMap internalIP (nonce g) internalPort extPort (lease_secs lease)"
  let ?b = "pcpAnswer ?req code life epoch ext ip"
  have "list_all (\<lambda>b. decodePCPMap b (nonce g) = Inl errPCPOtherNonce) strays"
    using assms(4) by (rule list.pred_mono_strong) (auto simp: decode_answer)
  moreover have d: "decodePCPMap ?b (nonce g) = (if code = 1 then Inl errPCPUnsupported else if code \<noteq> 0 then Inl (pcpResultError code)
     else Inr \<lparr>lifetime = life, externalPort = uint ext, externalIP = Some ip\<rparr>)"
    using decode_answer [OF assms(1,2), of internalIP internalPort extPort "lease_secs lease" code life ext ip "nonce g"]
    by (simp add: addr_field_To4 [OF assms(3)])
  ultimately have "read_loop (nonce g) (strays @ ?b # rest) fails = Some (decodePCPMap ?b (nonce g))"
    by (intro read_loop_strays) (auto simp: d)
  moreover have "lease_secs lease \<noteq> 0" by (simp add: lease_secs_def Let_def)
  ultimately show ?thesis by (simp add: pcp_AddMapping_def mapRequest_def Let_def d)
qed

theorem pcp_AddMapping_answer_witness:
  "let g = \<lparr>nonce = replicate 12 7, gw_timeout = 4000, external = None\<rparr> :: pcpGateway in
   pcp_AddMapping 0 None
     (\<lambda>req. [\<lparr>write_ok = True, datagrams = [pcpAnswer (encodePCPMap [10, 0, 0, 9] (replicate 12 8) 80 80 60) 0 60 [0, 0, 0, 1] 80 [1, 2, 3, 4],
               pcpAnswer req 0 3600 [0, 0, 0, 1] 7070 [1, 2, 3, 4]], read_fails = False, late = 0, ctx_err = False\<rparr>])
     g [10, 0, 0, 5] 7070 7070 3600000 = (g\<lparr>external := Some [1, 2, 3, 4]\<rparr>, Some (Inr (7070, 3600000)))"
proof -
  let ?stray = "pcpAnswer (encodePCPMap [10, 0, 0, 9] (replicate 12 8) 80 80 60) 0 60 [0, 0, 0, 1] 80 [1, 2, 3, 4]"
  have "replicate 12 (8 :: byte) \<noteq> replicate 12 7" by code_simp
  then have "\<exists>n client iport sport l0 life e ext q. n \<noteq> replicate 12 7 \<and> length n = 12 \<and> length e = 4
           \<and> ?stray = pcpAnswer (encodePCPMap client n iport sport l0) 0 life e ext q"
    by (intro exI [of _ "replicate 12 8"] exI [of _ "[0, 0, 0, 1]"] exI conjI) simp_all
  then show ?thesis
    using pcp_AddMapping_answer [of "\<lparr>nonce = replicate 12 7, gw_timeout = 4000, external = None\<rparr>" "[0, 0, 0, 1]" "[1, 2, 3, 4]"
        "[?stray]" 0 None 0 3600 7070 "[]" False 0 False "[]" "[10, 0, 0, 5]" 7070 7070 3600000]
    by (simp only: Let_def) simp
qed

text \<open>
  The request loop ends: with the gateway's four-second budget three sends are enough
  for an answer, an error or the verdict that nobody answered, however late the time-outs are noticed.
\<close>

theorem mapRequest_ends:
  assumes "timeout \<le> 4000" "list_all (\<lambda>a. 0 \<le> late a) (net (encodePCPMap ip n iport eport life))"
    and "3 \<le> length (net (encodePCPMap ip n iport eport life))"
  shows "\<exists>r. mapRequest now timeout ctx n net ip iport eport life = Some r"
proof -
  obtain a b c as where net: "net (encodePCPMap ip n iport eport life) = a # b # c # as"
    using assms(3) by (cases "net (encodePCPMap ip n iport eport life)" rule: list.exhaust;
      metis Suc_le_length_iff numeral_3_eq_3)
  define deadline where "deadline = (case ctx of Some t \<Rightarrow> if t < now + timeout then t else now + timeout | None \<Rightarrow> now + timeout)"
  have d: "deadline \<le> now + 4000" using assms(1) by (auto simp: deadline_def split: option.splits)
  have late: "0 \<le> late a" "0 \<le> late b" "0 \<le> late c" using assms(2) by (auto simp: net)
  have "map_loop n deadline now 1000 (a # b # c # as) \<noteq> None"
    using d late by (auto simp: Let_def split: option.splits)
  then show ?thesis by (auto simp: mapRequest_def Let_def net deadline_def)
qed

theorem mapRequest_ends_witness:
  "\<exists>r. mapRequest 0 4000 None (replicate 12 7)
     (\<lambda>_. replicate 3 \<lparr>write_ok = True, datagrams = [], read_fails = False, late = 1, ctx_err = False\<rparr>) [10, 0, 0, 5] 7070 7070 3600 = Some r"
  by (rule mapRequest_ends) (simp_all add: numeral_3_eq_3)

end
