(* ===== verification/Portmap.thy ===== *)
theory Portmap
  imports SafeHttp
begin

text \<open>
  The remote-access mapper (\<open>internal/portmap/portmap.go\<close> and \<open>listen.go\<close>): the loop that keeps the
  router's port forward in line with the admin's setting.  Durations and times are nanoseconds.

  The router is reached through the \<open>Gateway\<close> and \<open>Discoverer\<close> interfaces; what they answer during a step
  is part of the step's environment.  \<open>net.SplitHostPort\<close> and \<open>net.ParseIP\<close> of the fixed listen address
  enter as their results.  Addresses in the status stay addresses (the code stores their text); log lines
  are left out.  A step returns the calls it made to the router.
\<close>

record Settings =
  s_Enabled :: bool
  s_ExternalPort :: int

record PortMapping =
  pm_Protocol :: string
  pm_InternalIP :: IP
  pm_InternalPort :: int
  pm_ExternalPort :: int
  pm_Lease :: int
  pm_Description :: string

record Granted =
  gr_ExternalPort :: int
  gr_Lease :: int

record Gateway =
  gw_Method :: string
  gw_Addr :: string
  gw_LocalIP :: "IP option"

datatype State = StateDisabled | StateLoopbackOnly | StateStandby | StateNoGateway | StateMapped | StateError

record Status =
  st_Enabled :: bool
  st_State :: State
  st_GatewayFound :: bool
  st_Method :: string
  st_GatewayAddr :: string
  st_LocalIP :: "IP option"
  st_InternalPort :: int
  st_ExternalIP :: "IP option"
  st_ExternalPort :: int
  st_LeaseSeconds :: int
  st_Permanent :: bool
  st_LastRenewal :: "int option"
  st_ExpiresAt :: "int option"
  st_LastError :: string
  st_LastErrorAt :: "int option"
  st_Node :: string
  st_UpdatedAt :: int

text \<open>
  \<open>c_Listen\<close> is \<open>SplitHostPort\<close> of the trimmed listen address (\<open>Inl\<close> its error text), \<open>c_HostIP\<close>
  \<open>ParseIP\<close> of its host.
\<close>

record Config =
  c_ListenAddr :: string
  c_Listen :: "string + (string \<times> string)"
  c_HostIP :: "IP option"
  c_Node :: string
  c_Lease :: int
  c_CheckEvery :: int
  c_Description :: string

definition second :: int where "second = 1000000000"
definition defaultLease :: int where "defaultLease = 3600 * second"
definition defaultCheckEvery :: int where "defaultCheckEvery = 30 * second"
definition permanentReassert :: int where "permanentReassert = 30 * 60 * second"
definition minBackoff :: int where "minBackoff = 60 * second"
definition maxBackoff :: int where "maxBackoff = 15 * 60 * second"

record Mapper =
  status :: Status
  work :: Status
  gw :: "Gateway option"
  mapped :: "PortMapping option"
  granted :: Granted
  renewAt :: "int option"
  backoff :: int
  retryAt :: "int option"
  lastSeen :: Settings

text \<open>What the outside world answers during a step; \<open>Inl\<close> is an error, its \<open>bool\<close> whether it is \<open>ErrNoGateway\<close>.\<close>

record Env =
  e_now :: int
  e_settings :: Settings
  e_discover :: "bool \<times> string + Gateway"
  e_add :: "PortMapping \<Rightarrow> string + Granted"
  e_delete :: "PortMapping \<Rightarrow> bool"
  e_external :: "string + IP option"

datatype RouterCall = Added PortMapping Granted | AddFailed PortMapping | Deleted PortMapping | DeleteFailed PortMapping

definition new_config :: "Config \<Rightarrow> Config" where
  "new_config c = c\<lparr>c_Lease := (if c_Lease c \<le> 0 then defaultLease else c_Lease c),
     c_CheckEvery := (if c_CheckEvery c \<le> 0 then defaultCheckEvery else c_CheckEvery c),
     c_Description := (if c_Description c = '''' then ''OnScreen'' else c_Description c)\<rparr>"

definition zero_status :: Status where
  "zero_status = \<lparr>st_Enabled = False, st_State = StateStandby, st_GatewayFound = False, st_Method = '''', st_GatewayAddr = '''',
     st_LocalIP = None, st_InternalPort = 0, st_ExternalIP = None, st_ExternalPort = 0, st_LeaseSeconds = 0, st_Permanent = False,
     st_LastRenewal = None, st_ExpiresAt = None, st_LastError = '''', st_LastErrorAt = None, st_Node = '''', st_UpdatedAt = 0\<rparr>"

definition New :: Mapper where
  "New = \<lparr>status = zero_status, work = zero_status, gw = None, mapped = None, granted = \<lparr>gr_ExternalPort = 0, gr_Lease = 0\<rparr>,
     renewAt = None, backoff = 0, retryAt = None, lastSeen = \<lparr>s_Enabled = False, s_ExternalPort = 0\<rparr>\<rparr>"

definition ParseListenAddr :: "string \<Rightarrow> string + (string \<times> string) \<Rightarrow> string + (string \<times> int)" where
  "ParseListenAddr addr split =
    (let quoted = ''listen address \"'' @ addr @ ''\": '' in
     case split of Inl err \<Rightarrow> Inl (quoted @ err)
     | Inr (h, p) \<Rightarrow> (case Atoi p of None \<Rightarrow> Inl (quoted @ ''bad port'')
        | Some n \<Rightarrow> if n \<le> 0 \<or> n > 65535 then Inl (quoted @ ''bad port'') else Inr (h, n)))"

definition IsLoopbackHost :: "string \<Rightarrow> IP option \<Rightarrow> bool" where
  "IsLoopbackHost host ip = (EqualFold host ''localhost'' \<or> (case ip of None \<Rightarrow> False | Some a \<Rightarrow> IsLoopback a))"

definition Kick :: "Mapper \<Rightarrow> Mapper" where
  "Kick m = m\<lparr>retryAt := None\<rparr>"

definition commit :: "Mapper \<Rightarrow> Mapper" where
  "commit m = m\<lparr>status := work m\<rparr>"

definition setIdle :: "int \<Rightarrow> State \<Rightarrow> string \<Rightarrow> Mapper \<Rightarrow> Mapper" where
  "setIdle now st msg m = m\<lparr>work := (work m)\<lparr>st_State := st, st_ExternalPort := 0, st_InternalPort := 0,
     st_LeaseSeconds := 0, st_Permanent := False, st_ExpiresAt := None,
     st_LastError := msg, st_LastErrorAt := (if msg \<noteq> '''' then Some now else None)\<rparr>\<rparr>"

definition fail :: "int \<Rightarrow> State \<Rightarrow> string \<Rightarrow> Mapper \<Rightarrow> Mapper \<times> int" where
  "fail now st err m =
    (let m1 = (if mapped m = None then setIdle now st '''' m else m\<lparr>work := (work m)\<lparr>st_State := st\<rparr>\<rparr>);
         b = (if backoff m1 = 0 then minBackoff else min (backoff m1 * 2) maxBackoff)
     in (m1\<lparr>work := (work m1)\<lparr>st_LastError := err, st_LastErrorAt := Some now\<rparr>, backoff := b, retryAt := Some (now + b)\<rparr>, b))"

definition unmap :: "Env \<Rightarrow> Mapper \<Rightarrow> Mapper \<times> RouterCall list" where
  "unmap e m =
    (let m1 = m\<lparr>mapped := None, renewAt := None\<rparr> in
     case (mapped m, gw m) of
       (Some cur, Some g) \<Rightarrow>
         let gm = cur\<lparr>pm_ExternalPort := (if gr_ExternalPort (granted m) = 0 then pm_ExternalPort cur else gr_ExternalPort (granted m))\<rparr>
         in (m1, [if e_delete e gm then Deleted gm else DeleteFailed gm])
     | _ \<Rightarrow> (m1, []))"

text \<open>
  After a refused request the router is looked for anew; a mapping whose lease has run out by now is
  forgotten.
\<close>

definition forget_router :: "int \<Rightarrow> Mapper \<Rightarrow> Mapper" where
  "forget_router now m =
    (let m1 = (if mapped m \<noteq> None \<and> gr_Lease (granted m) > 0
                  \<and> (case renewAt m of None \<Rightarrow> False | Some r \<Rightarrow> r + go_div (gr_Lease (granted m)) 2 < now)
               then m\<lparr>mapped := None\<rparr> else m)
     in m1\<lparr>gw := None\<rparr>)"

text \<open>The part of \<open>step\<close> after the router is known: ask for the mapping and record what was granted.\<close>

definition request_mapping :: "Config \<Rightarrow> Env \<Rightarrow> int \<Rightarrow> int \<Rightarrow> Gateway \<Rightarrow> Mapper \<Rightarrow> Mapper \<times> int \<times> RouterCall list" where
  "request_mapping cfg e port ext g m =
    (let now = e_now e;
         internalIP = (case c_HostIP cfg of Some ip \<Rightarrow> if \<not> IsUnspecified ip then Some ip else gw_LocalIP g | None \<Rightarrow> gw_LocalIP g)
     in case internalIP of
       None \<Rightarrow> (let (m', w) = fail now StateError ''couldn't tell this host's LAN address'' m in (m', w, []))
     | Some ip \<Rightarrow>
       let want = \<lparr>pm_Protocol = ''TCP'', pm_InternalIP = ip, pm_InternalPort = port, pm_ExternalPort = ext,
                   pm_Lease = c_Lease cfg, pm_Description = c_Description cfg\<rparr>
       in case e_add e want of
         Inl err \<Rightarrow>
           (let (m2, w) = fail now StateError (''map port '' @ Itoa ext @ '': '' @ err) (forget_router now m)
            in (m2, w, [AddFailed want]))
       | Inr gr0 \<Rightarrow>
           let gr = (if gr_ExternalPort gr0 = 0 then gr0\<lparr>gr_ExternalPort := ext\<rparr> else gr0);
               renew = (if gr_Lease gr > 0 then now + go_div (gr_Lease gr) 2 else now + permanentReassert);
               st = (work m)\<lparr>st_State := StateMapped, st_LocalIP := Some ip, st_InternalPort := port,
                 st_ExternalPort := gr_ExternalPort gr, st_LeaseSeconds := go_div (gr_Lease gr) second,
                 st_Permanent := (gr_Lease gr = 0), st_LastRenewal := Some now,
                 st_ExpiresAt := (if gr_Lease gr > 0 then Some (now + gr_Lease gr) else None),
                 st_LastError := '''', st_LastErrorAt := None\<rparr>;
               st' = (case e_external e of Inr (Some x) \<Rightarrow> st\<lparr>st_ExternalIP := Some x\<rparr> | _ \<Rightarrow> st)
           in (m\<lparr>mapped := Some want, granted := gr, backoff := 0, retryAt := None, renewAt := Some renew, work := st'\<rparr>,
               min (c_CheckEvery cfg) (renew - now), [Added want gr]))"

definition find_router :: "Config \<Rightarrow> Env \<Rightarrow> int \<Rightarrow> int \<Rightarrow> Mapper \<Rightarrow> Mapper \<times> int \<times> RouterCall list" where
  "find_router cfg e port ext m =
    (case gw m of Some g \<Rightarrow> request_mapping cfg e port ext g m
     | None \<Rightarrow>
       (case e_discover e of
          Inl (none, err) \<Rightarrow>
            (let m1 = m\<lparr>work := (work m)\<lparr>st_GatewayFound := False, st_Method := '''', st_GatewayAddr := ''''\<rparr>\<rparr>;
                 (m', w) = fail (e_now e) (if none then StateNoGateway else StateError) (''discover router: '' @ err) m1
             in (m', w, []))
        | Inr g \<Rightarrow> request_mapping cfg e port ext g
            (m\<lparr>gw := Some g, work := (work m)\<lparr>st_GatewayFound := True, st_Method := gw_Method g, st_GatewayAddr := gw_Addr g\<rparr>\<rparr>)))"

definition wanted_port :: "Settings \<Rightarrow> int \<Rightarrow> int" where
  "wanted_port s port = (if s_ExternalPort s \<le> 0 then port else s_ExternalPort s)"

text \<open>The admin changed the public port: the old mapping goes first.\<close>

definition drop_old :: "Env \<Rightarrow> int \<Rightarrow> Mapper \<Rightarrow> Mapper \<times> RouterCall list" where
  "drop_old e ext m = (case mapped m of Some w \<Rightarrow> if pm_ExternalPort w \<noteq> ext then unmap e m else (m, []) | None \<Rightarrow> (m, []))"

text \<open>Wait out the back-off, leave a fresh mapping alone, or (re)new it.\<close>

definition keep_or_map :: "Config \<Rightarrow> Env \<Rightarrow> int \<Rightarrow> int \<Rightarrow> Mapper \<Rightarrow> Mapper \<times> int \<times> RouterCall list" where
  "keep_or_map cfg e port ext m =
    (let now = e_now e in
     if (case retryAt m of Some r \<Rightarrow> now < r | None \<Rightarrow> False) then (m, the (retryAt m) - now, [])
     else if mapped m \<noteq> None \<and> (case renewAt m of Some r \<Rightarrow> now < r | None \<Rightarrow> False)
     then (m, min (c_CheckEvery cfg) (the (renewAt m) - now), [])
     else find_router cfg e port ext m)"

definition step_body :: "Config \<Rightarrow> Env \<Rightarrow> Mapper \<Rightarrow> Mapper \<times> int \<times> RouterCall list" where
  "step_body cfg e m =
    (let s = e_settings e; now = e_now e; unmap_any = (\<lambda>m. if mapped m \<noteq> None then unmap e m else (m, [])) in
     if \<not> s_Enabled s then (let (m1, cs) = unmap_any m in (setIdle now StateDisabled '''' m1, c_CheckEvery cfg, cs))
     else case ParseListenAddr (c_ListenAddr cfg) (c_Listen cfg) of
       Inl err \<Rightarrow> (setIdle now StateError err m, c_CheckEvery cfg, [])
     | Inr (host, port) \<Rightarrow>
       if IsLoopbackHost host (c_HostIP cfg)
       then (let (m1, cs) = unmap_any m in
         (setIdle now StateLoopbackOnly (''the server listens on '' @ c_ListenAddr cfg @
            '' (loopback only), so nothing outside this machine could use a mapping'') m1, c_CheckEvery cfg, cs))
       else
         let ext = wanted_port s port;
             (m1, cs) = drop_old e ext m;
             (m2, w, cs') = keep_or_map cfg e port ext m1
         in (m2, w, cs @ cs'))"

definition step_start :: "Config \<Rightarrow> Env \<Rightarrow> Mapper \<Rightarrow> Mapper" where
  "step_start cfg e m =
    (let s = e_settings e;
         m1 = m\<lparr>work := (work m)\<lparr>st_Enabled := s_Enabled s, st_Node := c_Node cfg, st_UpdatedAt := e_now e\<rparr>\<rparr>
     in if s \<noteq> lastSeen m1 then m1\<lparr>retryAt := None, backoff := 0, lastSeen := s\<rparr> else m1)"

definition step :: "Config \<Rightarrow> Env \<Rightarrow> Mapper \<Rightarrow> Mapper \<times> int \<times> RouterCall list" where
  "step cfg e m = (let (m1, w, cs) = step_body cfg e (step_start cfg e m) in (commit m1, w, cs))"

definition shutdown :: "Env \<Rightarrow> Mapper \<Rightarrow> Mapper \<times> RouterCall list" where
  "shutdown e m =
    (let (m1, cs) = (if mapped m \<noteq> None then unmap e m else (m, []));
         m2 = setIdle (e_now e) StateStandby '''' m1
     in (commit (m2\<lparr>work := (work m2)\<lparr>st_UpdatedAt := e_now e\<rparr>\<rparr>), cs))"

section \<open>Which ports are open\<close>

text \<open>The router, as far as its answers tell: the public ports it forwards to us.\<close>

fun apply_call :: "int list \<Rightarrow> RouterCall \<Rightarrow> int list" where
  "apply_call ps (Added w g) = List.insert (gr_ExternalPort g) ps"
| "apply_call ps (Deleted w) = removeAll (pm_ExternalPort w) ps"
| "apply_call ps _ = ps"

datatype Event = EStep Env | EKick

definition event :: "Config \<Rightarrow> Mapper \<times> int list \<Rightarrow> Event \<Rightarrow> Mapper \<times> int list" where
  "event cfg s ev = (case ev of EKick \<Rightarrow> (Kick (fst s), snd s)
     | EStep e \<Rightarrow> (case step cfg e (fst s) of (m, w, cs) \<Rightarrow> (m, foldl apply_call (snd s) cs)))"

definition run :: "Config \<Rightarrow> Event list \<Rightarrow> Mapper \<times> int list" where
  "run cfg evs = foldl (event cfg) (New, []) evs"

text \<open>The one port the setting asks to expose, if any.\<close>

definition exposure :: "Config \<Rightarrow> Settings \<Rightarrow> int option" where
  "exposure cfg s = (if \<not> s_Enabled s then None else
     case ParseListenAddr (c_ListenAddr cfg) (c_Listen cfg) of Inl _ \<Rightarrow> None
     | Inr (host, port) \<Rightarrow> if IsLoopbackHost host (c_HostIP cfg) then None else Some (wanted_port s port))"

text \<open>
  A router that does what it is asked: it grants every mapping, always the same public port for the port
  asked for, and honours every delete.
\<close>

definition cooperative :: "(int \<Rightarrow> int) \<Rightarrow> Event \<Rightarrow> bool" where
  "cooperative assign ev \<longleftrightarrow> (case ev of EKick \<Rightarrow> True | EStep e \<Rightarrow>
     (\<forall>w. e_delete e w) \<and> (\<forall>w. \<exists>g. e_add e w = Inr g \<and>
        (if gr_ExternalPort g = 0 then pm_ExternalPort w else gr_ExternalPort g) = assign (pm_ExternalPort w)))"

lemma coopD:
  assumes "cooperative assign (EStep e)"
  shows "e_delete e w"
    "\<exists>g. e_add e w = Inr g \<and> (if gr_ExternalPort g = 0 then pm_ExternalPort w else gr_ExternalPort g) = assign (pm_ExternalPort w)"
  using assms by (auto simp: cooperative_def)

definition in_line :: "Config \<Rightarrow> (int \<Rightarrow> int) \<Rightarrow> Mapper \<times> int list \<Rightarrow> bool" where
  "in_line cfg assign s \<longleftrightarrow> (case mapped (fst s) of None \<Rightarrow> snd s = []
     | Some w \<Rightarrow> gw (fst s) \<noteq> None \<and> gr_ExternalPort (granted (fst s)) = assign (pm_ExternalPort w)
         \<and> (assign (pm_ExternalPort w) = 0 \<longrightarrow> pm_ExternalPort w = 0)
         \<and> set (snd s) = {assign (pm_ExternalPort w)}
         \<and> (\<exists>s. exposure cfg s \<noteq> None))"

lemma mapper_proj [simp]:
  "mapped (setIdle now st msg m) = mapped m" "gw (setIdle now st msg m) = gw m" "granted (setIdle now st msg m) = granted m"
  "mapped (fst (fail now st msg m)) = mapped m" "gw (fst (fail now st msg m)) = gw m" "granted (fst (fail now st msg m)) = granted m"
  "mapped (commit m) = mapped m" "gw (commit m) = gw m" "granted (commit m) = granted m"
  by (simp_all add: setIdle_def fail_def commit_def Let_def)

lemma unmap_in_line:
  assumes "in_line cfg assign (m, ps)" "cooperative assign (EStep e)"
  shows "mapped (fst (unmap e m)) = None \<and> foldl apply_call ps (snd (unmap e m)) = [] \<and> gw (fst (unmap e m)) = gw m"
proof (cases "mapped m")
  case None
  then show ?thesis using assms(1) by (simp add: unmap_def in_line_def split: option.splits)
next
  case (Some w)
  then obtain g where "gw m = Some g" "gr_ExternalPort (granted m) = assign (pm_ExternalPort w)"
    "assign (pm_ExternalPort w) = 0 \<longrightarrow> pm_ExternalPort w = 0" "set ps = {assign (pm_ExternalPort w)}"
    using assms(1) by (auto simp: in_line_def)
  moreover from this(4) have "removeAll (assign (pm_ExternalPort w)) ps = []" by (auto simp: filter_empty_conv removeAll_filter_not_eq)
  ultimately show ?thesis using Some coopD(1) [OF assms(2)] by (cases "assign (pm_ExternalPort w) = 0") (simp_all add: unmap_def Let_def)
qed

lemma request_in_line:
  assumes inv: "in_line cfg assign (m, ps)" and coop: "cooperative assign (EStep e)" and g: "gw m = Some g"
    and same: "case mapped m of None \<Rightarrow> True | Some w \<Rightarrow> pm_ExternalPort w = ext" and ex: "exposure cfg s = Some ext"
    and res: "request_mapping cfg e port ext g m = (m', w, cs)"
  shows "in_line cfg assign (m', foldl apply_call ps cs)
    \<and> (case mapped m' of None \<Rightarrow> True | Some v \<Rightarrow> pm_ExternalPort v = ext)"
proof -
  define ip where "ip = (case c_HostIP cfg of Some ip \<Rightarrow> if \<not> IsUnspecified ip then Some ip else gw_LocalIP g | None \<Rightarrow> gw_LocalIP g)"
  show ?thesis
  proof (cases ip)
    case None
    then have "m' = fst (fail (e_now e) StateError ''couldn't tell this host's LAN address'' m)" "cs = []"
      using res by (auto simp: request_mapping_def ip_def [symmetric] Let_def split: prod.splits)
    then show ?thesis using inv same by (cases "mapped m") (auto simp: in_line_def)
  next
    case (Some a)
    let ?want = "\<lparr>pm_Protocol = ''TCP'', pm_InternalIP = a, pm_InternalPort = port, pm_ExternalPort = ext,
                   pm_Lease = c_Lease cfg, pm_Description = c_Description cfg\<rparr>"
    obtain gr0 where gr0: "e_add e ?want = Inr gr0" "(if gr_ExternalPort gr0 = 0 then ext else gr_ExternalPort gr0) = assign ext"
      using coop [THEN coopD(2), of ?want] by (force split: if_splits)
    have "mapped m' = Some ?want" "gw m' = Some g" "gr_ExternalPort (granted m') = assign ext"
      "foldl apply_call ps cs = List.insert (assign ext) ps"
      using res gr0 g by (auto simp: request_mapping_def ip_def [symmetric] Some Let_def split: if_splits)
    moreover have "set ps \<subseteq> {assign ext}"
      using inv same by (auto simp: in_line_def split: option.splits)
    moreover have "assign ext = 0 \<longrightarrow> ext = 0" using gr0(2) by (auto split: if_splits)
    ultimately show ?thesis using ex by (auto simp: in_line_def)
  qed
qed

lemma find_in_line:
  assumes inv: "in_line cfg assign (m, ps)" and coop: "cooperative assign (EStep e)"
    and same: "case mapped m of None \<Rightarrow> True | Some w \<Rightarrow> pm_ExternalPort w = ext" and ex: "exposure cfg s = Some ext"
    and res: "find_router cfg e port ext m = (m', w, cs)"
  shows "in_line cfg assign (m', foldl apply_call ps cs)
    \<and> (case mapped m' of None \<Rightarrow> True | Some v \<Rightarrow> pm_ExternalPort v = ext)"
proof (cases "gw m")
  case (Some g)
  then show ?thesis using request_in_line [OF inv coop Some same ex] res by (simp add: find_router_def)
next
  case None
  then have n: "mapped m = None" "ps = []" using inv by (auto simp: in_line_def split: option.splits)
  show ?thesis
  proof (cases "e_discover e")
    case (Inl err)
    then have "mapped m' = None \<and> cs = []"
      using res None n by (auto simp: find_router_def Let_def split: prod.splits dest!: arg_cong [of _ _ fst])
    then show ?thesis using n by (simp add: in_line_def)
  next
    case (Inr g)
    let ?m = "m\<lparr>gw := Some g, work := (work m)\<lparr>st_GatewayFound := True, st_Method := gw_Method g, st_GatewayAddr := gw_Addr g\<rparr>\<rparr>"
    have "in_line cfg assign (?m, ps)" "gw ?m = Some g" using n by (simp_all add: in_line_def)
    then show ?thesis using request_in_line [OF _ coop _ _ ex, of ?m ps g port m' w cs] res None n Inr by (simp add: find_router_def)
  qed
qed

lemma in_line_cong:
  "mapped m' = mapped m \<Longrightarrow> gw m' = gw m \<Longrightarrow> granted m' = granted m \<Longrightarrow> in_line cfg assign (m', ps) = in_line cfg assign (m, ps)"
  by (cases "mapped m") (simp_all add: in_line_def)

lemma in_line_none: "mapped m = None \<Longrightarrow> ps = [] \<Longrightarrow> in_line cfg assign (m, ps)"
  by (simp add: in_line_def)

lemma body_in_line:
  assumes inv: "in_line cfg assign (m, ps)" and coop: "cooperative assign (EStep e)"
    and res: "step_body cfg e m = (m', w, cs)"
  shows "in_line cfg assign (m', foldl apply_call ps cs)
    \<and> (case mapped m' of None \<Rightarrow> True | Some v \<Rightarrow> exposure cfg (e_settings e) = Some (pm_ExternalPort v))"
proof -
  obtain mu cu where u: "unmap e m = (mu, cu)" by fastforce
  have un: "mapped mu = None" "foldl apply_call ps cu = []" "gw mu = gw m" using unmap_in_line [OF inv coop] u by simp_all
  have none: "ps = []" if "mapped m = None" using inv that by (simp add: in_line_def)
  consider (off) "\<not> s_Enabled (e_settings e)"
    | (bad) err where "s_Enabled (e_settings e)" "ParseListenAddr (c_ListenAddr cfg) (c_Listen cfg) = Inl err"
    | (loop) host port where "s_Enabled (e_settings e)" "ParseListenAddr (c_ListenAddr cfg) (c_Listen cfg) = Inr (host, port)"
        "IsLoopbackHost host (c_HostIP cfg)"
    | (go) host port where "s_Enabled (e_settings e)" "ParseListenAddr (c_ListenAddr cfg) (c_Listen cfg) = Inr (host, port)"
        "\<not> IsLoopbackHost host (c_HostIP cfg)"
    by (cases "ParseListenAddr (c_ListenAddr cfg) (c_Listen cfg)") auto
  then show ?thesis
  proof cases
    case off
    then have "mapped m' = None \<and> foldl apply_call ps cs = []"
      using res u un none by (cases "mapped m") (auto simp: step_body_def Let_def)
    then show ?thesis by (simp add: in_line_none)
  next
    case bad
    then have "exposure cfg s = None" for s by (simp add: exposure_def)
    then have "mapped m = None" using inv by (auto simp: in_line_def split: option.splits)
    then show ?thesis using res bad none by (auto simp: step_body_def in_line_none)
  next
    case loop
    then have "mapped m' = None \<and> foldl apply_call ps cs = []"
      using res u un none by (cases "mapped m") (auto simp: step_body_def Let_def)
    then show ?thesis by (simp add: in_line_none)
  next
    case go
    define ext where "ext = wanted_port (e_settings e) port"
    have ex: "exposure cfg (e_settings e) = Some ext" using go by (simp add: exposure_def ext_def)
    obtain m1 c1 where mc: "drop_old e ext m = (m1, c1)" by fastforce
    have inv1: "in_line cfg assign (m1, foldl apply_call ps c1)" and same: "case mapped m1 of None \<Rightarrow> True | Some w \<Rightarrow> pm_ExternalPort w = ext"
      using inv mc u un by (auto simp: drop_old_def in_line_none split: option.splits if_splits)
    obtain m2 w2 c2 where k: "keep_or_map cfg e port ext m1 = (m2, w2, c2)" by (cases "keep_or_map cfg e port ext m1") auto
    have "m' = m2" "cs = c1 @ c2"
      using res go mc k by (simp_all add: step_body_def Let_def ext_def [symmetric])
    moreover have "in_line cfg assign (m2, foldl apply_call (foldl apply_call ps c1) c2)
        \<and> (case mapped m2 of None \<Rightarrow> True | Some v \<Rightarrow> pm_ExternalPort v = ext)"
      using k inv1 same find_in_line [OF inv1 coop same ex] by (auto simp: keep_or_map_def Let_def split: if_splits)
    ultimately show ?thesis using ex by (auto split: option.splits)
  qed
qed

lemma step_in_line:
  assumes inv: "in_line cfg assign (m, ps)" and coop: "cooperative assign (EStep e)" and res: "step cfg e m = (m', w, cs)"
  shows "in_line cfg assign (m', foldl apply_call ps cs)
    \<and> (case mapped m' of None \<Rightarrow> True | Some v \<Rightarrow> exposure cfg (e_settings e) = Some (pm_ExternalPort v))"
proof -
  let ?m = "step_start cfg e m"
  have "in_line cfg assign (?m, ps)"
    using inv in_line_cong [of ?m m cfg assign ps] by (simp add: step_start_def Let_def)
  moreover obtain m3 where "step_body cfg e ?m = (m3, w, cs)" "m' = commit m3"
    using res by (auto simp: step_def split: prod.splits)
  ultimately show ?thesis using body_in_line [OF _ coop, of cfg ?m ps m3 w cs] in_line_cong [of m' m3 cfg assign "foldl apply_call ps cs"]
    by (auto split: option.splits)
qed

lemma run_in_line: "list_all (cooperative assign) evs \<Longrightarrow> in_line cfg assign (run cfg evs)"
proof (induction evs rule: rev_induct)
  case Nil
  then show ?case by (simp add: run_def in_line_none New_def)
next
  case (snoc ev evs)
  obtain m ps where r: "run cfg evs = (m, ps)" by fastforce
  have inv: "in_line cfg assign (m, ps)" using snoc r by simp
  have rs: "run cfg (evs @ [ev]) = event cfg (m, ps) ev" using r by (simp add: run_def)
  show ?case
  proof (cases ev)
    case (EStep e)
    obtain m' w cs where "step cfg e m = (m', w, cs)" by (cases "step cfg e m") auto
    then show ?thesis using step_in_line [OF inv, of e m' w cs] snoc.prems rs EStep by (simp add: event_def)
  next
    case EKick
    then show ?thesis using inv rs in_line_cong [of "Kick m" m cfg assign ps] by (simp add: event_def Kick_def)
  qed
qed

text \<open>
  C33 (safety).  However settings change and discovery fails, with a router that does what it is asked the
  only port open after a check is the one the setting in force asks for, as the router assigned it;
  nothing is open while the setting is off or the server listens on loopback only, nor after shutdown.
\<close>

theorem Mapper_exposure:
  assumes "list_all (cooperative assign) (evs @ [EStep e, EStep f])"
  shows "(case exposure cfg (e_settings e) of None \<Rightarrow> snd (run cfg (evs @ [EStep e])) = []
          | Some ext \<Rightarrow> set (snd (run cfg (evs @ [EStep e]))) \<subseteq> {assign ext})
       \<and> foldl apply_call (snd (run cfg evs)) (snd (shutdown f (fst (run cfg evs)))) = []"
proof -
  obtain m ps where r: "run cfg evs = (m, ps)" by fastforce
  have inv: "in_line cfg assign (m, ps)" using run_in_line [of assign evs cfg] assms r by simp
  obtain m' w cs where s: "step cfg e m = (m', w, cs)" by (cases "step cfg e m") auto
  have rs: "run cfg (evs @ [EStep e]) = (m', foldl apply_call ps cs)" using r s by (simp add: run_def event_def)
  have st: "in_line cfg assign (m', foldl apply_call ps cs)
    \<and> (case mapped m' of None \<Rightarrow> True | Some v \<Rightarrow> exposure cfg (e_settings e) = Some (pm_ExternalPort v))"
    using step_in_line [OF inv _ s] assms by simp
  have "case exposure cfg (e_settings e) of None \<Rightarrow> foldl apply_call ps cs = []
          | Some ext \<Rightarrow> set (foldl apply_call ps cs) \<subseteq> {assign ext}"
    using st by (cases "mapped m'") (auto simp: in_line_def split: option.splits)
  moreover have "foldl apply_call ps (snd (shutdown f m)) = []"
    using unmap_in_line [OF inv, of f] assms inv
    by (cases "mapped m") (auto simp: shutdown_def Let_def in_line_def split: prod.splits)
  ultimately show ?thesis by (simp add: rs r split: option.splits)
qed

theorem Mapper_exposure_witness:
  "let cfg = \<lparr>c_ListenAddr = '':7070'', c_Listen = Inr ('''', ''7070''), c_HostIP = None, c_Node = ''n'', c_Lease = defaultLease,
              c_CheckEvery = defaultCheckEvery, c_Description = ''OnScreen''\<rparr>;
       env = (\<lambda>now s. \<lparr>e_now = now, e_settings = s,
              e_discover = Inr \<lparr>gw_Method = ''upnp'', gw_Addr = ''10.0.0.1'', gw_LocalIP = Some [10, 0, 0, 5]\<rparr>,
              e_add = (\<lambda>w. Inr \<lparr>gr_ExternalPort = pm_ExternalPort w, gr_Lease = 3600 * second\<rparr>),
              e_delete = (\<lambda>_. True), e_external = Inr None\<rparr>);
       on = env 1 \<lparr>s_Enabled = True, s_ExternalPort = 8443\<rparr>; off = env 2 \<lparr>s_Enabled = False, s_ExternalPort = 8443\<rparr>
   in snd (run cfg [EStep on]) = [8443] \<and> snd (run cfg ([EStep on] @ [EStep off])) = []"
proof -
  let ?cfg = "\<lparr>c_ListenAddr = '':7070'', c_Listen = Inr ('''', ''7070''), c_HostIP = None, c_Node = ''n'', c_Lease = defaultLease,
              c_CheckEvery = defaultCheckEvery, c_Description = ''OnScreen''\<rparr>"
  let ?env = "\<lambda>now s. \<lparr>e_now = now, e_settings = s,
              e_discover = Inr \<lparr>gw_Method = ''upnp'', gw_Addr = ''10.0.0.1'', gw_LocalIP = Some [10, 0, 0, 5]\<rparr>,
              e_add = (\<lambda>w. Inr \<lparr>gr_ExternalPort = pm_ExternalPort w, gr_Lease = 3600 * second\<rparr>),
              e_delete = (\<lambda>_. True), e_external = Inr None\<rparr> :: Env"
  let ?on = "?env 1 \<lparr>s_Enabled = True, s_ExternalPort = 8443\<rparr>" and ?off = "?env 2 \<lparr>s_Enabled = False, s_ExternalPort = 8443\<rparr>"
  have "cooperative id (EStep (?env now s))" for now s by (simp add: cooperative_def)
  then have "list_all (cooperative id) ([EStep ?on] @ [EStep ?off, EStep ?off])" by simp
  moreover have "exposure ?cfg (e_settings ?off) = None" by (simp add: exposure_def)
  ultimately have "snd (run ?cfg ([EStep ?on] @ [EStep ?off])) = []"
    using Mapper_exposure [of id "[EStep ?on]" ?off ?off ?cfg] by (simp only: option.case)
  moreover have "snd (run ?cfg [EStep ?on]) = [8443]" by code_simp
  ultimately show ?thesis by (simp only: Let_def)
qed

text \<open>
  The assumption that the router never fails is needed.  A failed renewal makes the mapper forget the
  router; if the setting is turned off before the next discovery, \<open>unmap\<close> has nobody to send the delete
  to.  A permanent mapping (lease 0) then stays open while the status says disabled.
\<close>

lemma unmap_without_router:
  "let cfg = \<lparr>c_ListenAddr = '':7070'', c_Listen = Inr ('''', ''7070''), c_HostIP = None, c_Node = ''n'', c_Lease = defaultLease,
              c_CheckEvery = defaultCheckEvery, c_Description = ''OnScreen''\<rparr>;
       env = (\<lambda>now on ok. \<lparr>e_now = now * second, e_settings = \<lparr>s_Enabled = on, s_ExternalPort = 8443\<rparr>,
              e_discover = Inr \<lparr>gw_Method = ''upnp'', gw_Addr = ''10.0.0.1'', gw_LocalIP = Some [10, 0, 0, 5]\<rparr>,
              e_add = (\<lambda>w. if ok then Inr \<lparr>gr_ExternalPort = pm_ExternalPort w, gr_Lease = 0\<rparr> else Inl ''timeout''),
              e_delete = (\<lambda>_. True), e_external = Inr None\<rparr>);
       s = run cfg [EStep (env 1 True True), EStep (env 2000 True False), EStep (env 2001 False True), EStep (env 100000 False True)]
   in snd s = [8443] \<and> mapped (fst s) = None \<and> st_State (status (fst s)) = StateDisabled"
  by code_simp

section \<open>Waiting\<close>

definition timed :: "int \<Rightarrow> Mapper \<Rightarrow> bool" where
  "timed now m \<longleftrightarrow> (case retryAt m of None \<Rightarrow> True | Some r \<Rightarrow> r \<le> now + maxBackoff)
     \<and> (backoff m = 0 \<or> (minBackoff \<le> backoff m \<and> backoff m \<le> maxBackoff))"

definition lease_ok :: "Event \<Rightarrow> bool" where
  "lease_ok ev \<longleftrightarrow> (case ev of EKick \<Rightarrow> True | EStep e \<Rightarrow>
     (\<forall>w g. e_add e w = Inr g \<longrightarrow> gr_Lease g = 0 \<or> 2 \<le> gr_Lease g))"

definition times :: "Event list \<Rightarrow> int list" where
  "times evs = List.map_filter (\<lambda>ev. case ev of EStep e \<Rightarrow> Some (e_now e) | EKick \<Rightarrow> None) evs"

lemmas backoffs = minBackoff_def maxBackoff_def permanentReassert_def second_def

lemma fail_timed:
  assumes "timed now m"
  shows "timed now (fst (fail now st err m)) \<and> 0 < snd (fail now st err m) \<and> snd (fail now st err m) \<le> maxBackoff"
  using assms by (auto simp: timed_def fail_def setIdle_def Let_def backoffs)

lemma timed_cong: "retryAt m' = retryAt m \<Longrightarrow> backoff m' = backoff m \<Longrightarrow> timed now m' = timed now m"
  by (simp add: timed_def)

lemma request_timed:
  assumes "timed (e_now e) m" "lease_ok (EStep e)" "0 < c_CheckEvery cfg" "request_mapping cfg e port ext g m = (m', w, cs)"
  shows "timed (e_now e) m' \<and> 0 < w \<and> w \<le> max (c_CheckEvery cfg) maxBackoff"
proof -
  define ip where "ip = (case c_HostIP cfg of Some ip \<Rightarrow> if \<not> IsUnspecified ip then Some ip else gw_LocalIP g | None \<Rightarrow> gw_LocalIP g)"
  show ?thesis
  proof (cases ip)
    case None
    then have "(m', w) = fail (e_now e) StateError ''couldn't tell this host's LAN address'' m"
      using assms(4) by (auto simp: request_mapping_def ip_def [symmetric] Let_def split: prod.splits)
    then show ?thesis using fail_timed [OF assms(1)] by (metis fst_conv snd_conv max.coboundedI2)
  next
    case (Some a)
    let ?want = "\<lparr>pm_Protocol = ''TCP'', pm_InternalIP = a, pm_InternalPort = port, pm_ExternalPort = ext,
                   pm_Lease = c_Lease cfg, pm_Description = c_Description cfg\<rparr>"
    show ?thesis
    proof (cases "e_add e ?want")
      case (Inl err)
      then have "(m', w) = fail (e_now e) StateError (''map port '' @ Itoa ext @ '': '' @ err) (forget_router (e_now e) m)"
        using assms(4) by (simp add: request_mapping_def ip_def [symmetric] Some Let_def split: prod.splits)
      moreover have "timed (e_now e) (forget_router (e_now e) m)"
        using assms(1) timed_cong [of "forget_router (e_now e) m" m] by (simp add: forget_router_def Let_def)
      ultimately show ?thesis using fail_timed [of "e_now e" "forget_router (e_now e) m"]
        by (metis fst_conv snd_conv max.coboundedI2)
    next
      case (Inr gr0)
      then have "gr_Lease gr0 = 0 \<or> 2 \<le> gr_Lease gr0" using assms(2) by (simp add: lease_ok_def)
      then have "gr_Lease gr0 = 0 \<or> 0 < go_div (gr_Lease gr0) 2" by (auto simp: go_div_nonneg)
      then show ?thesis using assms(3,4) Inr
        by (auto simp: request_mapping_def ip_def [symmetric] Some Let_def timed_def backoffs min_def split: if_splits)
    qed
  qed
qed

lemma find_timed:
  assumes "timed (e_now e) m" "lease_ok (EStep e)" "0 < c_CheckEvery cfg" "find_router cfg e port ext m = (m', w, cs)"
  shows "timed (e_now e) m' \<and> 0 < w \<and> w \<le> max (c_CheckEvery cfg) maxBackoff"
proof (cases "gw m")
  case (Some g)
  then show ?thesis using request_timed [OF assms(1-3)] assms(4) by (simp add: find_router_def)
next
  case None
  show ?thesis
  proof (cases "e_discover e")
    case (Inl err)
    let ?m = "m\<lparr>work := (work m)\<lparr>st_GatewayFound := False, st_Method := '''', st_GatewayAddr := ''''\<rparr>\<rparr>"
    obtain b msg where err: "err = (b, msg)" by (cases err)
    have "(m', w) = fail (e_now e) (if b then StateNoGateway else StateError) (''discover router: '' @ msg) ?m"
      using assms(4) None Inl err by (cases b) (simp_all add: find_router_def Let_def split: prod.splits)
    moreover have "timed (e_now e) ?m" using assms(1) timed_cong [of ?m m] by simp
    ultimately show ?thesis using fail_timed [of "e_now e" ?m] by (metis fst_conv snd_conv max.coboundedI2)
  next
    case (Inr g)
    let ?m = "m\<lparr>gw := Some g, work := (work m)\<lparr>st_GatewayFound := True, st_Method := gw_Method g, st_GatewayAddr := gw_Addr g\<rparr>\<rparr>"
    have "timed (e_now e) ?m" using assms(1) timed_cong [of ?m m] by simp
    then show ?thesis using request_timed [OF _ assms(2,3), of ?m port ext g m' w cs] assms(4) None Inr by (simp add: find_router_def)
  qed
qed

lemma idle_timed [simp]: "timed now (setIdle t st msg m) = timed now m" "timed now (fst (unmap e m)) = timed now m"
  "timed now (commit m) = timed now m"
  by (simp_all add: timed_def setIdle_def unmap_def commit_def Let_def split: option.splits)

lemma keep_timed:
  assumes "timed (e_now e) m" "lease_ok (EStep e)" "0 < c_CheckEvery cfg" "keep_or_map cfg e port ext m = (m', w, cs)"
  shows "timed (e_now e) m' \<and> 0 < w \<and> w \<le> max (c_CheckEvery cfg) maxBackoff"
proof -
  consider (retry) "case retryAt m of Some r \<Rightarrow> e_now e < r | None \<Rightarrow> False"
    | (keep) "\<not> (case retryAt m of Some r \<Rightarrow> e_now e < r | None \<Rightarrow> False)"
        "mapped m \<noteq> None \<and> (case renewAt m of Some r \<Rightarrow> e_now e < r | None \<Rightarrow> False)"
    | (find) "\<not> (case retryAt m of Some r \<Rightarrow> e_now e < r | None \<Rightarrow> False)"
        "\<not> (mapped m \<noteq> None \<and> (case renewAt m of Some r \<Rightarrow> e_now e < r | None \<Rightarrow> False))" by blast
  then show ?thesis
  proof cases
    case retry
    then have "m' = m" "w = the (retryAt m) - e_now e" using assms(4) by (auto simp: keep_or_map_def Let_def)
    then show ?thesis using assms(1) retry by (auto simp: timed_def split: option.splits)
  next
    case keep
    then have "m' = m" "w = min (c_CheckEvery cfg) (the (renewAt m) - e_now e)"
      using assms(4) by (auto simp: keep_or_map_def Let_def)
    then show ?thesis using assms(1,3) keep(2) by (auto split: option.splits)
  next
    case find
    then have "find_router cfg e port ext m = (m', w, cs)"
      using assms(4) by (simp only: keep_or_map_def Let_def if_False)
    then show ?thesis using find_timed [OF assms(1-3)] by simp
  qed
qed

lemma body_timed:
  assumes "timed (e_now e) m" "lease_ok (EStep e)" "0 < c_CheckEvery cfg" "step_body cfg e m = (m', w, cs)"
  shows "timed (e_now e) m' \<and> 0 < w \<and> w \<le> max (c_CheckEvery cfg) maxBackoff"
proof -
  obtain mu cu where u: "unmap e m = (mu, cu)" by fastforce
  have mu: "timed (e_now e) mu" using assms(1) u idle_timed(2) [of "e_now e" e m] by simp
  show ?thesis
  proof (cases "exposure cfg (e_settings e)")
    case None
    then have "timed (e_now e) m' \<and> w = c_CheckEvery cfg"
      using assms(1,4) u mu by (auto simp: step_body_def exposure_def Let_def split: if_splits sum.splits)
    then show ?thesis using assms(3) by simp
  next
    case (Some ext)
    then obtain host port where p: "s_Enabled (e_settings e)" "ParseListenAddr (c_ListenAddr cfg) (c_Listen cfg) = Inr (host, port)"
      "\<not> IsLoopbackHost host (c_HostIP cfg)" "ext = wanted_port (e_settings e) port"
      by (auto simp: exposure_def split: if_splits sum.splits)
    obtain m1 c1 where d: "drop_old e ext m = (m1, c1)" by fastforce
    have m1: "timed (e_now e) m1" using assms(1) d u mu by (auto simp: drop_old_def split: option.splits if_splits)
    obtain c2 where "keep_or_map cfg e port ext m1 = (m', w, c2)"
      using assms(4) p d by (auto simp: step_body_def split: prod.splits)
    then show ?thesis using keep_timed [OF m1 assms(2,3)] by simp
  qed
qed

lemma step_timed:
  assumes "timed (e_now e) m" "lease_ok (EStep e)" "0 < c_CheckEvery cfg" "step cfg e m = (m', w, cs)"
  shows "timed (e_now e) m' \<and> 0 < w \<and> w \<le> max (c_CheckEvery cfg) maxBackoff"
proof -
  have "timed (e_now e) (step_start cfg e m)" using assms(1) by (auto simp: timed_def step_start_def Let_def)
  moreover obtain m3 where "step_body cfg e (step_start cfg e m) = (m3, w, cs)" "m' = commit m3"
    using assms(4) by (auto simp: step_def split: prod.splits)
  ultimately show ?thesis using body_timed [of e _ cfg m3 w cs] assms(2,3) by simp
qed

lemma timed_later: "timed now m \<Longrightarrow> now \<le> now' \<Longrightarrow> timed now' m"
  by (auto simp: timed_def split: option.splits)

lemma times_simps [simp]: "times [] = []" "times (EStep e # evs) = e_now e # times evs" "times (EKick # evs) = times evs"
  "times (evs @ evs') = times evs @ times evs'"
  by (simp_all add: times_def map_filter_def)

lemma run_timed:
  assumes "list_all lease_ok evs" "sorted (times evs)" "0 < c_CheckEvery cfg" "\<forall>t \<in> set (times evs). t \<le> now"
  shows "timed now (fst (run cfg evs))"
  using assms
proof (induction evs arbitrary: now rule: rev_induct)
  case Nil
  then show ?case by (simp add: run_def New_def timed_def)
next
  case (snoc ev evs)
  show ?case
  proof (cases ev)
    case EKick
    then have "timed now (fst (run cfg evs))" using snoc by simp
    then show ?thesis using EKick by (auto simp: run_def event_def Kick_def timed_def)
  next
    case (EStep e)
    then have "timed (e_now e) (fst (run cfg evs))" using snoc by (simp add: sorted_append)
    moreover obtain m' w cs where s: "step cfg e (fst (run cfg evs)) = (m', w, cs)" by (cases "step cfg e (fst (run cfg evs))") auto
    ultimately have "timed (e_now e) m'" using step_timed [OF _ _ _ s] snoc.prems EStep by simp
    then show ?thesis using s snoc.prems EStep timed_later [of "e_now e" m' now] by (simp add: run_def event_def)
  qed
qed

text \<open>
  The loop neither spins nor stalls: whatever happened before, a check waits a positive
  time, at most the check interval or fifteen minutes, and the back-off stays between one minute and
  fifteen.
\<close>

theorem Mapper_waits:
  assumes "list_all lease_ok (evs @ [EStep e])" "sorted (times (evs @ [EStep e]))" "0 < c_CheckEvery cfg"
  shows "case step cfg e (fst (run cfg evs)) of (m, w, cs) \<Rightarrow>
     0 < w \<and> w \<le> max (c_CheckEvery cfg) maxBackoff \<and> (backoff m = 0 \<or> (minBackoff \<le> backoff m \<and> backoff m \<le> maxBackoff))"
proof -
  have "timed (e_now e) (fst (run cfg evs))"
    using run_timed [of evs cfg "e_now e"] assms by (simp add: sorted_append)
  then show ?thesis using step_timed [of e "fst (run cfg evs)" cfg] assms
    by (auto simp: timed_def split: prod.splits)
qed

theorem Mapper_waits_witness:
  "let cfg = \<lparr>c_ListenAddr = '':7070'', c_Listen = Inr ('''', ''7070''), c_HostIP = None, c_Node = ''n'', c_Lease = defaultLease,
              c_CheckEvery = defaultCheckEvery, c_Description = ''OnScreen''\<rparr>;
       e = \<lparr>e_now = 5, e_settings = \<lparr>s_Enabled = True, s_ExternalPort = 0\<rparr>, e_discover = Inl (True, ''none''),
            e_add = (\<lambda>_. Inl ''''), e_delete = (\<lambda>_. False), e_external = Inl ''''\<rparr>
   in 0 < fst (snd (step cfg e (fst (run cfg [EKick]))))"
proof -
  let ?cfg = "\<lparr>c_ListenAddr = '':7070'', c_Listen = Inr ('''', ''7070''), c_HostIP = None, c_Node = ''n'', c_Lease = defaultLease,
              c_CheckEvery = defaultCheckEvery, c_Description = ''OnScreen''\<rparr>"
  let ?e = "\<lparr>e_now = 5, e_settings = \<lparr>s_Enabled = True, s_ExternalPort = 0\<rparr>, e_discover = Inl (True, ''none''),
            e_add = (\<lambda>_. Inl ''''), e_delete = (\<lambda>_. False), e_external = Inl ''''\<rparr> :: Env"
  have "list_all lease_ok ([EKick] @ [EStep ?e])" "sorted (times ([EKick] @ [EStep ?e]))" "0 < c_CheckEvery ?cfg"
    by (simp_all add: lease_ok_def defaultCheckEvery_def second_def)
  from Mapper_waits [OF this] show ?thesis unfolding Let_def by (simp only: split_beta)
qed

end
