(* ===== verification/Watch.thy ===== *)
theory Watch
  imports OSPrelude
begin

text \<open>
  Parental watch limits: the policy (\<open>internal/domain/watchlimit/watchlimit.go\<close>), its tables
  (\<open>store.go\<close>), the read memo in front of them (\<open>internal/api/v1/watchlimit_memo.go\<close>), the accrual from
  byte serving (\<open>usage_accrue.go\<close>) and the gates of the progress and stream handlers (\<open>items.go\<close>).

  Times are milliseconds of server-local time, a day has 24 hours.  A request reads the clock once.
  \<open>ok\<close> says whether the database answers.
\<close>

section \<open>Policy\<close>

record Policy =
  DailyLimitMinutes :: "int option"
  AllowedStartMinute :: "int option"
  AllowedEndMinute :: "int option"

definition unrestricted :: Policy where
  "unrestricted = \<lparr>DailyLimitMinutes = None, AllowedStartMinute = None, AllowedEndMinute = None\<rparr>"

definition Restricted :: "Policy \<Rightarrow> bool" where
  "Restricted p \<longleftrightarrow> DailyLimitMinutes p \<noteq> None \<or> (AllowedStartMinute p \<noteq> None \<and> AllowedEndMinute p \<noteq> None)"

datatype BlockReason = ReasonOutsideHours | ReasonDailyLimit

definition minute_of_day :: "int \<Rightarrow> int" where
  "minute_of_day now = (now mod 86400000) div 60000"

definition LocalDay :: "int \<Rightarrow> int" where
  "LocalDay now = now div 86400000"

definition in_hours :: "int \<Rightarrow> int \<Rightarrow> int \<Rightarrow> bool" where
  "in_hours start fin nowMin =
    (if start = fin then True
     else if start < fin then start \<le> nowMin \<and> nowMin < fin
     else start \<le> nowMin \<or> nowMin < fin)"

text \<open>\<open>Evaluate\<close>: \<open>None\<close> is allowed, \<open>Some r\<close> blocked for the reason \<open>r\<close>.\<close>

definition Evaluate :: "Policy \<Rightarrow> int \<Rightarrow> int \<Rightarrow> BlockReason option" where
  "Evaluate p usedSeconds now =
    (if (case (AllowedStartMinute p, AllowedEndMinute p) of
           (Some s, Some e) \<Rightarrow> \<not> in_hours s e (minute_of_day now) | _ \<Rightarrow> False)
     then Some ReasonOutsideHours
     else if (case DailyLimitMinutes p of Some l \<Rightarrow> l * 60 \<le> usedSeconds | None \<Rightarrow> False) then Some ReasonDailyLimit
     else None)"

section \<open>Tables\<close>

text \<open>\<open>w_users\<close>: the users with their parent; \<open>w_usage\<close>: watched seconds and last tick per user and day.\<close>

record WatchDB =
  w_users :: "string \<Rightarrow> string option option"
  w_limits :: "string \<Rightarrow> Policy option"
  w_usage :: "string \<times> int \<Rightarrow> (int \<times> int) option"

definition maxTickSeconds :: int where
  "maxTickSeconds = 30"

definition effectiveOwner :: "WatchDB \<Rightarrow> string \<Rightarrow> string option" where
  "effectiveOwner db u = (case w_users db u of None \<Rightarrow> None
     | Some par \<Rightarrow> Some (if w_limits db u \<noteq> None then u else case par of Some p \<Rightarrow> p | None \<Rightarrow> u))"

definition GetPolicy :: "WatchDB \<Rightarrow> string \<Rightarrow> Policy" where
  "GetPolicy db u = (case effectiveOwner db u of None \<Rightarrow> unrestricted
     | Some own \<Rightarrow> (case w_limits db own of None \<Rightarrow> unrestricted | Some p \<Rightarrow> p))"

definition SetPolicy :: "string \<Rightarrow> Policy \<Rightarrow> WatchDB \<Rightarrow> WatchDB" where
  "SetPolicy u p db = db\<lparr>w_limits := (w_limits db)(u \<mapsto> p)\<rparr>"

definition row_seconds :: "WatchDB \<Rightarrow> string \<Rightarrow> int \<Rightarrow> int" where
  "row_seconds db u day = (case w_usage db (u, day) of None \<Rightarrow> 0 | Some (sec, _) \<Rightarrow> sec)"

definition TodayUsageSeconds :: "WatchDB \<Rightarrow> string \<Rightarrow> int \<Rightarrow> int" where
  "TodayUsageSeconds db u day = (case effectiveOwner db u of None \<Rightarrow> 0 | Some own \<Rightarrow> row_seconds db own day)"

text \<open>The epoch difference, rounded to whole seconds by the cast, clamped to \<open>0..maxTickSeconds\<close>.\<close>

definition tick_delta :: "int \<Rightarrow> int \<Rightarrow> int" where
  "tick_delta prev now = min (max ((now - prev + 500) div 1000) 0) maxTickSeconds"

definition AddTick :: "string \<Rightarrow> int \<Rightarrow> int \<Rightarrow> WatchDB \<Rightarrow> WatchDB" where
  "AddTick u day now db =
    db\<lparr>w_usage := (w_usage db)((u, day) \<mapsto> (case w_usage db (u, day) of
         None \<Rightarrow> (0, now) | Some (sec, prev) \<Rightarrow> (sec + tick_delta prev now, now)))\<rparr>"

section \<open>The memo and the gates\<close>

definition watchLimitMemoTTL :: int where
  "watchLimitMemoTTL = 10000"

definition usageAccrueInterval :: int where
  "usageAccrueInterval = 15000"

record WatchServer =
  ws_db :: WatchDB
  ws_policy :: "string \<Rightarrow> (Policy \<times> int) option"
  ws_usage :: "string \<Rightarrow> (int \<times> int \<times> int) option"
  ws_last :: "string \<Rightarrow> int option"

definition memo_GetPolicy :: "int \<Rightarrow> bool \<Rightarrow> string \<Rightarrow> WatchServer \<Rightarrow> Policy option \<times> WatchServer" where
  "memo_GetPolicy now ok u s =
    (case ws_policy s u of
       Some (v, at) \<Rightarrow> if now - at < watchLimitMemoTTL then (Some v, s)
         else if ok then let p = GetPolicy (ws_db s) u in (Some p, s\<lparr>ws_policy := (ws_policy s)(u \<mapsto> (p, now))\<rparr>) else (None, s)
     | None \<Rightarrow> if ok then let p = GetPolicy (ws_db s) u in (Some p, s\<lparr>ws_policy := (ws_policy s)(u \<mapsto> (p, now))\<rparr>) else (None, s))"

definition memo_Usage :: "int \<Rightarrow> bool \<Rightarrow> string \<Rightarrow> int \<Rightarrow> WatchServer \<Rightarrow> int option \<times> WatchServer" where
  "memo_Usage now ok u day s =
    (let fetch = (if ok then let n = TodayUsageSeconds (ws_db s) u day in (Some n, s\<lparr>ws_usage := (ws_usage s)(u \<mapsto> (day, n, now))\<rparr>)
                  else (None, s))
     in case ws_usage s u of
       Some (d, secs, at) \<Rightarrow> if d = day \<and> now - at < watchLimitMemoTTL then (Some secs, s) else fetch
     | None \<Rightarrow> fetch)"

definition memo_AddTick :: "bool \<Rightarrow> string \<Rightarrow> int \<Rightarrow> int \<Rightarrow> WatchServer \<Rightarrow> WatchServer" where
  "memo_AddTick ok u day now s =
    s\<lparr>ws_db := (if ok then AddTick u day now (ws_db s) else ws_db s), ws_usage := (ws_usage s)(u := None)\<rparr>"

text \<open>\<open>watchLimitBlocks\<close>, the gate of every byte-serving handler; a failed usage read counts as zero.\<close>

definition watchLimitBlocks :: "int \<Rightarrow> bool \<Rightarrow> string \<Rightarrow> WatchServer \<Rightarrow> BlockReason option \<times> WatchServer" where
  "watchLimitBlocks now ok u s =
    (case memo_GetPolicy now ok u s of
       (None, s1) \<Rightarrow> (None, s1)
     | (Some p, s1) \<Rightarrow>
         if \<not> Restricted p then (None, s1)
         else case memo_Usage now ok u (LocalDay now) s1 of
           (n, s2) \<Rightarrow> (Evaluate p (case n of Some k \<Rightarrow> k | None \<Rightarrow> 0) now, s2))"

definition Tick :: "int \<Rightarrow> bool \<Rightarrow> string \<Rightarrow> WatchServer \<Rightarrow> WatchServer" where
  "Tick now ok u s =
    (if (case ws_last s u of Some t \<Rightarrow> now - t < usageAccrueInterval | None \<Rightarrow> False) then s
     else let s1 = s\<lparr>ws_last := (ws_last s)(u \<mapsto> now)\<rparr> in
       case memo_GetPolicy now ok u s1 of
         (None, s2) \<Rightarrow> s2
       | (Some p, s2) \<Rightarrow> if \<not> Restricted p then s2 else memo_AddTick ok u (LocalDay now) now s2)"

text \<open>Serving media bytes: the gate, then the accrual.\<close>

definition serve :: "int \<Rightarrow> bool \<Rightarrow> string \<Rightarrow> WatchServer \<Rightarrow> BlockReason option \<times> WatchServer" where
  "serve now ok u s =
    (case watchLimitBlocks now ok u s of
       (Some r, s1) \<Rightarrow> (Some r, s1)
     | (None, s1) \<Rightarrow> (None, Tick now ok u s1))"

text \<open>A progress report: only a playing one is gated and counted; a failed usage read skips the verdict but not the tick.\<close>

definition heartbeat :: "int \<Rightarrow> bool \<Rightarrow> string \<Rightarrow> bool \<Rightarrow> WatchServer \<Rightarrow> BlockReason option \<times> WatchServer" where
  "heartbeat now ok u playing s =
    (if \<not> playing then (None, s)
     else case memo_GetPolicy now ok u s of
       (None, s1) \<Rightarrow> (None, s1)
     | (Some p, s1) \<Rightarrow>
         if \<not> Restricted p then (None, s1)
         else (case memo_Usage now ok u (LocalDay now) s1 of
           (Some n, s2) \<Rightarrow> (case Evaluate p n now of
              Some r \<Rightarrow> (Some r, s2)
            | None \<Rightarrow> (None, memo_AddTick ok u (LocalDay now) now s2))
         | (None, s2) \<Rightarrow> (None, memo_AddTick ok u (LocalDay now) now s2)))"

text \<open>Requests one after another, with their verdicts.\<close>

datatype WatchRequest = Beat int string bool | Serve int string

fun handle :: "WatchRequest \<Rightarrow> WatchServer \<Rightarrow> BlockReason option \<times> WatchServer" where
  "handle (Beat now u playing) s = heartbeat now True u playing s"
| "handle (Serve now u) s = serve now True u s"

fun session :: "WatchRequest list \<Rightarrow> WatchServer \<Rightarrow> BlockReason option list \<times> WatchServer" where
  "session [] s = ([], s)"
| "session (r # rs) s = (case handle r s of (v, s1) \<Rightarrow> (case session rs s1 of (vs, s2) \<Rightarrow> (v # vs, s2)))"

definition fresh_server :: "WatchDB \<Rightarrow> WatchServer" where
  "fresh_server db = \<lparr>ws_db = db, ws_policy = (\<lambda>_. None), ws_usage = (\<lambda>_. None), ws_last = (\<lambda>_. None)\<rparr>"

text \<open>The allowed hours are a cyclic interval of the day.\<close>

lemma in_hours_cyclic:
  assumes "0 \<le> s" "s < 1440" "0 \<le> e" "e < 1440" "0 \<le> n" "n < 1440" "s \<noteq> e"
  shows "in_hours s e n \<longleftrightarrow> (n - s) mod 1440 < (e - s) mod 1440"
proof -
  have m: "(x :: int) mod 1440 = (if x < 0 then x + 1440 else x)" if "- 1440 \<le> x" "x < 1440" for x
    using that mod_add_self2 [of x 1440] mod_pos_pos_trivial [of x 1440] mod_pos_pos_trivial [of "x + 1440" 1440] by auto
  show ?thesis using assms by (auto simp: in_hours_def m)
qed

section \<open>A user with a policy of its own\<close>

definition capped :: "string \<Rightarrow> Policy \<Rightarrow> int \<Rightarrow> WatchServer \<Rightarrow> bool" where
  "capped u p l s \<longleftrightarrow> w_limits (ws_db s) u = Some p \<and> w_users (ws_db s) u \<noteq> None
     \<and> (case ws_policy s u of None \<Rightarrow> True | Some (v, _) \<Rightarrow> v = p)
     \<and> (case ws_usage s u of None \<Rightarrow> True | Some (d, n, _) \<Rightarrow> n = row_seconds (ws_db s) u d)
     \<and> (\<forall>d. row_seconds (ws_db s) u d \<le> 60 * l + 29)"

lemma own_reads:
  assumes "w_limits db u = Some p" "w_users db u \<noteq> None"
  shows "GetPolicy db u = p" "TodayUsageSeconds db u d = row_seconds db u d"
  using assms by (auto simp: GetPolicy_def TodayUsageSeconds_def effectiveOwner_def)

lemma capped_policy:
  assumes "capped u p l s" "memo_GetPolicy now True u s = (q, s1)"
  shows "q = Some p \<and> capped u p l s1 \<and> ws_db s1 = ws_db s"
  using assms own_reads [of "ws_db s" u p]
  by (auto simp: capped_def memo_GetPolicy_def Let_def split: option.splits if_splits)

lemma capped_usage:
  assumes "capped u p l s" "memo_Usage now True u day s = (n, s1)"
  shows "n = Some (row_seconds (ws_db s) u day) \<and> capped u p l s1 \<and> ws_db s1 = ws_db s"
  using assms own_reads(2) [of "ws_db s" u p day]
  by (auto simp: capped_def memo_Usage_def Let_def split: option.splits if_splits)

lemma AddTick_rows: "row_seconds (AddTick v day now db) u d =
    (if u = v \<and> d = day \<and> w_usage db (v, day) \<noteq> None then row_seconds db u d + tick_delta (snd (the (w_usage db (v, day)))) now
     else row_seconds db u d)"
  by (auto simp: row_seconds_def AddTick_def split: option.splits prod.splits)

lemma AddTick_frame [simp]: "w_limits (AddTick v day now db) = w_limits db" "w_users (AddTick v day now db) = w_users db"
  by (simp_all add: AddTick_def)

lemma tick_delta_bound: "tick_delta prev now \<le> 30" "0 \<le> tick_delta prev now"
  by (simp_all add: tick_delta_def maxTickSeconds_def)

lemma capped_tick:
  assumes "capped u p l s" "row_seconds (ws_db s) u day < 60 * l"
  shows "capped u p l (memo_AddTick True u day now s)"
proof -
  have "row_seconds (AddTick u day now (ws_db s)) u d \<le> 60 * l + 29" for d
    using assms tick_delta_bound(1) [of "snd (the (w_usage (ws_db s) (u, day)))" now]
    by (auto simp: AddTick_rows capped_def)
  then show ?thesis using assms(1) by (simp add: capped_def memo_AddTick_def)
qed

lemma Evaluate_below: "Evaluate p n now = None \<Longrightarrow> DailyLimitMinutes p = Some l \<Longrightarrow> n < 60 * l"
  by (auto simp: Evaluate_def split: if_splits)

lemma capped_gate:
  assumes "capped u p l s" "DailyLimitMinutes p = Some l" "watchLimitBlocks now True u s = (r, s1)"
  shows "capped u p l s1 \<and> ws_db s1 = ws_db s \<and> r = Evaluate p (row_seconds (ws_db s) u (LocalDay now)) now"
proof -
  obtain q s2 where g: "memo_GetPolicy now True u s = (q, s2)" by fastforce
  obtain n s3 where n: "memo_Usage now True u (LocalDay now) s2 = (n, s3)" by fastforce
  have q: "q = Some p" "capped u p l s2" "ws_db s2 = ws_db s" using capped_policy [OF assms(1) g] by simp_all
  moreover have "n = Some (row_seconds (ws_db s2) u (LocalDay now))" "capped u p l s3" "ws_db s3 = ws_db s2"
    using capped_usage [OF q(2) n] by simp_all
  moreover have "Restricted p" using assms(2) by (simp add: Restricted_def)
  ultimately show ?thesis using assms(3) g n by (simp add: watchLimitBlocks_def)
qed

lemma capped_Tick:
  assumes "capped u p l s" "row_seconds (ws_db s) u (LocalDay now) < 60 * l"
  shows "capped u p l (Tick now True u s)"
proof (cases "case ws_last s u of Some t \<Rightarrow> now - t < usageAccrueInterval | None \<Rightarrow> False")
  case True
  then show ?thesis using assms(1) by (simp add: Tick_def)
next
  case False
  let ?s = "s\<lparr>ws_last := (ws_last s)(u \<mapsto> now)\<rparr>"
  have c: "capped u p l ?s" using assms(1) by (auto simp: capped_def split: option.splits)
  obtain q s2 where g: "memo_GetPolicy now True u ?s = (q, s2)" by fastforce
  have "q = Some p" "capped u p l s2" "ws_db s2 = ws_db s" using capped_policy [OF c g] by simp_all
  then show ?thesis using False g capped_tick [of u p l s2 "LocalDay now" now] assms(2) by (simp add: Tick_def Let_def)
qed

lemma capped_serve:
  assumes "capped u p l s" "DailyLimitMinutes p = Some l" "serve now True u s = (r, s1)"
  shows "capped u p l s1 \<and> r = Evaluate p (row_seconds (ws_db s) u (LocalDay now)) now"
proof -
  obtain v s2 where g: "watchLimitBlocks now True u s = (v, s2)" by fastforce
  have v: "capped u p l s2" "ws_db s2 = ws_db s" "v = Evaluate p (row_seconds (ws_db s) u (LocalDay now)) now"
    using capped_gate [OF assms(1,2) g] by simp_all
  show ?thesis
  proof (cases v)
    case None
    then have "row_seconds (ws_db s2) u (LocalDay now) < 60 * l" using Evaluate_below assms(2) v by metis
    then show ?thesis using None assms(3) g v capped_Tick [OF v(1)] by (auto simp: serve_def)
  next
    case (Some x)
    then show ?thesis using assms(3) g v by (auto simp: serve_def)
  qed
qed

lemma capped_beat:
  assumes "capped u p l s" "DailyLimitMinutes p = Some l" "heartbeat now True u playing s = (r, s1)"
  shows "capped u p l s1 \<and> (playing \<longrightarrow> r = Evaluate p (row_seconds (ws_db s) u (LocalDay now)) now)"
proof (cases playing)
  case False
  then show ?thesis using assms by (simp add: heartbeat_def)
next
  case True
  obtain q s2 where g: "memo_GetPolicy now True u s = (q, s2)" by fastforce
  obtain n s3 where n: "memo_Usage now True u (LocalDay now) s2 = (n, s3)" by fastforce
  have q: "q = Some p" "capped u p l s2" "ws_db s2 = ws_db s" using capped_policy [OF assms(1) g] by simp_all
  have n': "n = Some (row_seconds (ws_db s) u (LocalDay now))" "capped u p l s3" "ws_db s3 = ws_db s"
    using capped_usage [OF q(2) n] q(3) by simp_all
  have r: "Restricted p" using assms(2) by (simp add: Restricted_def)
  show ?thesis
  proof (cases "Evaluate p (row_seconds (ws_db s) u (LocalDay now)) now")
    case None
    then have "row_seconds (ws_db s3) u (LocalDay now) < 60 * l" using Evaluate_below assms(2) n'(3) by metis
    then have "capped u p l (memo_AddTick True u (LocalDay now) now s3)" using capped_tick [OF n'(2)] by simp
    then show ?thesis using None True assms(3) g n q n' r by (simp add: heartbeat_def)
  next
    case (Some x)
    then show ?thesis using True assms(3) g n q n' r by (auto simp: heartbeat_def)
  qed
qed

text \<open>What a request of another user leaves alone.\<close>

definition same_for :: "string \<Rightarrow> WatchServer \<Rightarrow> WatchServer \<Rightarrow> bool" where
  "same_for u s s' \<longleftrightarrow> w_limits (ws_db s') = w_limits (ws_db s) \<and> w_users (ws_db s') = w_users (ws_db s)
     \<and> row_seconds (ws_db s') u = row_seconds (ws_db s) u
     \<and> ws_policy s' u = ws_policy s u \<and> ws_usage s' u = ws_usage s u"

lemma same_refl: "same_for u s s"
  by (simp add: same_for_def)

lemma same_trans: "same_for u s s1 \<Longrightarrow> same_for u s1 s2 \<Longrightarrow> same_for u s s2"
  by (simp add: same_for_def)

lemma same_memo:
  assumes "v \<noteq> u"
  shows "same_for u s (snd (memo_GetPolicy now ok v s))" "same_for u s (snd (memo_Usage now ok v day s))"
    "same_for u s (memo_AddTick ok v day now s)"
  using assms by (auto simp: same_for_def memo_GetPolicy_def memo_Usage_def memo_AddTick_def Let_def AddTick_rows fun_eq_iff
      split: option.splits)

lemma same_gate: "v \<noteq> u \<Longrightarrow> same_for u s (snd (watchLimitBlocks now ok v s))"
  using same_memo(1) [of v u s now ok] same_memo(2) [of v u "snd (memo_GetPolicy now ok v s)" now ok "LocalDay now"]
  by (auto simp: watchLimitBlocks_def split: prod.splits option.splits dest: same_trans)

lemma same_Tick: "v \<noteq> u \<Longrightarrow> same_for u s (Tick now ok v s)"
proof -
  assume v: "v \<noteq> u"
  let ?s = "s\<lparr>ws_last := (ws_last s)(v \<mapsto> now)\<rparr>"
  have "same_for u s ?s" by (simp add: same_for_def)
  then have "same_for u s (snd (memo_GetPolicy now ok v ?s))" using same_memo(1) [OF v] same_trans by blast
  moreover from this have "same_for u s (memo_AddTick ok v (LocalDay now) now (snd (memo_GetPolicy now ok v ?s)))"
    using same_memo(3) [OF v] same_trans by blast
  ultimately show ?thesis by (auto simp: Tick_def Let_def same_refl split: prod.splits option.splits)
qed

lemma same_serve: "v \<noteq> u \<Longrightarrow> same_for u s (snd (serve now ok v s))"
  using same_gate [of v u s now ok] same_Tick [of v u "snd (watchLimitBlocks now ok v s)" now ok]
  by (auto simp: serve_def split: prod.splits option.splits dest: same_trans)

lemma same_beat: "v \<noteq> u \<Longrightarrow> same_for u s (snd (heartbeat now ok v playing s))"
proof -
  assume v: "v \<noteq> u"
  let ?s1 = "snd (memo_GetPolicy now ok v s)"
  let ?s2 = "snd (memo_Usage now ok v (LocalDay now) ?s1)"
  have 1: "same_for u s ?s1" by (rule same_memo(1) [OF v])
  have 2: "same_for u s ?s2" using 1 same_memo(2) [OF v] same_trans by blast
  have 3: "same_for u s (memo_AddTick ok v (LocalDay now) now ?s2)" using 2 same_memo(3) [OF v] same_trans by blast
  show ?thesis using 1 2 3 by (auto simp: heartbeat_def same_refl split: prod.splits option.splits)
qed

lemma same_capped: "same_for u s s' \<Longrightarrow> capped u p l s \<Longrightarrow> capped u p l s'"
  by (auto simp: same_for_def capped_def split: option.splits)

lemma capped_handle:
  assumes "capped u p l s" "DailyLimitMinutes p = Some l"
  shows "capped u p l (snd (handle r s))"
proof (cases r)
  case (Beat now v playing)
  then show ?thesis using assms capped_beat [OF assms, of now playing] same_capped [OF same_beat [of v u], OF _ assms(1)]
    by (cases "v = u") (auto simp: prod_eq_iff)
next
  case (Serve now v)
  then show ?thesis using assms capped_serve [OF assms, of now] same_capped [OF same_serve [of v u], OF _ assms(1)]
    by (cases "v = u") (auto simp: prod_eq_iff)
qed

lemma capped_session: "capped u p l s \<Longrightarrow> DailyLimitMinutes p = Some l \<Longrightarrow> capped u p l (snd (session rs s))"
proof (induction rs arbitrary: s)
  case (Cons r rs)
  then show ?case using capped_handle [of u p l s r] Cons.IH [of "snd (handle r s)"] by (simp add: split_beta)
qed simp

text \<open>
  C34 (safety).  A user with a daily cap of its own is held to it: however its players report and fetch
  bytes among everybody's requests, its count for a day passes the cap by less than half a minute, and
  once it has reached the cap every further fetch and playing report of that day is refused.
\<close>

theorem watch_cap:
  assumes "w_users db u \<noteq> None" "w_limits db u = Some p" "DailyLimitMinutes p = Some l" "0 \<le> l" "\<forall>k. w_usage db k = None"
  shows "let s = snd (session rs (fresh_server db)) in row_seconds (ws_db s) u day \<le> 60 * l + 29
     \<and> (60 * l \<le> row_seconds (ws_db s) u (LocalDay now) \<longrightarrow>
          fst (serve now True u s) \<noteq> None \<and> fst (heartbeat now True u True s) \<noteq> None)"
proof -
  define s where "s = snd (session rs (fresh_server db))"
  have "capped u p l (fresh_server db)" using assms by (simp add: capped_def fresh_server_def row_seconds_def)
  then have c: "capped u p l s" unfolding s_def using assms(3) by (rule capped_session)
  then have "row_seconds (ws_db s) u day \<le> 60 * l + 29" by (simp add: capped_def)
  moreover have "Evaluate p n now \<noteq> None" if "60 * l \<le> n" for n
    using that assms(3) by (simp add: Evaluate_def)
  moreover have "fst (serve now True u s) = Evaluate p (row_seconds (ws_db s) u (LocalDay now)) now"
    "fst (heartbeat now True u True s) = Evaluate p (row_seconds (ws_db s) u (LocalDay now)) now"
    using capped_serve [OF c assms(3), of now] capped_beat [OF c assms(3), of now True] by (auto simp: prod_eq_iff)
  ultimately show ?thesis unfolding s_def [symmetric] Let_def by simp
qed

theorem watch_cap_witness:
  "let p = \<lparr>DailyLimitMinutes = Some 0, AllowedStartMinute = None, AllowedEndMinute = None\<rparr>;
       db = \<lparr>w_users = (\<lambda>_. Some None), w_limits = [''kid'' \<mapsto> p], w_usage = (\<lambda>_. None)\<rparr>
   in fst (serve 5 True ''kid'' (snd (session [Beat 1 ''mum'' True] (fresh_server db)))) \<noteq> None"
proof -
  let ?p = "\<lparr>DailyLimitMinutes = Some 0, AllowedStartMinute = None, AllowedEndMinute = None\<rparr>"
  let ?db = "\<lparr>w_users = (\<lambda>_. Some None), w_limits = [''kid'' \<mapsto> ?p], w_usage = (\<lambda>_. None)\<rparr>"
  have "60 * 0 \<le> row_seconds (ws_db (snd (session [Beat 1 ''mum'' True] (fresh_server ?db)))) ''kid'' (LocalDay 5)" by code_simp
  then show ?thesis
    using watch_cap [of ?db "''kid''" ?p 0 "[Beat 1 ''mum'' True]" 0 5] by (simp only: Let_def) simp
qed

section \<open>A managed profile\<close>

text \<open>
  The reads go to the effective owner, the writes to the requesting user: what a managed profile without a
  policy of its own watches is never seen by the check of its parent's cap.
\<close>

definition profile_inv :: "string \<Rightarrow> string \<Rightarrow> Policy \<Rightarrow> WatchServer \<Rightarrow> bool" where
  "profile_inv c par p s \<longleftrightarrow> w_limits (ws_db s) c = None \<and> w_users (ws_db s) c = Some (Some par) \<and> w_limits (ws_db s) par = Some p
     \<and> (\<forall>d. row_seconds (ws_db s) par d = 0)
     \<and> (case ws_policy s c of None \<Rightarrow> True | Some (v, _) \<Rightarrow> v = p)
     \<and> (case ws_usage s c of None \<Rightarrow> True | Some (_, n, _) \<Rightarrow> n = 0)"

lemma profile_reads:
  assumes "profile_inv c par p s"
  shows "GetPolicy (ws_db s) c = p" "TodayUsageSeconds (ws_db s) c d = 0"
  using assms by (auto simp: profile_inv_def GetPolicy_def TodayUsageSeconds_def effectiveOwner_def)

lemma profile_policy:
  assumes "profile_inv c par p s" "memo_GetPolicy now True c s = (q, s1)"
  shows "q = Some p \<and> profile_inv c par p s1"
  using assms profile_reads(1) [OF assms(1)]
  by (auto simp: profile_inv_def memo_GetPolicy_def Let_def split: option.splits if_splits)

lemma profile_usage:
  assumes "profile_inv c par p s" "memo_Usage now True c day s = (n, s1)"
  shows "n = Some 0 \<and> profile_inv c par p s1"
  using assms profile_reads(2) [OF assms(1)]
  by (auto simp: profile_inv_def memo_Usage_def Let_def split: option.splits if_splits)

lemma profile_tick:
  assumes "profile_inv c par p s" "c \<noteq> par"
  shows "profile_inv c par p (memo_AddTick True c day now s)"
  using assms by (auto simp: profile_inv_def memo_AddTick_def AddTick_rows)

lemma profile_handle:
  assumes inv: "profile_inv c par p s" and "c \<noteq> par" and ev: "\<And>t. Evaluate p 0 t = None" and r: "r = Beat now c playing \<or> r = Serve now c"
  shows "fst (handle r s) = None \<and> profile_inv c par p (snd (handle r s))"
proof -
  obtain q s1 where g: "memo_GetPolicy now True c s = (q, s1)" by fastforce
  obtain n s2 where u: "memo_Usage now True c (LocalDay now) s1 = (n, s2)" by fastforce
  have 1: "q = Some p" "profile_inv c par p s1" using profile_policy [OF inv g] by simp_all
  have 2: "n = Some 0" "profile_inv c par p s2" using profile_usage [OF 1(2) u] by simp_all
  have beat: "fst (heartbeat now True c playing s) = None \<and> profile_inv c par p (snd (heartbeat now True c playing s))"
    using inv g u 1 2 ev profile_tick [OF 2(2) assms(2)] by (auto simp: heartbeat_def)
  have gate: "watchLimitBlocks now True c s = (None, if Restricted p then s2 else s1)"
    using g u 1 2 ev by (auto simp: watchLimitBlocks_def)
  have tick: "profile_inv c par p (Tick now True c t)" if "profile_inv c par p t" for t
  proof -
    let ?t = "t\<lparr>ws_last := (ws_last t)(c \<mapsto> now)\<rparr>"
    obtain q' t2 where g': "memo_GetPolicy now True c ?t = (q', t2)" by fastforce
    have "profile_inv c par p ?t" using that by (auto simp: profile_inv_def split: option.splits)
    then have "profile_inv c par p t2" using profile_policy g' by blast
    then show ?thesis using that g' profile_tick [OF _ assms(2)] by (auto simp: Tick_def Let_def split: option.splits)
  qed
  have "fst (serve now True c s) = None \<and> profile_inv c par p (snd (serve now True c s))"
    using gate tick 1 2 by (simp add: serve_def)
  then show ?thesis using beat r by auto
qed



end
