(* ===== verification/Dvr.thy ===== *)
theory Dvr
  imports OSPrelude
begin

text \<open>
  The DVR's recording rules (\<open>internal/livetv/dvr.go\<close>): validation and the per-user cap of schedules, the
  matching of schedules against the programme guide, and the recordings table the matcher fills, whose
  upsert is that of \<open>internal/db/queries/dvr.sql\<close>.

  Times are milliseconds, UTC; identifiers are strings.  The schedules and programmes a match pass reads
  are its arguments, in the order the queries return them.
\<close>

datatype ScheduleType = ScheduleTypeOnce | ScheduleTypeSeries | ScheduleTypeChannelBlock | OtherType string

record Schedule =
  sc_ID :: string
  sc_UserID :: string
  sc_Type :: ScheduleType
  sc_ProgramID :: "string option"
  sc_ChannelID :: "string option"
  sc_TitleMatch :: "string option"
  sc_NewOnly :: bool
  sc_TimeStart :: "string option"
  sc_TimeEnd :: "string option"
  sc_PaddingPreSec :: int
  sc_PaddingPostSec :: int
  sc_Priority :: int
  sc_RetentionDays :: "int option"
  sc_Enabled :: bool

record EPGProgram =
  pg_ID :: string
  pg_ChannelID :: string
  pg_Title :: string
  pg_Subtitle :: "string option"
  pg_SeasonNum :: "int option"
  pg_EpisodeNum :: "int option"
  pg_OriginalAirDate :: "int option"
  pg_StartsAt :: int
  pg_EndsAt :: int

datatype RecordingStatus = RecScheduled | RecRecording | RecCompleted | RecFailed | RecCancelled | RecSuperseded

record Recording =
  rc_ScheduleID :: "string option"
  rc_UserID :: string
  rc_ChannelID :: string
  rc_ProgramID :: string
  rc_Title :: string
  rc_Subtitle :: "string option"
  rc_SeasonNum :: "int option"
  rc_EpisodeNum :: "int option"
  rc_Status :: RecordingStatus
  rc_StartsAt :: int
  rc_EndsAt :: int

definition maxPaddingPreSec :: int where "maxPaddingPreSec = 15 * 60"
definition maxPaddingPostSec :: int where "maxPaddingPostSec = 3 * 60 * 60"
definition maxSchedulePriority :: int where "maxSchedulePriority = 100"
definition maxRetentionDays :: int where "maxRetentionDays = 3650"
definition maxSchedulesPerUser :: nat where "maxSchedulesPerUser = 100"
definition maxRecordingDuration :: int where "maxRecordingDuration = 12 * 60 * 60 * 1000"

section \<open>Schedules\<close>

datatype DvrError = ErrInvalidSchedule string | ErrDB

definition bad_knobs :: "Schedule \<Rightarrow> string option" where
  "bad_knobs p =
    (if sc_PaddingPreSec p < 0 \<or> sc_PaddingPreSec p > maxPaddingPreSec then Some ''padding_pre_sec must be 0-900''
     else if sc_PaddingPostSec p < 0 \<or> sc_PaddingPostSec p > maxPaddingPostSec then Some ''padding_post_sec must be 0-10800''
     else if sc_Priority p < 0 \<or> sc_Priority p > maxSchedulePriority then Some ''priority must be 0-100''
     else case sc_RetentionDays p of Some d \<Rightarrow> if d < 1 \<or> d > maxRetentionDays then Some ''retention_days must be 1-3650'' else None
       | None \<Rightarrow> None)"

definition validateScheduleParams :: "Schedule \<Rightarrow> DvrError option" where
  "validateScheduleParams p =
    map_option ErrInvalidSchedule
     (case sc_Type p of
        ScheduleTypeOnce \<Rightarrow> if sc_ProgramID p = None then Some ''once schedule requires program_id'' else bad_knobs p
      | ScheduleTypeSeries \<Rightarrow>
          if sc_ChannelID p = None then Some ''series schedule requires channel_id''
          else if sc_TitleMatch p = None \<or> sc_TitleMatch p = Some '''' then Some ''series schedule requires title_match''
          else bad_knobs p
      | ScheduleTypeChannelBlock \<Rightarrow>
          if sc_ChannelID p = None then Some ''channel_block schedule requires channel_id''
          else if sc_TimeStart p = None \<or> sc_TimeEnd p = None then Some ''channel_block schedule requires time_start + time_end''
          else bad_knobs p
      | OtherType t \<Rightarrow> Some (''unknown schedule type '' @ t))"

text \<open>\<open>scheduleLiveApprox\<close> and the exact count of \<open>CountLiveSchedulesForUser\<close>, \<open>ends\<close> giving a programme's end.\<close>

definition scheduleLiveApprox :: "Schedule \<Rightarrow> bool" where
  "scheduleLiveApprox sc \<longleftrightarrow> sc_Enabled sc \<and> (if sc_Type sc = ScheduleTypeOnce then sc_ProgramID sc \<noteq> None else True)"

definition schedule_live :: "int \<Rightarrow> (string \<Rightarrow> int option) \<Rightarrow> Schedule \<Rightarrow> bool" where
  "schedule_live now ends sc \<longleftrightarrow> sc_Enabled sc \<and>
    (sc_Type sc \<noteq> ScheduleTypeOnce \<or>
     (case sc_ProgramID sc of None \<Rightarrow> False | Some pid \<Rightarrow> (case ends pid of None \<Rightarrow> False | Some e \<Rightarrow> now < e)))"

definition countLiveSchedules :: "(Schedule \<Rightarrow> bool) \<Rightarrow> string \<Rightarrow> Schedule list \<Rightarrow> nat" where
  "countLiveSchedules live user rows = length (filter (\<lambda>sc. sc_UserID sc = user \<and> live sc) rows)"

definition checkScheduleCap :: "(Schedule \<Rightarrow> bool) \<Rightarrow> string \<Rightarrow> Schedule list \<Rightarrow> DvrError option" where
  "checkScheduleCap live user rows =
    (if maxSchedulesPerUser \<le> countLiveSchedules live user rows then Some (ErrInvalidSchedule ''schedule limit (100) reached'') else None)"

definition CreateSchedule :: "(Schedule \<Rightarrow> bool) \<Rightarrow> Schedule \<Rightarrow> Schedule list \<Rightarrow> DvrError + Schedule list" where
  "CreateSchedule live p rows =
    (case validateScheduleParams p of Some e \<Rightarrow> Inl e
     | None \<Rightarrow> (case checkScheduleCap live (sc_UserID p) rows of Some e \<Rightarrow> Inl e
       | None \<Rightarrow> Inr (rows @ [p\<lparr>sc_Priority := (if sc_Priority p = 0 then 50 else sc_Priority p),
                                sc_PaddingPreSec := (if sc_PaddingPreSec p = 0 then 60 else sc_PaddingPreSec p),
                                sc_PaddingPostSec := (if sc_PaddingPostSec p = 0 then 180 else sc_PaddingPostSec p),
                                sc_Enabled := True\<rparr>])))"

definition SetScheduleEnabled :: "(Schedule \<Rightarrow> bool) \<Rightarrow> string \<Rightarrow> bool \<Rightarrow> Schedule list \<Rightarrow> DvrError + Schedule list" where
  "SetScheduleEnabled live sid enabled rows =
    (let update = Inr (map (\<lambda>sc. if sc_ID sc = sid then sc\<lparr>sc_Enabled := enabled\<rparr> else sc) rows) in
     if enabled then
       (case find (\<lambda>sc. sc_ID sc = sid) rows of None \<Rightarrow> Inl ErrDB
        | Some sc \<Rightarrow> if \<not> sc_Enabled sc
            then (case checkScheduleCap live (sc_UserID sc) rows of Some e \<Rightarrow> Inl e | None \<Rightarrow> update)
            else update)
     else update)"

definition DeleteSchedule :: "string \<Rightarrow> Schedule list \<Rightarrow> Schedule list" where
  "DeleteSchedule sid rows = filter (\<lambda>sc. sc_ID sc \<noteq> sid) rows"

section \<open>Matching\<close>

definition parseHHMM :: "string \<Rightarrow> int option" where
  "parseHHMM s =
    (if length s \<noteq> 5 \<or> s ! 2 \<noteq> CHR '':'' then None
     else if \<not> list_all is_digit (take 2 s) \<or> \<not> list_all is_digit (drop 3 s) then None
     else let h = digits_val (take 2 s); m = digits_val (drop 3 s) in
       if 24 \<le> h \<or> 60 \<le> m then None else Some (h * 60 + m))"

definition prog_minute :: "EPGProgram \<Rightarrow> int" where
  "prog_minute p = (pg_StartsAt p div 60000) mod 1440"

definition matches :: "int \<Rightarrow> Schedule \<Rightarrow> EPGProgram \<Rightarrow> bool" where
  "matches now sc p =
    (if (case sc_ChannelID sc of Some c \<Rightarrow> pg_ChannelID p \<noteq> c | None \<Rightarrow> False) then False
     else case sc_Type sc of
       ScheduleTypeOnce \<Rightarrow> sc_ProgramID sc = Some (pg_ID p)
     | ScheduleTypeSeries \<Rightarrow>
         (case sc_TitleMatch sc of None \<Rightarrow> False
          | Some t \<Rightarrow> t \<noteq> '''' \<and> EqualFold (pg_Title p) t
              \<and> \<not> (sc_NewOnly sc \<and> (case pg_OriginalAirDate p of Some d \<Rightarrow> d < now - 7 * 86400000 | None \<Rightarrow> False)))
     | ScheduleTypeChannelBlock \<Rightarrow>
         (case (sc_TimeStart sc, sc_TimeEnd sc) of
            (Some a, Some b) \<Rightarrow>
              (case (parseHHMM a, parseHHMM b) of
                 (Some s, Some e) \<Rightarrow>
                   if s \<le> e then s \<le> prog_minute p \<and> prog_minute p < e else s \<le> prog_minute p \<or> prog_minute p < e
               | _ \<Rightarrow> False)
          | _ \<Rightarrow> False)
     | OtherType _ \<Rightarrow> False)"

definition clampPadding :: "int \<Rightarrow> int \<Rightarrow> int" where
  "clampPadding v mx = (let v1 = (if v < 0 then 0 else v); v2 = (if v1 > mx then mx else v1) in v2 * 1000)"

type_synonym recordings = "string \<times> string \<Rightarrow> Recording option"

text \<open>
  \<open>UpsertRecording\<close>: a row still scheduled is refreshed, its channel excepted; any other status makes the
  statement return no row, which its caller sees as an error.
\<close>

definition UpsertRecording :: "Recording \<Rightarrow> recordings \<Rightarrow> (recordings \<times> Recording) option" where
  "UpsertRecording r st =
    (let k = (rc_UserID r, rc_ProgramID r) in
     case st k of
       None \<Rightarrow> (let n = r\<lparr>rc_Status := RecScheduled\<rparr> in Some (st(k \<mapsto> n), n))
     | Some x \<Rightarrow> if rc_Status x = RecScheduled
         then (let n = x\<lparr>rc_ScheduleID := rc_ScheduleID r, rc_Title := rc_Title r, rc_Subtitle := rc_Subtitle r,
                         rc_SeasonNum := rc_SeasonNum r, rc_EpisodeNum := rc_EpisodeNum r,
                         rc_StartsAt := rc_StartsAt r, rc_EndsAt := rc_EndsAt r\<rparr> in Some (st(k \<mapsto> n), n))
         else None)"

definition candidates :: "int \<Rightarrow> Schedule list \<Rightarrow> EPGProgram list \<Rightarrow> (Schedule \<times> EPGProgram) list" where
  "candidates now scs ps = concat (map (\<lambda>sc. map (\<lambda>p. (sc, p)) (filter (matches now sc) ps)) scs)"

definition recording_of :: "Schedule \<times> EPGProgram \<Rightarrow> Recording" where
  "recording_of c = (case c of (sc, p) \<Rightarrow>
    \<lparr>rc_ScheduleID = Some (sc_ID sc), rc_UserID = sc_UserID sc, rc_ChannelID = pg_ChannelID p, rc_ProgramID = pg_ID p,
     rc_Title = pg_Title p, rc_Subtitle = pg_Subtitle p, rc_SeasonNum = pg_SeasonNum p, rc_EpisodeNum = pg_EpisodeNum p,
     rc_Status = RecScheduled,
     rc_StartsAt = pg_StartsAt p - clampPadding (sc_PaddingPreSec sc) maxPaddingPreSec,
     rc_EndsAt = pg_EndsAt p + clampPadding (sc_PaddingPostSec sc) maxPaddingPostSec\<rparr>)"

definition too_long :: "Recording \<Rightarrow> bool" where
  "too_long r \<longleftrightarrow> maxRecordingDuration < rc_EndsAt r - rc_StartsAt r"

fun upsert_all :: "(Schedule \<times> EPGProgram) list \<Rightarrow> nat \<times> nat \<times> recordings \<Rightarrow> nat \<times> nat \<times> recordings" where
  "upsert_all [] acc = acc"
| "upsert_all (c # cs) (matched, conflicts, st) =
    (if too_long (recording_of c) then upsert_all cs (matched, conflicts, st)
     else case UpsertRecording (recording_of c) st of
       None \<Rightarrow> upsert_all cs (matched, Suc conflicts, st)
     | Some (st', _) \<Rightarrow> upsert_all cs (Suc matched, conflicts, st'))"

definition Match :: "int \<Rightarrow> Schedule list \<Rightarrow> EPGProgram list \<Rightarrow> recordings \<Rightarrow> nat \<times> nat \<times> recordings" where
  "Match now scs ps st =
    (if scs = [] \<or> ps = [] then (0, 0, st) else upsert_all (candidates now scs ps) (0, 0, st))"

section \<open>A match pass\<close>

definition rec_key :: "Recording \<Rightarrow> string \<times> string" where
  "rec_key r = (rc_UserID r, rc_ProgramID r)"

text \<open>What an upsert makes of the row of its key, and what a pass makes of one row.\<close>

definition refreshed :: "Recording option \<Rightarrow> Recording \<Rightarrow> Recording option" where
  "refreshed old r = (case old of None \<Rightarrow> Some (r\<lparr>rc_Status := RecScheduled\<rparr>)
     | Some x \<Rightarrow> Some (if rc_Status x = RecScheduled
         then x\<lparr>rc_ScheduleID := rc_ScheduleID r, rc_Title := rc_Title r, rc_Subtitle := rc_Subtitle r,
                rc_SeasonNum := rc_SeasonNum r, rc_EpisodeNum := rc_EpisodeNum r,
                rc_StartsAt := rc_StartsAt r, rc_EndsAt := rc_EndsAt r\<rparr>
         else x))"

definition wanted_for :: "string \<times> string \<Rightarrow> (Schedule \<times> EPGProgram) list \<Rightarrow> Recording list" where
  "wanted_for k cs = filter (\<lambda>r. \<not> too_long r \<and> rec_key r = k) (map recording_of cs)"

lemma UpsertRecording_store:
  "(case UpsertRecording r st of None \<Rightarrow> st | Some (st', _) \<Rightarrow> st') = st(rec_key r := refreshed (st (rec_key r)) r)"
  by (auto simp: UpsertRecording_def refreshed_def rec_key_def Let_def fun_upd_idem split: option.splits)

lemma upsert_all_row: "snd (snd (upsert_all cs (a, b, st))) k = foldl refreshed (st k) (wanted_for k cs)"
proof (induction cs arbitrary: a b st)
  case (Cons c cs)
  show ?case
  proof (cases "too_long (recording_of c)")
    case True
    then show ?thesis using Cons by (simp add: wanted_for_def)
  next
    case False
    define st1 where "st1 = st(rec_key (recording_of c) := refreshed (st (rec_key (recording_of c))) (recording_of c))"
    obtain a' b' where e: "upsert_all (c # cs) (a, b, st) = upsert_all cs (a', b', st1)"
      using False UpsertRecording_store [of st "recording_of c"] by (auto simp: st1_def [symmetric] split: option.splits)
    have "foldl refreshed (st1 k) (wanted_for k cs) = foldl refreshed (st k) (wanted_for k (c # cs))"
      using False by (auto simp: wanted_for_def st1_def)
    then show ?thesis by (simp only: e Cons.IH)
  qed
qed (simp add: wanted_for_def)

lemma Match_row: "snd (snd (Match now scs ps st)) k = foldl refreshed (st k) (wanted_for k (candidates now scs ps))"
proof -
  have "candidates now scs [] = []" "candidates now [] ps = []" by (induction scs) (simp_all add: candidates_def)
  then show ?thesis by (auto simp: Match_def upsert_all_row) (simp_all add: wanted_for_def)
qed

lemma refreshed_kept: "rc_Status x \<noteq> RecScheduled \<Longrightarrow> foldl refreshed (Some x) rs = Some x"
  by (induction rs) (auto simp: refreshed_def)

text \<open>A refresh keeps who and where a row is for, so only the last refresh of a scheduled row shows.\<close>

definition base :: "Recording \<Rightarrow> string \<times> string \<times> string \<times> RecordingStatus" where
  "base x = (rc_UserID x, rc_ChannelID x, rc_ProgramID x, rc_Status x)"

lemma refreshed_base: "\<exists>y. foldl refreshed (Some x) rs = Some y \<and> base y = base x"
proof (induction rs arbitrary: x)
  case (Cons r rs)
  obtain z where z: "refreshed (Some x) r = Some z" "base z = base x" by (auto simp: refreshed_def base_def)
  then show ?case using Cons [of z] by simp
qed simp

lemma refreshed_cong: "base x = base y \<Longrightarrow> rc_Status x = RecScheduled \<Longrightarrow> refreshed (Some x) r = refreshed (Some y) r"
  by (auto simp: refreshed_def base_def)

lemma last_shows:
  assumes "base x = base y" "rc_Status x = RecScheduled" "rs \<noteq> []"
  shows "foldl refreshed (Some x) rs = foldl refreshed (Some y) rs"
proof -
  obtain qs r where rs: "rs = qs @ [r]" using assms(3) by (cases rs rule: rev_cases) auto
  obtain a b where "foldl refreshed (Some x) qs = Some a" "base a = base x" "foldl refreshed (Some y) qs = Some b" "base b = base y"
    using refreshed_base by metis
  moreover have "rc_Status a = RecScheduled" using calculation(2) assms(2) by (simp add: base_def)
  ultimately show ?thesis using refreshed_cong [of a b r] assms(1) rs by simp
qed

lemma refreshed_idem_some: "foldl refreshed (foldl refreshed (Some x) rs) rs = foldl refreshed (Some x) rs"
proof (cases "rc_Status x = RecScheduled \<and> rs \<noteq> []")
  case True
  obtain y where y: "foldl refreshed (Some x) rs = Some y" "base y = base x" using refreshed_base by metis
  then have "rc_Status y = RecScheduled" using True by (simp add: base_def)
  then show ?thesis using last_shows [of y x rs] y True by simp
next
  case False
  then show ?thesis using refreshed_kept [of x rs] by auto
qed

lemma refreshed_idem: "foldl refreshed (foldl refreshed x rs) rs = foldl refreshed x rs"
proof (cases x)
  case None
  show ?thesis
  proof (cases rs)
    case (Cons r qs)
    define z where "z = r\<lparr>rc_Status := RecScheduled\<rparr>"
    have z: "foldl refreshed x rs = foldl refreshed (Some z) qs" using None Cons by (simp add: refreshed_def z_def)
    obtain y where y: "foldl refreshed (Some z) qs = Some y" "base y = base z" using refreshed_base by metis
    then have s: "rc_Status y = RecScheduled" by (simp add: base_def z_def)
    obtain w where w: "refreshed (Some y) r = Some w" "base w = base z" using y(2) by (auto simp: refreshed_def base_def)
    show ?thesis
    proof (cases "qs = []")
      case True
      then show ?thesis using None Cons by (simp add: refreshed_def)
    next
      case False
      have "foldl refreshed (Some w) qs = foldl refreshed (Some z) qs"
        using last_shows [of w z qs] w(2) False by (simp add: base_def z_def)
      then show ?thesis using z y w Cons by simp
    qed
  qed (simp add: None)
qed (simp add: refreshed_idem_some)

lemma wanted_for_iff: "r \<in> set (wanted_for k (candidates now scs ps)) \<longleftrightarrow>
   (\<exists>sc \<in> set scs. \<exists>p \<in> set ps. matches now sc p \<and> r = recording_of (sc, p) \<and> \<not> too_long r \<and> rec_key r = k)"
  by (auto simp: wanted_for_def candidates_def)

lemma refreshed_times:
  assumes "foldl refreshed x rs = Some y" "foldl refreshed x rs \<noteq> x"
  shows "\<exists>r \<in> set rs. rc_StartsAt y = rc_StartsAt r \<and> rc_EndsAt y = rc_EndsAt r \<and> rc_ScheduleID y = rc_ScheduleID r \<and> rc_Status y = RecScheduled"
proof -
  obtain qs r where rs: "rs = qs @ [r]" using assms(2) by (cases rs rule: rev_cases) auto
  have "refreshed (foldl refreshed x qs) r = Some y" using assms(1) rs by simp
  moreover have "\<not> (\<exists>z. foldl refreshed x qs = Some z \<and> rc_Status z \<noteq> RecScheduled)"
  proof
    assume "\<exists>z. foldl refreshed x qs = Some z \<and> rc_Status z \<noteq> RecScheduled"
    then obtain z where z: "foldl refreshed x qs = Some z" "rc_Status z \<noteq> RecScheduled" by blast
    have "x = Some z"
    proof (cases x)
      case None
      show ?thesis
      proof (cases qs)
        case (Cons q qs')
        obtain y' where "foldl refreshed (Some (q\<lparr>rc_Status := RecScheduled\<rparr>)) qs' = Some y'" "base y' = base (q\<lparr>rc_Status := RecScheduled\<rparr>)"
          using refreshed_base by metis
        then show ?thesis using z None Cons by (simp add: refreshed_def base_def)
      qed (use z None in simp)
    next
      case (Some x0)
      then show ?thesis using z refreshed_base [of x0 qs] refreshed_kept [of x0 qs] by (auto simp: base_def)
    qed
    then show False using assms z refreshed_kept [of z rs] by simp
  qed
  ultimately show ?thesis using rs by (auto simp: refreshed_def split: option.splits)
qed

lemma refreshed_some: "rs \<noteq> [] \<Longrightarrow> foldl refreshed x rs \<noteq> None"
  by (cases rs rule: rev_cases) (auto simp: refreshed_def split: option.splits)

text \<open>
  C38 (invariant).  A match pass leaves every recording that is not merely scheduled alone; whatever it
  adds or moves belongs to a schedule that matches the programme, covers the whole programme and lasts at
  most twelve hours; no matching programme that fits is left out; and running it again changes nothing.
\<close>

theorem Match_recordings:
  "let st' = snd (snd (Match now scs ps st)) in
     (\<forall>k r. st k = Some r \<longrightarrow> rc_Status r \<noteq> RecScheduled \<longrightarrow> st' k = Some r)
   \<and> (\<forall>k. st' k \<noteq> st k \<longrightarrow> (\<exists>r. st' k = Some r \<and> rc_Status r = RecScheduled \<and> rc_EndsAt r - rc_StartsAt r \<le> maxRecordingDuration \<and>
        (\<exists>sc \<in> set scs. \<exists>p \<in> set ps. matches now sc p \<and> k = (sc_UserID sc, pg_ID p) \<and> rc_ScheduleID r = Some (sc_ID sc)
           \<and> rc_StartsAt r \<le> pg_StartsAt p \<and> pg_EndsAt p \<le> rc_EndsAt r)))
   \<and> (\<forall>sc \<in> set scs. \<forall>p \<in> set ps. matches now sc p \<longrightarrow> \<not> too_long (recording_of (sc, p)) \<longrightarrow> st' (sc_UserID sc, pg_ID p) \<noteq> None)
   \<and> snd (snd (Match now scs ps st')) = st'"
proof -
  define st' where "st' = snd (snd (Match now scs ps st))"
  have row: "st' k = foldl refreshed (st k) (wanted_for k (candidates now scs ps))" for k
    by (simp add: st'_def Match_row)
  have kept: "st' k = Some r" if "st k = Some r" "rc_Status r \<noteq> RecScheduled" for k r
    using that refreshed_kept by (simp add: row)
  have changed: "\<exists>r. st' k = Some r \<and> rc_Status r = RecScheduled \<and> rc_EndsAt r - rc_StartsAt r \<le> maxRecordingDuration \<and>
        (\<exists>sc \<in> set scs. \<exists>p \<in> set ps. matches now sc p \<and> k = (sc_UserID sc, pg_ID p) \<and> rc_ScheduleID r = Some (sc_ID sc)
           \<and> rc_StartsAt r \<le> pg_StartsAt p \<and> pg_EndsAt p \<le> rc_EndsAt r)" if ch: "st' k \<noteq> st k" for k
  proof -
    have "wanted_for k (candidates now scs ps) \<noteq> []" using ch row by auto
    then obtain y where y: "st' k = Some y" using refreshed_some row by (metis option.exhaust)
    obtain r where r: "r \<in> set (wanted_for k (candidates now scs ps))" "rc_StartsAt y = rc_StartsAt r" "rc_EndsAt y = rc_EndsAt r"
      "rc_ScheduleID y = rc_ScheduleID r" "rc_Status y = RecScheduled"
      using refreshed_times [of "st k" "wanted_for k (candidates now scs ps)" y] ch y row by auto
    then obtain sc p where c: "sc \<in> set scs" "p \<in> set ps" "matches now sc p" "r = recording_of (sc, p)" "\<not> too_long r" "rec_key r = k"
      by (auto simp: wanted_for_iff)
    have "0 \<le> clampPadding v m" if "0 \<le> m" for v m using that by (simp add: clampPadding_def Let_def)
    then have "0 \<le> clampPadding (sc_PaddingPreSec sc) maxPaddingPreSec" "0 \<le> clampPadding (sc_PaddingPostSec sc) maxPaddingPostSec"
      by (simp_all add: maxPaddingPreSec_def maxPaddingPostSec_def)
    then have "rc_StartsAt r \<le> pg_StartsAt p" "pg_EndsAt p \<le> rc_EndsAt r" "k = (sc_UserID sc, pg_ID p)" "rc_ScheduleID r = Some (sc_ID sc)"
      using c(4,6) by (auto simp: recording_of_def rec_key_def)
    then show ?thesis using y r c by (intro exI [of _ y] conjI bexI [of _ sc] bexI [of _ p]) (simp_all add: too_long_def)
  qed
  have complete: "st' (sc_UserID sc, pg_ID p) \<noteq> None"
    if "sc \<in> set scs" "p \<in> set ps" "matches now sc p" "\<not> too_long (recording_of (sc, p))" for sc p
  proof -
    have "recording_of (sc, p) \<in> set (wanted_for (sc_UserID sc, pg_ID p) (candidates now scs ps))"
      using that unfolding wanted_for_iff by (auto simp: rec_key_def recording_of_def)
    then show ?thesis unfolding row by (intro refreshed_some) auto
  qed
  have "snd (snd (Match now scs ps st')) = st'"
    by (rule ext) (simp add: Match_row row refreshed_idem)
  then show ?thesis using kept changed complete unfolding Let_def st'_def [symmetric] by blast
qed

theorem Match_recordings_witness:
  "let sc = \<lparr>sc_ID = ''s'', sc_UserID = ''u'', sc_Type = ScheduleTypeOnce, sc_ProgramID = Some ''p'', sc_ChannelID = None, sc_TitleMatch = None,
             sc_NewOnly = False, sc_TimeStart = None, sc_TimeEnd = None, sc_PaddingPreSec = 60, sc_PaddingPostSec = 180, sc_Priority = 50,
             sc_RetentionDays = None, sc_Enabled = True\<rparr>;
       p = \<lparr>pg_ID = ''p'', pg_ChannelID = ''c'', pg_Title = ''News'', pg_Subtitle = None, pg_SeasonNum = None, pg_EpisodeNum = None,
            pg_OriginalAirDate = None, pg_StartsAt = 3600000, pg_EndsAt = 7200000\<rparr>
   in snd (snd (Match 0 [sc] [p] (\<lambda>_. None))) (''u'', ''p'') \<noteq> None"
proof -
  let ?sc = "\<lparr>sc_ID = ''s'', sc_UserID = ''u'', sc_Type = ScheduleTypeOnce, sc_ProgramID = Some ''p'', sc_ChannelID = None, sc_TitleMatch = None,
             sc_NewOnly = False, sc_TimeStart = None, sc_TimeEnd = None, sc_PaddingPreSec = 60, sc_PaddingPostSec = 180, sc_Priority = 50,
             sc_RetentionDays = None, sc_Enabled = True\<rparr>"
  let ?p = "\<lparr>pg_ID = ''p'', pg_ChannelID = ''c'', pg_Title = ''News'', pg_Subtitle = None, pg_SeasonNum = None, pg_EpisodeNum = None,
            pg_OriginalAirDate = None, pg_StartsAt = 3600000, pg_EndsAt = 7200000\<rparr>"
  have "matches 0 ?sc ?p" "\<not> too_long (recording_of (?sc, ?p))" by code_simp+
  then show ?thesis using Match_recordings [of 0 "[?sc]" "[?p]" "\<lambda>_. None"] by (simp add: Let_def)
qed

text \<open>
  Two rules of one user for one programme: the refresh of the rule listed last, the one with the lower
  priority, is what stays.  A row that is recording already counts as a conflict in every pass.
\<close>

lemma Match_last_wins:
  "let sc = (\<lambda>i prio post. \<lparr>sc_ID = i, sc_UserID = ''u'', sc_Type = ScheduleTypeOnce, sc_ProgramID = Some ''p'', sc_ChannelID = None,
             sc_TitleMatch = None, sc_NewOnly = False, sc_TimeStart = None, sc_TimeEnd = None, sc_PaddingPreSec = 60, sc_PaddingPostSec = post,
             sc_Priority = prio, sc_RetentionDays = None, sc_Enabled = True\<rparr>);
       p = \<lparr>pg_ID = ''p'', pg_ChannelID = ''c'', pg_Title = ''News'', pg_Subtitle = None, pg_SeasonNum = None, pg_EpisodeNum = None,
            pg_OriginalAirDate = None, pg_StartsAt = 3600000, pg_EndsAt = 7200000\<rparr>;
       st' = snd (snd (Match 0 [sc ''high'' 90 3600, sc ''low'' 10 1] [p] (\<lambda>_. None)))
   in map_option rc_ScheduleID (st' (''u'', ''p'')) = Some (Some ''low'') \<and> map_option rc_EndsAt (st' (''u'', ''p'')) = Some 7201000
      \<and> (case st' (''u'', ''p'') of None \<Rightarrow> False | Some r \<Rightarrow>
           fst (snd (Match 0 [sc ''high'' 90 3600] [p] [(''u'', ''p'') \<mapsto> r\<lparr>rc_Status := RecRecording\<rparr>])) = 1)"
  by code_simp

text \<open>The cap: a user at the cap creates nothing more, and below it ends at most at it.\<close>

lemma CreateSchedule_cap:
  assumes "CreateSchedule live p rows = Inr rows'"
  shows "countLiveSchedules live (sc_UserID p) rows' \<le> maxSchedulesPerUser \<and> validateScheduleParams p = None"
  using assms
  by (auto simp: CreateSchedule_def checkScheduleCap_def countLiveSchedules_def split: option.splits if_splits)

lemma parseHHMM_range: "parseHHMM s = Some m \<Longrightarrow> m < 1440"
  by (auto simp: parseHHMM_def Let_def split: if_splits)

end
