(* ===== verification/Requests.thy ===== *)
theory Requests
  imports GoText
begin

text \<open>
  What the download sync concludes about a media request (\<open>internal/requests/download_state.go\<close>) from a
  Radarr or Sonarr queue, item and history (\<open>internal/arr\<close>).

  Texts are UTF-8 bytes.  Times are nanoseconds, an unknown time is \<open>None\<close>.  The detail map of a history
  event is given as its three texts the code looks up.
\<close>

datatype DState = DNone | Searching | Queued | Downloading | ImportPending | Stalled | Failed

record DownloadStatus =
  ds_State :: DState
  ds_Progress :: "rat option"
  ds_ETA :: "int option"
  ds_SizeBytes :: "int option"
  ds_Message :: string
  ds_Recovers :: bool

definition no_status :: DownloadStatus where
  "no_status = \<lparr>ds_State = DNone, ds_Progress = None, ds_ETA = None, ds_SizeBytes = None, ds_Message = '''', ds_Recovers = False\<rparr>"

section \<open>Queue rows\<close>

record StatusMessage =
  sm_Title :: string
  sm_Messages :: "string list"

record QueueEpisode =
  qe_SeasonNumber :: int
  qe_EpisodeNumber :: int

record QueueRecord =
  q_ID :: int
  q_SeasonNumber :: int
  q_Size :: rat
  q_SizeLeft :: rat
  q_TimeLeft :: string
  q_EstimatedCompletionTime :: "int option"
  q_Status :: string
  q_TrackedDownloadStatus :: string
  q_TrackedDownloadState :: string
  q_StatusMessages :: "StatusMessage list"
  q_ErrorMessage :: string
  q_DownloadID :: string
  q_Episode :: "QueueEpisode option"

definition Progress :: "QueueRecord \<Rightarrow> rat option" where
  "Progress r =
    (if q_Size r \<le> 0 then None
     else let left = (if q_SizeLeft r < 0 then 0 else q_SizeLeft r);
              p = fdiv (fsub (q_Size r) left) (q_Size r)
          in Some (if p < 0 then 0 else if 1 < p then 1 else p))"

text \<open>\<open>parseTimeSpan\<close>: \<open>hh:mm:ss\<close> or \<open>d.hh:mm:ss\<close>, in nanoseconds.\<close>

definition parse_hms :: "int \<Rightarrow> string \<Rightarrow> int option" where
  "parse_hms days s =
    (case Split s (CHR '':'') of
       [a, b, c] \<Rightarrow>
         (case (Atoi a, Atoi b, ParseFloat c) of
            (Some h, Some m, Some sec) \<Rightarrow>
              if h < 0 \<or> m < 0 \<or> sec < 0 then None
              else Some (wrap64 (wrap64 (days * 86400000000000) + wrap64 (h * 3600000000000)
                           + wrap64 (m * 60000000000) + go_trunc (fmul sec 1000000000)))
          | _ \<Rightarrow> None)
     | _ \<Rightarrow> None)"

definition parseTimeSpan :: "string \<Rightarrow> int option" where
  "parseTimeSpan str =
    (let s = TrimSpace str in
     if s = [] \<or> HasPrefix s ''-'' then None
     else let before = takeWhile (\<lambda>c. c \<noteq> CHR ''.'') s; rest = dropWhile (\<lambda>c. c \<noteq> CHR ''.'') s in
       if rest \<noteq> [] \<and> CHR '':'' \<in> set s \<and> CHR '':'' \<notin> set before
       then (case Atoi before of None \<Rightarrow> None | Some d \<Rightarrow> parse_hms d (tl rest))
       else parse_hms 0 s)"

definition ETA :: "int \<Rightarrow> QueueRecord \<Rightarrow> int option" where
  "ETA now r = (case q_EstimatedCompletionTime r of Some t \<Rightarrow> Some t
     | None \<Rightarrow> map_option (\<lambda>d. now + d) (parseTimeSpan (q_TimeLeft r)))"

text \<open>\<open>Messages\<close>: blanks and duplicates dropped, in order.\<close>

definition add_message :: "string list \<Rightarrow> string \<Rightarrow> string list" where
  "add_message out s0 = (let s = TrimSpace s0 in if s = '''' \<or> s \<in> set out then out else out @ [s])"

definition Messages :: "QueueRecord \<Rightarrow> string list" where
  "Messages r = foldl add_message []
     (q_ErrorMessage r # concat (map (\<lambda>sm. if sm_Messages sm = [] then [sm_Title sm] else sm_Messages sm) (q_StatusMessages r)))"

definition emdash :: string where
  "emdash = [CHR 0xE2, CHR 0x80, CHR 0x94]"

definition first_message :: "string list \<Rightarrow> string \<Rightarrow> string" where
  "first_message msgs fallback = (case msgs of m # _ \<Rightarrow> m | [] \<Rightarrow> fallback)"

definition norm_word :: "string \<Rightarrow> string" where
  "norm_word s = ToLower (TrimSpace s)"

definition queueRowState :: "QueueRecord \<Rightarrow> DState \<times> string" where
  "queueRowState r =
    (let tds = norm_word (q_TrackedDownloadState r); tst = norm_word (q_TrackedDownloadStatus r);
         st = norm_word (q_Status r); msgs = Messages r; problem = (tst = ''warning'' \<or> tst = ''error'')
     in if tds = ''failed'' then (Failed, first_message msgs ''The download failed'')
        else if tds = ''failedpending'' \<or> st = ''failed''
        then (Stalled, first_message msgs (''The download failed '' @ emdash @ '' waiting for the app to handle it''))
        else if tds = ''importblocked'' then (Stalled, first_message msgs (''Import blocked '' @ emdash @ '' needs a manual import''))
        else if tds = ''ignored'' then (Stalled, first_message msgs ''The download was ignored'')
        else if tds = ''importpending'' \<or> tds = ''importing'' \<or> tds = ''imported''
        then (if problem then (Stalled, first_message msgs ''Import is waiting on a problem'') else (ImportPending, ''''))
        else if problem \<or> st = ''warning'' \<or> msgs \<noteq> []
        then (Stalled, first_message msgs ''The download client reports a problem'')
        else if st = ''downloadclientunavailable'' then (Stalled, ''The download client is unavailable'')
        else if st = ''paused'' then (Stalled, ''Paused in the download client'')
        else if st = ''queued'' then (Queued, '''')
        else if st = ''delay'' then (Queued, ''Held by a delay profile'')
        else if st = ''completed'' then (ImportPending, '''')
        else if st = ''downloading'' then (Downloading, '''')
        else case Progress r of Some p \<Rightarrow> if 0 < p then (Downloading, '''') else (Queued, '''') | None \<Rightarrow> (Queued, ''''))"

section \<open>Aggregation\<close>

fun activeStateRank :: "DState \<Rightarrow> int" where
  "activeStateRank ImportPending = 1"
| "activeStateRank Queued = 2"
| "activeStateRank Downloading = 3"
| "activeStateRank Stalled = 4"
| "activeStateRank _ = 0"

definition worseState :: "DState \<Rightarrow> DState \<Rightarrow> bool" where
  "worseState a b =
    (if a = Failed then b \<noteq> Failed else if b = Failed then False else activeStateRank b < activeStateRank a)"

definition labelled :: "string \<Rightarrow> QueueRecord \<Rightarrow> bool \<Rightarrow> string" where
  "labelled msg r withEpisode =
    (case q_Episode r of None \<Rightarrow> msg
     | Some e \<Rightarrow> if msg = '''' \<or> \<not> withEpisode then msg
         else ''S'' @ pad0 2 (qe_SeasonNumber e) @ ''E'' @ pad0 2 (qe_EpisodeNumber e) @ '': '' @ msg)"

text \<open>\<open>clampMessage\<close> counts runes: a byte that continues a UTF-8 sequence belongs to the rune before it.\<close>

definition maxDownloadMessage :: nat where
  "maxDownloadMessage = 300"

definition continues :: "char \<Rightarrow> bool" where
  "continues c \<longleftrightarrow> (let n = of_char c :: nat in 128 \<le> n \<and> n < 192)"

definition rune_count :: "string \<Rightarrow> nat" where
  "rune_count s = length (filter (\<lambda>c. \<not> continues c) s)"

fun take_runes :: "nat \<Rightarrow> string \<Rightarrow> string" where
  "take_runes n [] = []"
| "take_runes n (c # cs) =
    (if continues c then c # take_runes n cs
     else case n of 0 \<Rightarrow> [] | Suc m \<Rightarrow> c # take_runes m cs)"

definition clampMessage :: "string \<Rightarrow> string" where
  "clampMessage s0 = (let s = Join (Fields s0) '' '' in
     if rune_count s \<le> maxDownloadMessage then s
     else take_runes (maxDownloadMessage - 1) s @ [CHR 0xE2, CHR 0x80, CHR 0xA6])"

definition row_key :: "nat \<Rightarrow> QueueRecord \<Rightarrow> string" where
  "row_key i r = (if q_DownloadID r = '''' then ''row:'' @ Itoa (q_ID r) @ '':'' @ Itoa (int i) else q_DownloadID r)"

text \<open>One download: its rows, the worst of their states, that row's message.\<close>

record queueGroup =
  g_rows :: "QueueRecord list"
  g_state :: DState
  g_message :: string

definition worst_row :: "bool \<Rightarrow> DState \<times> string \<Rightarrow> QueueRecord \<Rightarrow> DState \<times> string" where
  "worst_row label acc r =
    (case queueRowState r of (st, msg) \<Rightarrow>
       if fst acc = DNone \<or> worseState st (fst acc) then (st, labelled msg r label) else acc)"

definition group_of :: "bool \<Rightarrow> QueueRecord list \<Rightarrow> queueGroup" where
  "group_of label rows = (let w = foldl (worst_row label) (DNone, '''') rows in
     \<lparr>g_rows = rows, g_state = fst w, g_message = snd w\<rparr>)"

definition key_order :: "string list \<Rightarrow> string list" where
  "key_order ks = foldl (\<lambda>acc k. if k \<in> set acc then acc else acc @ [k]) [] ks"

definition keyed_rows :: "QueueRecord list \<Rightarrow> (string \<times> QueueRecord) list" where
  "keyed_rows rows = map (\<lambda>(i, r). (row_key i r, r)) (enumerate 0 rows)"

definition queue_groups :: "bool \<Rightarrow> QueueRecord list \<Rightarrow> queueGroup list" where
  "queue_groups show rows =
    (let keyed = keyed_rows rows;
         order = key_order (map fst keyed)
     in map (\<lambda>k. group_of (show \<and> 1 < length order) (map snd (filter (\<lambda>x. fst x = k) keyed))) order)"

text \<open>The totals over the groups that count: size and downloaded bytes, message, latest ETA.\<close>

record totals =
  t_size :: rat
  t_done :: rat
  t_message :: string
  t_eta :: "int option"

definition add_group :: "int \<Rightarrow> DState \<Rightarrow> totals \<Rightarrow> queueGroup \<Rightarrow> totals" where
  "add_group now st t g =
    (let r = hd (g_rows g);
         t1 = (if g_state g = st \<and> t_message t = '''' then t\<lparr>t_message := g_message g\<rparr> else t);
         s = q_Size r;
         left = (if q_SizeLeft r < 0 then 0 else q_SizeLeft r);
         left = (if s < left then s else left);
         t2 = (if 0 < s then t1\<lparr>t_size := fadd (t_size t1) s, t_done := fadd (t_done t1) (fsub s left)\<rparr> else t1)
     in if st \<noteq> Failed
        then (case ETA now r of None \<Rightarrow> t2
              | Some e \<Rightarrow> if (case t_eta t2 of None \<Rightarrow> True | Some x \<Rightarrow> x < e) then t2\<lparr>t_eta := Some e\<rparr> else t2)
        else t2)"

definition aggregate_state :: "queueGroup list \<Rightarrow> DState" where
  "aggregate_state active =
    (if active = [] then Failed
     else foldl (\<lambda>st g. if activeStateRank st < activeStateRank (g_state g) then g_state g else st) DNone active)"

definition aggregateQueue :: "QueueRecord list \<Rightarrow> int \<Rightarrow> bool \<Rightarrow> DownloadStatus" where
  "aggregateQueue rows now show =
    (let gs = queue_groups show rows;
         failed = filter (\<lambda>g. g_state g = Failed) gs;
         active = filter (\<lambda>g. g_state g \<noteq> Failed) gs;
         st = aggregate_state active;
         t = foldl (add_group now st) \<lparr>t_size = 0, t_done = 0, t_message = '''', t_eta = None\<rparr> (if active = [] then failed else active);
         note = Itoa (int (length failed)) @ '' of '' @ Itoa (int (length gs)) @ '' downloads failed'';
         msg = (if failed \<noteq> [] \<and> active \<noteq> [] then (if t_message t = '''' then note else t_message t @ '' ('' @ note @ '')'') else t_message t)
     in \<lparr>ds_State = st, ds_Progress = (if 0 < t_size t then Some (fdiv (t_done t) (t_size t)) else None), ds_ETA = t_eta t,
         ds_SizeBytes = (if 0 < t_size t then Some (go_trunc (t_size t)) else None), ds_Message = clampMessage msg,
         ds_Recovers = (active \<noteq> [])\<rparr>)"

section \<open>History and idle requests\<close>

datatype HistoryEvent = EventGrabbed | EventDownloadFailed | EventDownloadFolderImported | EventMovieFolderImported
  | EventSeriesFolderImported | EventDownloadIgnored | OtherEvent string

record HistoryRecord =
  h_ID :: int
  h_EventType :: HistoryEvent
  h_Date :: int
  h_DownloadID :: string
  h_Details :: "string option list"

definition IsImport :: "HistoryEvent \<Rightarrow> bool" where
  "IsImport e \<longleftrightarrow> e \<in> {EventDownloadFolderImported, EventMovieFolderImported, EventSeriesFolderImported}"

text \<open>\<open>Message\<close>: the first non-blank of the details under \<open>message\<close>, \<open>reason\<close> and \<open>statusMessages\<close>.\<close>

definition history_message :: "HistoryRecord \<Rightarrow> string" where
  "history_message h = (case filter (\<lambda>s. s \<noteq> '''') (map (\<lambda>d. case d of Some s \<Rightarrow> TrimSpace s | None \<Rightarrow> '''') (h_Details h)) of
     m # _ \<Rightarrow> m | [] \<Rightarrow> '''')"

definition newer :: "HistoryRecord \<Rightarrow> HistoryRecord \<Rightarrow> bool" where
  "newer a b \<longleftrightarrow> (if h_Date a \<noteq> h_Date b then h_Date b < h_Date a else h_ID b < h_ID a)"

definition download_event :: "HistoryRecord \<Rightarrow> bool" where
  "download_event h \<longleftrightarrow> h_EventType h = EventGrabbed \<or> h_EventType h = EventDownloadFailed \<or> IsImport (h_EventType h)"

text \<open>The head of a stable sort is the first row no other row comes before.\<close>

definition latestDownloadEvent :: "HistoryRecord list \<Rightarrow> HistoryRecord option" where
  "latestDownloadEvent hist = (let rows = filter download_event hist in
     find (\<lambda>h. list_all (\<lambda>x. \<not> newer x h) rows) rows)"

definition idleStatus :: "string \<Rightarrow> bool \<Rightarrow> bool \<Rightarrow> HistoryRecord list \<Rightarrow> string \<Rightarrow> DownloadStatus" where
  "idleStatus app monitored hasFiles hist waiting =
    (if hasFiles then no_status\<lparr>ds_State := ImportPending, ds_Progress := Some 1,
        ds_Message := ''Downloaded '' @ emdash @ '' waiting for the library scan'', ds_Recovers := True\<rparr>
     else let latest = latestDownloadEvent hist in
       case latest of
         Some h \<Rightarrow> if h_EventType h = EventDownloadFailed
           then (let m = history_message h in no_status\<lparr>ds_State := Failed,
                   ds_Message := clampMessage (if m = '''' then ''The download failed and '' @ app @ '' found nothing else to grab'' else m)\<rparr>)
           else if \<not> monitored then no_status\<lparr>ds_State := Stalled, ds_Message := ''Not monitored in '' @ app, ds_Recovers := True\<rparr>
           else no_status\<lparr>ds_State := Searching, ds_Message := waiting, ds_Recovers := True\<rparr>
       | None \<Rightarrow> if \<not> monitored then no_status\<lparr>ds_State := Stalled, ds_Message := ''Not monitored in '' @ app\<rparr>
           else no_status\<lparr>ds_State := Searching, ds_Message := waiting\<rparr>)"

record failedQueue =
  fq_st :: DownloadStatus
  fq_downloads :: "string set"

definition newFailedQueue :: "DownloadStatus \<Rightarrow> QueueRecord list \<Rightarrow> failedQueue" where
  "newFailedQueue st rows = \<lparr>fq_st = st, fq_downloads = set (filter (\<lambda>d. d \<noteq> '''') (map q_DownloadID rows))\<rparr>"

definition judge :: "failedQueue option \<Rightarrow> DownloadStatus \<Rightarrow> HistoryRecord list \<Rightarrow> DownloadStatus" where
  "judge f idle hist =
    (case f of None \<Rightarrow> idle
     | Some q \<Rightarrow> if ds_State idle = ImportPending then idle
         else case latestDownloadEvent hist of
           None \<Rightarrow> fq_st q
         | Some h \<Rightarrow> if IsImport (h_EventType h) then idle
             else if h_EventType h = EventGrabbed \<and> h_DownloadID h \<noteq> '''' \<and> h_DownloadID h \<notin> fq_downloads q then idle
             else fq_st q)"

section \<open>Movies, series and seasons\<close>

record Movie =
  mv_Monitored :: bool
  mv_HasFile :: bool
  mv_Status :: string
  mv_IsAvailable :: bool

record Season =
  sn_Number :: int
  sn_Monitored :: bool
  sn_Statistics :: "(int \<times> int) option"

record Series =
  sr_Monitored :: bool
  sr_Statistics :: "(int \<times> int) option"
  sr_Seasons :: "Season list"

definition movieWaiting :: "Movie \<Rightarrow> string" where
  "movieWaiting m =
    (if mv_IsAvailable m then ''''
     else let s = ToLower (mv_Status m) in
       if s = ''tba'' \<or> s = ''announced'' then ''Waiting for release (announced)''
       else if s = ''incinemas'' then ''Waiting for release (in cinemas)'' else '''')"

definition tally_note :: "string \<Rightarrow> int \<Rightarrow> int \<Rightarrow> string" where
  "tally_note none files count =
    (if count = 0 then none else if files > 0 then Itoa files @ '' of '' @ Itoa count @ '' episodes downloaded'' else '''')"

definition seriesIdleStatus :: "Series \<Rightarrow> HistoryRecord list \<Rightarrow> DownloadStatus" where
  "seriesIdleStatus s hist =
    (let (files, count) = (case sr_Statistics s of Some st \<Rightarrow> st | None \<Rightarrow> (0, 0))
     in idleStatus ''Sonarr'' (sr_Monitored s) (count > 0 \<and> files \<ge> count) hist (tally_note ''No episodes have aired yet'' files count))"

definition seasonsIdleStatus :: "Series \<Rightarrow> HistoryRecord list \<Rightarrow> int list \<Rightarrow> DownloadStatus" where
  "seasonsIdleStatus s hist seasons =
    (if seasons = [] then seriesIdleStatus s hist
     else let found = List.map_filter (\<lambda>n. find (\<lambda>se. sn_Number se = n) (sr_Seasons s)) seasons;
              monitored = (sr_Monitored s \<and> list_all sn_Monitored found);
              tallies = List.map_filter sn_Statistics found;
              files = sum_list (map fst tallies); count = sum_list (map snd tallies)
          in if found = [] then seriesIdleStatus s hist
             else idleStatus ''Sonarr'' monitored (count > 0 \<and> files \<ge> count) hist
               (tally_note ''No episodes of the requested seasons have aired yet'' files count))"

definition queueRowsForSeasons :: "QueueRecord list \<Rightarrow> int list \<Rightarrow> QueueRecord list" where
  "queueRowsForSeasons rows seasons =
    (if seasons = [] then rows
     else filter (\<lambda>r. case q_Episode r of Some e \<Rightarrow> qe_SeasonNumber e \<in> set seasons
                      | None \<Rightarrow> q_SeasonNumber r \<le> 0 \<or> q_SeasonNumber r \<in> set seasons) rows)"

text \<open>
  \<open>status\<close> once the item is known: the queue first, then the item and its history.  Its other answers, for an
  item the app no longer has (stalled) and for a failed look-up (request untouched), are not modelled.
\<close>

definition request_status :: "QueueRecord list \<Rightarrow> int \<Rightarrow> Movie + Series \<times> int list \<Rightarrow> HistoryRecord list \<Rightarrow> DownloadStatus" where
  "request_status queue now item hist =
    (let seasons = (case item of Inl _ \<Rightarrow> [] | Inr (_, ss) \<Rightarrow> ss);
         rows = queueRowsForSeasons queue seasons;
         st = aggregateQueue rows now (case item of Inl _ \<Rightarrow> False | Inr _ \<Rightarrow> True);
         fq = (if rows = [] then None else Some (newFailedQueue st rows))
     in if rows \<noteq> [] \<and> ds_State st \<noteq> Failed then st
        else case item of
          Inl m \<Rightarrow> if mv_HasFile m then idleStatus ''Radarr'' (mv_Monitored m) True [] ''''
            else judge fq (idleStatus ''Radarr'' (mv_Monitored m) False hist (movieWaiting m)) hist
        | Inr (s, ss) \<Rightarrow> if ds_State (seasonsIdleStatus s [] ss) = ImportPending then seasonsIdleStatus s [] ss
            else judge fq (seasonsIdleStatus s hist ss) hist)"

section \<open>The verdict on a queue\<close>

definition severity :: "DState \<Rightarrow> int" where
  "severity d = (if d = Failed then 5 else activeStateRank d)"

definition row_state :: "QueueRecord \<Rightarrow> DState" where
  "row_state r = fst (queueRowState r)"

lemma worse_severity: "worseState a b \<longleftrightarrow> severity b < severity a"
  by (cases a; cases b) (simp_all add: worseState_def severity_def)

lemma row_state_real: "row_state r \<in> {Queued, Downloading, ImportPending, Stalled, Failed}"
  by (simp add: row_state_def queueRowState_def Let_def split: option.splits)

lemma severity_pos: "0 < severity (row_state r)"
  using row_state_real [of r] by (auto simp: severity_def)

lemma severity_inj: "0 < severity a \<Longrightarrow> severity a = severity b \<Longrightarrow> a = b"
  by (cases a; cases b) (simp_all add: severity_def)

text \<open>The state of a group is the worst of its rows.\<close>

lemma worst_fold:
  assumes "fst acc = DNone \<longrightarrow> rows \<noteq> []"
  shows "(fst (foldl (worst_row l) acc rows) = fst acc \<and> fst acc \<noteq> DNone \<or> fst (foldl (worst_row l) acc rows) \<in> row_state ` set rows)
    \<and> (\<forall>r \<in> set rows. severity (row_state r) \<le> severity (fst (foldl (worst_row l) acc rows)))
    \<and> severity (fst acc) \<le> severity (fst (foldl (worst_row l) acc rows))"
  using assms
proof (induction rows arbitrary: acc)
  case (Cons r rows)
  define acc' where "acc' = worst_row l acc r"
  have a: "fst acc' = (if fst acc = DNone \<or> severity (fst acc) < severity (row_state r) then row_state r else fst acc)"
    by (auto simp: acc'_def worst_row_def row_state_def worse_severity split: prod.splits)
  have "fst acc' \<noteq> DNone" using a row_state_real [of r] by auto
  then have ih: "(fst (foldl (worst_row l) acc' rows) = fst acc' \<or> fst (foldl (worst_row l) acc' rows) \<in> row_state ` set rows)
    \<and> (\<forall>r \<in> set rows. severity (row_state r) \<le> severity (fst (foldl (worst_row l) acc' rows)))
    \<and> severity (fst acc') \<le> severity (fst (foldl (worst_row l) acc' rows))"
    using Cons.IH [of acc'] by auto
  moreover have "severity (row_state r) \<le> severity (fst acc')" "severity (fst acc) \<le> severity (fst acc')"
    using a severity_pos [of r] by (auto simp: severity_def)
  ultimately show ?case using a by (auto simp: acc'_def [symmetric])
qed simp

lemma group_worst:
  assumes "rows \<noteq> []"
  shows "g_state (group_of l rows) \<in> row_state ` set rows"
    and "r \<in> set rows \<Longrightarrow> severity (row_state r) \<le> severity (g_state (group_of l rows))"
  using worst_fold [of "(DNone, '''')" rows l] assms by (auto simp: group_of_def Let_def)

lemma group_failed:
  assumes "rows \<noteq> []"
  shows "g_state (group_of l rows) = Failed \<longleftrightarrow> (\<exists>r \<in> set rows. row_state r = Failed)"
proof
  assume "g_state (group_of l rows) = Failed"
  then have "Failed \<in> row_state ` set rows" using group_worst(1) [OF assms, of l] by simp
  then show "\<exists>r \<in> set rows. row_state r = Failed" by (metis imageE)
next
  assume "\<exists>r \<in> set rows. row_state r = Failed"
  then have "5 \<le> severity (g_state (group_of l rows))" using group_worst(2) [OF assms, of _ l] by (fastforce simp: severity_def)
  then show "g_state (group_of l rows) = Failed" by (cases "g_state (group_of l rows)") (simp_all add: severity_def)
qed

lemma key_order_set: "set (key_order ks) = set ks"
proof -
  have "set (foldl (\<lambda>acc k. if k \<in> set acc then acc else acc @ [k]) acc ks) = set acc \<union> set ks" for acc
    by (induction ks arbitrary: acc) auto
  then show ?thesis by (simp add: key_order_def)
qed

text \<open>The rows of one download, and the groups as the downloads' summaries.\<close>

definition download_rows :: "QueueRecord list \<Rightarrow> string \<Rightarrow> QueueRecord list" where
  "download_rows rows k = map snd (filter (\<lambda>x. fst x = k) (keyed_rows rows))"

definition downloads :: "QueueRecord list \<Rightarrow> string list" where
  "downloads rows = map fst (keyed_rows rows)"

lemma download_rows_ne: "k \<in> set (downloads rows) \<Longrightarrow> download_rows rows k \<noteq> []"
  by (auto simp: downloads_def download_rows_def filter_empty_conv)

lemma groups_set: "\<exists>l. set (queue_groups show rows) = (\<lambda>k. group_of l (download_rows rows k)) ` set (downloads rows)"
  by (auto simp: queue_groups_def Let_def key_order_set downloads_def download_rows_def)

lemma aggregate_max:
  assumes "active \<noteq> []" "\<forall>g \<in> set active. 0 < activeStateRank (g_state g)"
  shows "aggregate_state active \<in> g_state ` set active \<and> (\<forall>g \<in> set active. activeStateRank (g_state g) \<le> activeStateRank (aggregate_state active))"
proof -
  let ?f = "\<lambda>st g. if activeStateRank st < activeStateRank (g_state g) then g_state g else st"
  have "(foldl ?f st active = st \<or> foldl ?f st active \<in> g_state ` set active) \<and> activeStateRank st \<le> activeStateRank (foldl ?f st active)
    \<and> (\<forall>g \<in> set active. activeStateRank (g_state g) \<le> activeStateRank (foldl ?f st active))" for st
  proof (induction active arbitrary: st)
    case (Cons g gs)
    have le: "activeStateRank st \<le> activeStateRank (?f st g)" "activeStateRank (g_state g) \<le> activeStateRank (?f st g)" by auto
    have ih: "foldl ?f (?f st g) gs = ?f st g \<or> foldl ?f (?f st g) gs \<in> g_state ` set gs"
      "activeStateRank (?f st g) \<le> activeStateRank (foldl ?f (?f st g) gs)"
      "\<forall>g' \<in> set gs. activeStateRank (g_state g') \<le> activeStateRank (foldl ?f (?f st g) gs)"
      using Cons.IH [of "?f st g"] by blast+
    have "foldl ?f (?f st g) gs = st \<or> foldl ?f (?f st g) gs \<in> g_state ` set (g # gs)"
      using ih(1) by (cases "activeStateRank st < activeStateRank (g_state g)") auto
    then show ?case using ih(3) order_trans [OF le(1) ih(2)] order_trans [OF le(2) ih(2)] by simp
  qed simp
  note fold = this [of DNone]
  obtain g where "g \<in> set active" using assms(1) by (cases active) auto
  then have "0 < activeStateRank (foldl ?f DNone active)" using assms(2) conjunct2 [OF conjunct2 [OF fold]] by (meson less_le_trans)
  then have "foldl ?f DNone active \<noteq> DNone" by (metis activeStateRank.simps(5) less_irrefl)
  moreover have "aggregate_state active = foldl ?f DNone active" using assms(1) by (simp add: aggregate_state_def)
  ultimately show ?thesis using fold by simp
qed

lemma take_runes_count: "rune_count (take_runes n s) \<le> n"
  by (induction n s rule: take_runes.induct) (auto simp: rune_count_def split: nat.splits)

lemma clampMessage_count: "rune_count (clampMessage s) \<le> maxDownloadMessage"
proof -
  have "rune_count (take_runes (maxDownloadMessage - 1) t @ [CHR 0xE2, CHR 0x80, CHR 0xA6]) \<le> maxDownloadMessage" for t
    using take_runes_count [of "maxDownloadMessage - 1" t] by (simp add: rune_count_def continues_def maxDownloadMessage_def)
  then show ?thesis by (simp add: clampMessage_def Let_def)
qed

text \<open>
  The verdict on a request's queue: it failed only when every one of its downloads has a
  failed row; otherwise its state is one of a row of a download that has not failed, and no such row has a
  worse one.  Only such a verdict counts as recovery, and the message never exceeds its bound.
\<close>

theorem aggregateQueue_verdict:
  assumes "rows \<noteq> []"
  shows "let d = aggregateQueue rows now show;
             dead = (\<lambda>k. \<exists>r \<in> set (download_rows rows k). row_state r = Failed)
         in (ds_State d = Failed \<longleftrightarrow> (\<forall>k \<in> set (downloads rows). dead k))
          \<and> (ds_State d \<noteq> Failed \<longrightarrow>
              (\<exists>k \<in> set (downloads rows). \<not> dead k \<and> ds_State d \<in> row_state ` set (download_rows rows k))
            \<and> (\<forall>k \<in> set (downloads rows). \<not> dead k \<longrightarrow>
                 (\<forall>r \<in> set (download_rows rows k). activeStateRank (row_state r) \<le> activeStateRank (ds_State d))))
          \<and> (ds_Recovers d \<longleftrightarrow> ds_State d \<noteq> Failed)
          \<and> rune_count (ds_Message d) \<le> maxDownloadMessage"
proof -
  define d where "d = aggregateQueue rows now show"
  define dead where "dead = (\<lambda>k. \<exists>r \<in> set (download_rows rows k). row_state r = Failed)"
  obtain l where gs: "set (queue_groups show rows) = (\<lambda>k. group_of l (download_rows rows k)) ` set (downloads rows)"
    using groups_set by blast
  define active where "active = filter (\<lambda>g. g_state g \<noteq> Failed) (queue_groups show rows)"
  have st: "ds_State d = aggregate_state active" and rec: "ds_Recovers d \<longleftrightarrow> active \<noteq> []"
    and msg: "rune_count (ds_Message d) \<le> maxDownloadMessage"
    using clampMessage_count by (simp_all add: d_def aggregateQueue_def Let_def active_def)
  have act: "set active = (\<lambda>k. group_of l (download_rows rows k)) ` {k \<in> set (downloads rows). \<not> dead k}"
    unfolding active_def set_filter gs dead_def using group_failed download_rows_ne by (auto simp: image_iff)
  have real: "g_state (group_of l (download_rows rows k)) \<in> row_state ` set (download_rows rows k)"
    "r \<in> set (download_rows rows k) \<Longrightarrow> severity (row_state r) \<le> severity (g_state (group_of l (download_rows rows k)))"
    if "k \<in> set (downloads rows)" for k r
    using group_worst [OF download_rows_ne [OF that]] by auto
  have pos: "\<forall>g \<in> set active. 0 < activeStateRank (g_state g) \<and> g_state g \<noteq> Failed"
  proof
    fix g assume g: "g \<in> set active"
    then obtain k where k: "k \<in> set (downloads rows)" "g = group_of l (download_rows rows k)" using act by auto
    obtain r where "g_state g = row_state r" using real(1) [OF k(1)] k(2) by (metis imageE)
    then have "g_state g \<in> {Queued, Downloading, ImportPending, Stalled, Failed}" using row_state_real [of r] by simp
    moreover have "g_state g \<noteq> Failed" using g by (simp add: active_def)
    ultimately show "0 < activeStateRank (g_state g) \<and> g_state g \<noteq> Failed" by auto
  qed
  have fail: "ds_State d = Failed \<longleftrightarrow> active = []"
    using aggregate_max [of active] pos st by (cases "active = []") (auto simp: aggregate_state_def)
  have "ds_State d = Failed \<longleftrightarrow> (\<forall>k \<in> set (downloads rows). dead k)"
    unfolding fail using act by (metis (mono_tags, lifting) empty_iff image_eqI mem_Collect_eq set_empty2 image_is_empty Collect_empty_eq)
  moreover have "(\<exists>k \<in> set (downloads rows). \<not> dead k \<and> ds_State d \<in> row_state ` set (download_rows rows k))
     \<and> (\<forall>k \<in> set (downloads rows). \<not> dead k \<longrightarrow>
          (\<forall>r \<in> set (download_rows rows k). activeStateRank (row_state r) \<le> activeStateRank (ds_State d)))" if "ds_State d \<noteq> Failed"
  proof -
    have m: "ds_State d \<in> g_state ` set active" "\<forall>g \<in> set active. activeStateRank (g_state g) \<le> activeStateRank (ds_State d)"
      using aggregate_max [of active] pos that fail st by auto
    have "activeStateRank (row_state r) \<le> activeStateRank (ds_State d)"
      if "k \<in> set (downloads rows)" "\<not> dead k" "r \<in> set (download_rows rows k)" for k r
    proof -
      have "group_of l (download_rows rows k) \<in> set active" using act that by auto
      moreover have "severity (row_state r) \<le> severity (g_state (group_of l (download_rows rows k)))" using real(2) that by simp
      moreover have "row_state r \<noteq> Failed" using that by (auto simp: dead_def)
      ultimately show ?thesis using m(2) pos by (fastforce simp: severity_def)
    qed
    then show ?thesis using m(1) act real(1) by auto
  qed
  ultimately show ?thesis using rec fail msg unfolding Let_def d_def [symmetric] dead_def [symmetric] by blast
qed

definition sample_row :: "int \<Rightarrow> string \<Rightarrow> string \<Rightarrow> QueueRecord" where
  "sample_row i download status = \<lparr>q_ID = i, q_SeasonNumber = 1, q_Size = 10, q_SizeLeft = 5, q_TimeLeft = '''',
     q_EstimatedCompletionTime = None, q_Status = status, q_TrackedDownloadStatus = '''', q_TrackedDownloadState = '''',
     q_StatusMessages = [], q_ErrorMessage = '''', q_DownloadID = download, q_Episode = None\<rparr>"

definition sample_failed :: QueueRecord where
  "sample_failed = (sample_row 1 ''A'' ''downloading'')\<lparr>q_TrackedDownloadState := ''failed''\<rparr>"

theorem aggregateQueue_verdict_witness:
  "ds_State (aggregateQueue [sample_failed, sample_row 2 ''B'' ''downloading''] 0 True) \<noteq> Failed
   \<and> ds_State (aggregateQueue [sample_failed] 0 True) = Failed"
proof -
  have "\<not> (\<forall>k \<in> set (downloads [sample_failed, sample_row 2 ''B'' ''downloading'']).
      \<exists>r \<in> set (download_rows [sample_failed, sample_row 2 ''B'' ''downloading''] k). row_state r = Failed)"
    by code_simp
  moreover have "\<forall>k \<in> set (downloads [sample_failed]). \<exists>r \<in> set (download_rows [sample_failed] k). row_state r = Failed"
    by code_simp
  ultimately show ?thesis
    using aggregateQueue_verdict [of "[sample_failed, sample_row 2 ''B'' ''downloading'']" 0 True]
      aggregateQueue_verdict [of "[sample_failed]" 0 True] by (simp add: Let_def)
qed

end
