(* ===== verification/Filters.thy ===== *)
theory Filters
  imports Dispatch FFSafe
begin

text \<open>
  The video filters of a re-encode (\<open>internal/transcode/ffmpeg.go\<close>): the inputs of an encode
  (\<open>BuildArgs\<close>), what a subtitle burn-in and a Dolby Vision profile 5 source switch off, the filter
  chain and the burn-in graph, and where each filter expects its frames.

  A filter is a constructor, \<open>filter_text\<close> is the text the code prints for it.  Seconds and ratios
  are \<open>float64\<close> values.
\<close>

section \<open>The inputs of an encode\<close>

record EncoderOpts =
  NVENCPreset :: string
  NVENCTune :: string
  NVENCRC :: string
  MaxrateRatio :: rat

text \<open>The fields nothing reads (subtitle extraction is driven by its index list alone) are left out.\<close>

record BuildArgs =
  a_InputPath :: string
  a_ConcatParts :: "ConcatPart list"
  a_StartOffset :: rat
  a_Encoder :: Encoder
  a_Width :: int
  a_Height :: int
  a_BitrateKbps :: int
  a_NeedsToneMap :: bool
  a_CudaTonemap :: bool
  a_HasZscale :: bool
  a_ForceFMP4 :: bool
  a_TSSegments :: bool
  a_AudioRate :: rat
  a_OutputTSOffsetSec :: rat
  a_AudioOnly :: bool
  a_NoAudio :: bool
  a_Force8Bit :: bool
  a_OutputLimits :: OutputLimits
  a_HasLibfdkAAC :: bool
  a_HasLibplacebo :: bool
  a_IsVAAPI :: bool
  a_IsHEVC :: bool
  a_QSVDecode :: bool
  a_QSVVRAM :: bool
  a_VAAPIVRAM :: bool
  a_VAAPITonemap :: bool
  a_CudaHevcDecode :: bool
  a_CudaVRAM :: bool
  a_CudaHDRTonemap :: bool
  a_IsAV1 :: bool
  a_IsH264 :: bool
  a_AudioCodec :: string
  a_AudioChannels :: int
  a_AudioBitrateKbps :: int
  a_AudioStreamIndex :: int
  a_AudioPassthrough :: bool
  a_DolbyVision :: DVMode
  a_DVProfileKey :: string
  a_DVReshape :: bool
  a_HEVCParamSetsInBand :: bool
  a_BurnSubtitle :: "SubtitleBurn option"
  a_SubtitleStreams :: "int list"
  a_EncoderOpts :: EncoderOpts
  a_ReadRate :: rat
  a_ReadRateInitialBurst :: int
  a_ReadrateCatchup :: rat
  a_SessionDir :: string
  a_SegmentPrefix :: string
  a_StartNumber :: int
  a_PlaylistName :: string

definition dvCopy :: "BuildArgs \<Rightarrow> bool" where
  "dvCopy a \<longleftrightarrow> a_DolbyVision a \<noteq> DVNone \<and> IsVideoCopy (a_Encoder a) \<and> \<not> a_AudioOnly a"

definition burnInArgs :: "BuildArgs \<Rightarrow> BuildArgs" where
  "burnInArgs a =
    (if a_BurnSubtitle a = None then a
     else if IsVideoCopy (a_Encoder a) \<or> a_AudioOnly a then a\<lparr>a_BurnSubtitle := None\<rparr>
     else a\<lparr>a_CudaVRAM := False, a_QSVVRAM := False, a_VAAPIVRAM := False,
            a_VAAPITonemap := False, a_CudaHDRTonemap := False\<rparr>)"

definition dvReshapeArgs :: "BuildArgs \<Rightarrow> bool \<Rightarrow> BuildArgs" where
  "dvReshapeArgs a videoCopy =
    (if \<not> a_DVReshape a \<or> videoCopy then a\<lparr>a_DVReshape := False\<rparr>
     else a\<lparr>a_CudaHevcDecode := False, a_CudaVRAM := False, a_CudaHDRTonemap := False,
            a_QSVDecode := False, a_QSVVRAM := False, a_VAAPIVRAM := False, a_VAAPITonemap := False\<rparr>)"

section \<open>The chain\<close>

datatype vfilter =
    Format string
  | Hwupload
  | HwuploadCuda
  | Hwdownload
  | ToneMapChain
  | Scale int int
  | Pad int int
  | ScaleCuda "(int \<times> int) option" "string option"
  | TonemapCuda
  | Libplacebo "(int \<times> int) option"
  | ScaleVaapi int int "string option"
  | TonemapVaapi
  | VppQsv int int

definition wh :: "int \<Rightarrow> int \<Rightarrow> string" where
  "wh w h = ''w='' @ Itoa w @ '':h='' @ Itoa h"

definition opt_format :: "string option \<Rightarrow> string" where
  "opt_format f = (case f of None \<Rightarrow> [] | Some s \<Rightarrow> '':format='' @ s)"

definition toneMap :: string where
  "toneMap = Join [''zscale=t=linear:npl=100'', ''format=gbrpf32le'', ''zscale=p=bt709'',
     ''tonemap=tonemap=hable:desat=0'', ''zscale=t=bt709:m=bt709:r=tv'', ''format=yuv420p''] '',''"

definition placebo_tail :: string where
  "placebo_tail = ''tonemapping=bt.2390:colorspace=bt709:color_primaries=bt709:color_trc=bt709:range=tv:format=yuv420p''"

fun filter_text :: "vfilter \<Rightarrow> string" where
  "filter_text (Format f) = ''format='' @ f"
| "filter_text Hwupload = ''hwupload''"
| "filter_text HwuploadCuda = ''hwupload_cuda''"
| "filter_text Hwdownload = ''hwdownload''"
| "filter_text ToneMapChain = toneMap"
| "filter_text (Scale w h) = ''scale='' @ Itoa w @ '':'' @ Itoa h @ '':force_original_aspect_ratio=decrease,pad=''
     @ Itoa w @ '':'' @ Itoa h @ '':(ow-iw)/2:(oh-ih)/2''"
| "filter_text (Pad w h) = ''pad='' @ Itoa w @ '':'' @ Itoa h @ '':(ow-iw)/2:(oh-ih)/2''"
| "filter_text (ScaleCuda None f) = (case f of None \<Rightarrow> ''scale_cuda'' | Some s \<Rightarrow> ''scale_cuda=format='' @ s)"
| "filter_text (ScaleCuda (Some (w, h)) f) =
     ''scale_cuda='' @ wh w h @ '':force_original_aspect_ratio=decrease'' @ opt_format f"
| "filter_text TonemapCuda = ''tonemap_cuda=tonemap=bt2390:t=bt709:m=bt709:p=bt709:r=tv:format=nv12''"
| "filter_text (Libplacebo None) = ''libplacebo='' @ placebo_tail"
| "filter_text (Libplacebo (Some (w, h))) = ''libplacebo='' @ wh w h @ '':'' @ placebo_tail"
| "filter_text (ScaleVaapi w h f) = ''scale_vaapi='' @ wh w h @ '':force_original_aspect_ratio=decrease'' @ opt_format f"
| "filter_text TonemapVaapi = ''tonemap_vaapi=format=nv12:matrix=bt709:primaries=bt709:transfer=bt709''"
| "filter_text (VppQsv w h) = ''vpp_qsv='' @ wh w h @ '':format=nv12''"

text \<open>The conditions \<open>videoFilterChain\<close> names before it picks a chain.\<close>

definition has_box :: "BuildArgs \<Rightarrow> bool" where
  "has_box a \<longleftrightarrow> a_Width a > 0 \<and> a_Height a > 0"

definition burns :: "BuildArgs \<Rightarrow> bool" where
  "burns a \<longleftrightarrow> a_BurnSubtitle a \<noteq> None"

definition chain_isNVENC :: "Encoder \<Rightarrow> bool" where
  "chain_isNVENC e \<longleftrightarrow> e = ''h264_nvenc'' \<or> e = ''hevc_nvenc''"

definition chain_isAMF :: "Encoder \<Rightarrow> bool" where
  "chain_isAMF e \<longleftrightarrow> e = ''h264_amf'' \<or> e = ''hevc_amf'' \<or> e = ''av1_amf''"

definition chain_isQSV :: "Encoder \<Rightarrow> bool" where
  "chain_isQSV e \<longleftrightarrow> e = ''h264_qsv'' \<or> e = ''hevc_qsv'' \<or> e = ''av1_qsv''"

definition chain_isVAAPI :: "Encoder \<Rightarrow> bool" where
  "chain_isVAAPI e \<longleftrightarrow> e = ''h264_vaapi'' \<or> e = ''hevc_vaapi'' \<or> e = ''av1_vaapi''"

definition chain_useCUDADecode :: "BuildArgs \<Rightarrow> bool" where
  "chain_useCUDADecode a \<longleftrightarrow> IsNVENCEncoder (a_Encoder a) \<and> \<not> a_NeedsToneMap a \<and> \<not> burns a
     \<and> (a_IsAV1 a \<or> ((a_IsHEVC a \<or> a_IsH264 a) \<and> a_CudaVRAM a))"

definition useQSVVRAM :: "BuildArgs \<Rightarrow> bool" where
  "useQSVVRAM a \<longleftrightarrow> chain_isQSV (a_Encoder a) \<and> a_QSVVRAM a \<and> \<not> a_NeedsToneMap a"

definition useVAAPIVRAM :: "BuildArgs \<Rightarrow> bool" where
  "useVAAPIVRAM a \<longleftrightarrow> a_IsVAAPI a \<and> a_VAAPIVRAM a \<and> \<not> a_NeedsToneMap a"

definition lpTonemap :: "BuildArgs \<Rightarrow> bool" where
  "lpTonemap a \<longleftrightarrow> a_NeedsToneMap a \<and> a_HasLibplacebo a \<and> \<not> a_IsVAAPI a"

definition vaapiTonemap :: "BuildArgs \<Rightarrow> bool" where
  "vaapiTonemap a \<longleftrightarrow> a_VAAPITonemap a \<and> a_NeedsToneMap a \<and> a_IsVAAPI a \<and> chain_isVAAPI (a_Encoder a)"

definition needsSoftwareTonemap :: "BuildArgs \<Rightarrow> bool" where
  "needsSoftwareTonemap a \<longleftrightarrow> \<not> lpTonemap a \<and> \<not> vaapiTonemap a \<and> a_NeedsToneMap a \<and> a_HasZscale a
     \<and> (a_Encoder a = ''libx264'' \<or> a_Encoder a = ''libx265'' \<or> chain_isAMF (a_Encoder a)
        \<or> chain_isQSV (a_Encoder a) \<or> chain_isNVENC (a_Encoder a) \<or> a_IsVAAPI a)"

definition swTonemapScaleFirst :: "BuildArgs \<Rightarrow> bool" where
  "swTonemapScaleFirst a \<longleftrightarrow> needsSoftwareTonemap a \<and> has_box a \<and> (\<not> a_IsVAAPI a \<or> burns a) \<and> \<not> chain_useCUDADecode a"

definition usesCudaTonemap :: "BuildArgs \<Rightarrow> bool" where
  "usesCudaTonemap a \<longleftrightarrow> a_CudaTonemap a \<and> a_NeedsToneMap a \<and> \<not> a_IsVAAPI a \<and> (a_IsHEVC a \<or> a_IsH264 a)"

definition cudaHDRTonemap :: "BuildArgs \<Rightarrow> bool" where
  "cudaHDRTonemap a \<longleftrightarrow> a_CudaHDRTonemap a \<and> a_NeedsToneMap a \<and> a_HasZscale a
     \<and> \<not> usesCudaTonemap a \<and> \<not> lpTonemap a \<and> \<not> a_IsVAAPI a \<and> (a_IsHEVC a \<or> a_IsH264 a)"

definition boxed_cuda :: "BuildArgs \<Rightarrow> string option \<Rightarrow> vfilter" where
  "boxed_cuda a f = ScaleCuda (Some (a_Width a, a_Height a)) f"

text \<open>The last branch: the software tone-map, the VAAPI upload, the scaler of the frames' memory.\<close>

definition default_chain :: "BuildArgs \<Rightarrow> vfilter list" where
  "default_chain a =
     (if needsSoftwareTonemap a then [ToneMapChain] else [])
     @ (if a_IsVAAPI a \<and> \<not> useVAAPIVRAM a \<and> \<not> burns a then [Format ''nv12'', Hwupload] else [])
     @ (if has_box a
        then if useQSVVRAM a then [VppQsv (a_Width a) (a_Height a)]
          else if \<not> burns a \<and> chain_isVAAPI (a_Encoder a) then [ScaleVaapi (a_Width a) (a_Height a) (Some ''nv12'')]
          else if chain_useCUDADecode a then [boxed_cuda a (Some ''nv12'')]
          else [Scale (a_Width a) (a_Height a)]
        else [])"

definition chain_filters :: "BuildArgs \<Rightarrow> vfilter list" where
  "chain_filters a =
    (if usesCudaTonemap a then
       (if a_DVReshape a then [Format ''p010le'', HwuploadCuda] else [])
       @ (if has_box a then [boxed_cuda a None] else []) @ [TonemapCuda]
       @ (if burns a then [Hwdownload, Format ''nv12''] @ (if has_box a then [Pad (a_Width a) (a_Height a)] else []) else [])
     else if lpTonemap a then
       [Libplacebo (if has_box a then Some (a_Width a, a_Height a) else None), Hwdownload, Format ''yuv420p'']
     else if cudaHDRTonemap a then
       [if has_box a then boxed_cuda a (Some ''p010le'') else ScaleCuda None (Some ''p010le''),
        Hwdownload, Format ''p010le'', ToneMapChain]
     else if vaapiTonemap a then
       (if has_box a then [ScaleVaapi (a_Width a) (a_Height a) None] else []) @ [TonemapVaapi]
     else if swTonemapScaleFirst a then [Scale (a_Width a) (a_Height a), ToneMapChain]
     else default_chain a)"

text \<open>The tail: the 8-bit strip, and the upload that follows a burn-in's overlay.\<close>

definition h264Family :: "Encoder \<Rightarrow> bool" where
  "h264Family e \<longleftrightarrow> e = ''h264_amf'' \<or> e = ''h264_qsv'' \<or> e = ''h264_nvenc'' \<or> e = ''libx264''"

definition strips_8bit :: "BuildArgs \<Rightarrow> bool" where
  "strips_8bit a \<longleftrightarrow> \<not> needsSoftwareTonemap a \<and> \<not> lpTonemap a \<and> \<not> chain_useCUDADecode a \<and> \<not> useQSVVRAM a
     \<and> \<not> useVAAPIVRAM a \<and> \<not> usesCudaTonemap a \<and> \<not> cudaHDRTonemap a
     \<and> (h264Family (a_Encoder a) \<or> a_Force8Bit a \<and> (IsHEVCEncoder (a_Encoder a) \<or> IsAV1Encoder (a_Encoder a)))"

definition chain_tail :: "BuildArgs \<Rightarrow> vfilter list" where
  "chain_tail a = (if strips_8bit a then [Format ''yuv420p''] else [])
     @ (if burns a \<and> a_IsVAAPI a then [Format ''nv12'', Hwupload] else [])"

definition videoFilterChain :: "BuildArgs \<Rightarrow> vfilter list \<times> vfilter list" where
  "videoFilterChain a = (chain_filters a, chain_tail a)"

definition filters_text :: "vfilter list \<Rightarrow> string" where
  "filters_text fs = Join (map filter_text fs) '',''"

definition buildVideoFilter :: "BuildArgs \<Rightarrow> string" where
  "buildVideoFilter a = (case videoFilterChain a of (fs, tail) \<Rightarrow> filters_text (fs @ tail))"

section \<open>The burn-in graph\<close>

text \<open>\<open>%.nf\<close> of a float: \<open>n\<close> decimals of the exact value, half to even.\<close>

definition fmt_fixed :: "nat \<Rightarrow> rat \<Rightarrow> string" where
  "fmt_fixed n x = (let m = rnd_even (\<bar>x\<bar> * 10 ^ n) in
     (if x < 0 then ''-'' else []) @ Itoa (m div 10 ^ n) @ ''.'' @ pad0 n (m mod 10 ^ n))"

definition sub_shift :: "int \<Rightarrow> string list" where
  "sub_shift off =
    (if off = 0 then []
     else let neg = (off < 0); o1 = (if neg then wrap64 (- off) else off)
       in [''setpts=PTS'' @ (if neg then ''-'' else ''+'') @ fmt_fixed 3 (fdiv (of_int o1) 1000) @ ''/TB''])"

definition sub_scale :: "BuildArgs \<Rightarrow> string list" where
  "sub_scale a =
    (let w = Itoa (a_Width a); h = Itoa (a_Height a) in
     if \<not> has_box a then []
     else if a_NeedsToneMap a \<and> a_HasLibplacebo a \<and> \<not> a_IsVAAPI a \<and> \<not> usesCudaTonemap a
     then [''scale='' @ w @ '':'' @ h]
     else [''scale='' @ w @ '':'' @ h @ '':force_original_aspect_ratio=decrease,pad='' @ w @ '':'' @ h
           @ '':(ow-iw)/2:(oh-ih)/2:color=black@0''])"

definition or_null :: "string list \<Rightarrow> string" where
  "or_null fs = (if fs = [] then ''null'' else Join fs '','')"

definition burn_tail :: "BuildArgs \<Rightarrow> vfilter list" where
  "burn_tail a = (if chain_tail a = [] then [Format ''yuv420p''] else chain_tail a)"

definition burn_graph :: "BuildArgs \<Rightarrow> SubtitleBurn \<Rightarrow> string" where
  "burn_graph a b =
     ''[0:v:0]'' @ or_null (map filter_text (chain_filters a)) @ ''[v];[1:'' @ Itoa (sb_StreamIndex b) @ '']''
     @ or_null (sub_shift (sb_OffsetMS b) @ sub_scale a)
     @ ''[s];[v][s]overlay=eof_action=pass:repeatlast=0,'' @ filters_text (burn_tail a) @ ''[vout]''"

definition buildBurnInGraph :: "BuildArgs \<Rightarrow> string" where
  "buildBurnInGraph a = (case a_BurnSubtitle a of Some b \<Rightarrow> burn_graph a b | None \<Rightarrow> [])"

end
