(* ===== verification/BuildHLS.thy ===== *)
theory BuildHLS
  imports Filters "HOL-Library.Monad_Syntax"
begin

text \<open>
  The command line of an encode (\<open>internal/transcode/ffmpeg.go\<close>): \<open>BuildHLS\<close> and
  \<open>BuildDirectStream\<close>, cut where the code has its comment headings.  Each group of options is one
  definition and \<open>BuildHLS\<close> appends them in order.

  \<open>filepath.Join\<close> only adds the separator: the session directory is a clean absolute path and the names
  appended to it hold no separator.
\<close>

section \<open>Before the input\<close>

text \<open>The options with their defaults.\<close>

definition or_default :: "string \<Rightarrow> string \<Rightarrow> string" where
  "or_default s d = (if s = [] then d else s)"

definition encoder_opts :: "EncoderOpts \<Rightarrow> EncoderOpts" where
  "encoder_opts o1 = \<lparr>NVENCPreset = or_default (NVENCPreset o1) ''p4'', NVENCTune = or_default (NVENCTune o1) ''hq'',
     NVENCRC = or_default (NVENCRC o1) ''vbr'', MaxrateRatio = (if MaxrateRatio o1 \<le> 0 then 3 / 2 else MaxrateRatio o1)\<rparr>"

definition seek_args :: "BuildArgs \<Rightarrow> bool \<Rightarrow> string list" where
  "seek_args a videoCopy =
    (if a_StartOffset a > 0
     then [''-ss'', fmt_fixed 3 (a_StartOffset a)] @ (if videoCopy then [''-noaccurate_seek''] else []) else [])"

definition pace_args :: "BuildArgs \<Rightarrow> string list" where
  "pace_args a =
    (if a_ReadRate a > 0
     then [''-readrate'', fmt_fixed 2 (a_ReadRate a)]
       @ (if a_ReadRateInitialBurst a > 0 then [''-readrate_initial_burst'', Itoa (a_ReadRateInitialBurst a)] else [])
       @ (if a_ReadrateCatchup a > a_ReadRate a then [''-readrate_catchup'', fmt_fixed 2 (a_ReadrateCatchup a)] else [])
     else [])"

definition useCUDADecode :: "BuildArgs \<Rightarrow> bool" where
  "useCUDADecode a \<longleftrightarrow> IsNVENCEncoder (a_Encoder a) \<and> \<not> a_NeedsToneMap a \<and> \<not> burns a
     \<and> (a_IsAV1 a \<or> ((a_IsHEVC a \<or> a_IsH264 a) \<and> a_CudaVRAM a))"

definition vaapi_args :: "BuildArgs \<Rightarrow> string list" where
  "vaapi_args a =
    (if a_IsVAAPI a
     then [''-vaapi_device'', ''/dev/dri/renderD128'']
       @ (if a_VAAPIVRAM a \<and> \<not> a_NeedsToneMap a \<or> a_VAAPITonemap a
          then [''-hwaccel'', ''vaapi'', ''-hwaccel_output_format'', ''vaapi''] else [])
     else [])"

definition cuda_args :: "BuildArgs \<Rightarrow> string list" where
  "cuda_args a =
     (if a_DVReshape a \<and> usesCudaTonemap a
      then [''-init_hw_device'', ''cuda=dvcuda'', ''-filter_hw_device'', ''dvcuda''] else [])
     @ (if useCUDADecode a \<or> a_CudaHDRTonemap a \<or> a_CudaTonemap a \<and> \<not> a_DVReshape a
        then [''-hwaccel'', ''cuda'', ''-hwaccel_output_format'', ''cuda'']
          @ (if a_IsHEVC a then [''-extra_hw_frames'', ''8'', ''-c:v'', ''hevc_cuvid'']
             else if a_IsH264 a then [''-extra_hw_frames'', ''8'', ''-c:v'', ''h264_cuvid''] else [])
        else [])"

definition qsv_args :: "BuildArgs \<Rightarrow> string list" where
  "qsv_args a =
     (if a_QSVDecode a \<and> a_IsHEVC a \<and> \<not> a_QSVVRAM a \<and> \<not> useCUDADecode a \<and> \<not> a_CudaHDRTonemap a \<and> \<not> a_CudaTonemap a
      then [''-hwaccel'', ''qsv'', ''-c:v'', ''hevc_qsv''] else [])
     @ (if a_QSVVRAM a \<and> \<not> a_NeedsToneMap a \<and> \<not> useCUDADecode a \<and> \<not> a_CudaHDRTonemap a \<and> \<not> a_CudaTonemap a
        then [''-hwaccel'', ''qsv'', ''-hwaccel_output_format'', ''qsv'']
          @ (if a_IsHEVC a then [''-c:v'', ''hevc_qsv''] else if a_IsH264 a then [''-c:v'', ''h264_qsv'']
             else if a_IsAV1 a then [''-c:v'', ''av1_qsv''] else [])
        else [])"

definition nvdec_args :: "BuildArgs \<Rightarrow> string list" where
  "nvdec_args a =
    (if a_CudaHevcDecode a \<and> a_IsHEVC a \<and> \<not> useCUDADecode a \<and> \<not> a_CudaHDRTonemap a \<and> \<not> a_CudaTonemap a \<and> \<not> a_QSVDecode a
     then [''-c:v'', ''hevc_cuvid''] else [])"

definition vulkan_args :: "BuildArgs \<Rightarrow> string list" where
  "vulkan_args a = (if a_NeedsToneMap a \<and> a_HasLibplacebo a \<and> \<not> a_IsVAAPI a then [''-init_hw_device'', ''vulkan''] else [])"

definition decode_args :: "BuildArgs \<Rightarrow> bool \<Rightarrow> string list" where
  "decode_args a videoCopy =
    (if \<not> videoCopy \<and> \<not> a_AudioOnly a
     then vaapi_args a @ cuda_args a @ qsv_args a @ nvdec_args a @ vulkan_args a else [])"

section \<open>The inputs\<close>

definition isHTTPURL :: "string \<Rightarrow> bool" where
  "isHTTPURL p \<longleftrightarrow> HasPrefix p ''http://'' \<or> HasPrefix p ''https://''"

definition reconnect_args :: "string \<Rightarrow> string list" where
  "reconnect_args input =
    (if isHTTPURL input
     then [''-reconnect'', ''1'', ''-reconnect_streamed'', ''1'', ''-reconnect_delay_max'', ''2'', ''-multiple_requests'', ''1'']
     else [])"

definition inputArgs :: "string \<Rightarrow> ConcatPart list \<Rightarrow> string list" where
  "inputArgs input parts = (if parts \<noteq> [] then ConcatInputArgs parts else InputProtocolArgs input)"

definition probe_args :: "string list" where
  "probe_args = [''-analyzeduration'', ''3000000'', ''-probesize'', ''5000000'']"

definition burnInSubtitleInput :: "BuildArgs \<Rightarrow> string list" where
  "burnInSubtitleInput a =
     (if a_StartOffset a > 0 then [''-ss'', fmt_fixed 3 (a_StartOffset a)] else [])
     @ reconnect_args (a_InputPath a) @ probe_args @ inputArgs (a_InputPath a) (a_ConcatParts a) @ [''-i'', a_InputPath a]"

definition input_args :: "BuildArgs \<Rightarrow> string list" where
  "input_args a = reconnect_args (a_InputPath a) @ probe_args @ inputArgs (a_InputPath a) (a_ConcatParts a)
     @ [''-i'', a_InputPath a] @ (if burns a then burnInSubtitleInput a else [])"

section \<open>The video encoder\<close>

definition force_key :: "string list" where
  "force_key = [''-force_key_frames'', ''expr:gte(t,n_forced*4)'']"

definition main_profile :: "bool \<Rightarrow> string list" where
  "main_profile p = (if p then [''-profile:v'', ''main''] else [])"

text \<open>The switch over the encoder; \<open>SegmentDuration\<close> is 4 seconds, the key frame bound 120 frames.\<close>

definition codec_args :: "BuildArgs \<Rightarrow> EncoderOpts \<Rightarrow> string list" where
  "codec_args a opts =
    (let e = a_Encoder a; g = [''-g'', ''120'', ''-sc_threshold:v:0'', ''0''] in
     if e \<in> {''h264_nvenc'', ''hevc_nvenc'', ''av1_nvenc''} then
       [''-preset'', NVENCPreset opts, ''-tune'', NVENCTune opts, ''-rc'', NVENCRC opts] @ g @ [''-forced-idr'', ''1'']
       @ force_key @ main_profile (e = ''hevc_nvenc'')
     else if e \<in> {''h264_amf'', ''hevc_amf'', ''av1_amf''} then
       [''-quality'', ''balanced'', ''-rc'', ''cbr''] @ g @ force_key @ main_profile (e = ''hevc_amf'')
     else if e \<in> {''hevc_qsv'', ''av1_qsv''} then [''-preset'', ''medium''] @ g @ force_key @ main_profile (e = ''hevc_qsv'')
     else if e \<in> {''hevc_vaapi'', ''av1_vaapi''} then g @ force_key @ main_profile (e = ''hevc_vaapi'')
     else if e = ''libsvtav1'' then [''-preset'', ''8'', ''-g'', ''120'', ''-sc_threshold'', ''0''] @ force_key
     else force_key @ [''-sc_threshold'', ''0''] @ main_profile (e = ''libx265'' \<and> a_Force8Bit a))"

definition filter_args :: "BuildArgs \<Rightarrow> string list" where
  "filter_args a =
    (if burns a then [''-filter_complex'', buildBurnInGraph a]
     else if buildVideoFilter a \<noteq> [] then [''-vf'', buildVideoFilter a] else [])"

definition rate_args :: "BuildArgs \<Rightarrow> EncoderOpts \<Rightarrow> string list" where
  "rate_args a opts =
    (let maxrate = go_trunc (fmul (of_int (a_BitrateKbps a)) (MaxrateRatio opts)) in
     [''-c:v'', a_Encoder a, ''-b:v'', Itoa (a_BitrateKbps a) @ ''k'']
     @ (if a_Encoder a \<noteq> ''libsvtav1'' then [''-maxrate'', Itoa maxrate @ ''k'', ''-bufsize'', Itoa (maxrate * 2) @ ''k''] else []))"

definition video_args :: "BuildArgs \<Rightarrow> EncoderOpts \<Rightarrow> bool \<Rightarrow> string list" where
  "video_args a opts videoCopy =
    (if a_AudioOnly a then []
     else if videoCopy then [''-c:v'', ''copy'']
     else filter_args a @ rate_args a opts @ codec_args a opts
       @ outputLimitArgs (a_Encoder a) (a_OutputLimits a) (a_Width a) (a_Height a))"

section \<open>Streams and audio\<close>

definition map_args :: "BuildArgs \<Rightarrow> string list" where
  "map_args a =
     (if a_AudioOnly a then [] else if burns a then [''-map'', ''[vout]''] else [''-map'', ''0:v:0''])
     @ (if a_NoAudio a then []
        else if a_AudioStreamIndex a \<ge> 0 then [''-map'', ''0:a:'' @ Itoa (a_AudioStreamIndex a)] else [''-map'', ''0:a:0''])"

text \<open>
  \<open>%.4g\<close> of a positive float: four significant digits, trailing zeros dropped; the exponent form below
  \<open>0.0001\<close> and from \<open>10000\<close> on.
\<close>

fun exp10 :: "nat \<Rightarrow> int \<Rightarrow> rat \<Rightarrow> rat \<times> int" where
  "exp10 0 e x = (x, e)"
| "exp10 (Suc n) e x = (if x < 1 then exp10 n (e - 1) (x * 10) else if 10 \<le> x then exp10 n (e + 1) (x / 10) else (x, e))"

definition fmt_g4 :: "rat \<Rightarrow> string" where
  "fmt_g4 x =
    (let (m0, e0) = exp10 400 0 x;
         d0 = rnd_even (m0 * 1000);
         (d, e) = (if d0 = 10000 then (1000, e0 + 1) else (d0, e0));
         ds = TrimRight (CHR ''0'') (Itoa d);
         nd = int (length ds);
         frac = (\<lambda>i f. if f = [] then i else i @ ''.'' @ f)
     in if e < -4 \<or> e \<ge> 4
        then frac (take 1 ds) (drop 1 ds) @ ''e'' @ (if e < 0 then ''-'' else ''+'') @ pad0 2 \<bar>e\<bar>
        else if e < 0 then ''0.'' @ replicate (nat (- e - 1)) (CHR ''0'') @ ds
        else if nd \<le> e + 1 then ds @ replicate (nat (e + 1 - nd)) (CHR ''0'')
        else frac (take (nat (e + 1)) ds) (drop (nat (e + 1)) ds))"

text \<open>
  \<open>AtempoFilter\<close>: the tempo factors of the filters, one per pass of the loop, then its text.  A rate that
  is not positive never leaves the loop; halving is exact in binary.
\<close>

partial_function (option) atempo_factors :: "rat \<Rightarrow> rat list option" where
  "atempo_factors rate =
    (if rate < 1 / 2 then do { fs \<leftarrow> atempo_factors (rate / (1 / 2)); Some ((1 / 2) # fs) } else Some [rate])"

definition AtempoFilter :: "rat \<Rightarrow> string option" where
  "AtempoFilter rate = map_option (\<lambda>fs. Join (map (\<lambda>f. ''atempo='' @ fmt_g4 f) fs) '','') (atempo_factors rate)"

definition audio_filters :: "BuildArgs \<Rightarrow> string list option" where
  "audio_filters a =
    (let async = (if a_StartOffset a \<le> 0 then [''aresample=async=1''] else []) in
     if a_AudioOnly a \<and> a_AudioRate a > 0 \<and> a_AudioRate a \<noteq> 1
     then map_option (\<lambda>t. async @ [t]) (AtempoFilter (a_AudioRate a))
     else Some async)"

text \<open>The channels and bitrate of an encode, then its options.\<close>

definition encode_channels :: "BuildArgs \<Rightarrow> int" where
  "encode_channels a =
    (let c = a_AudioChannels a;
         c1 = (if IsDolbyEncode (a_AudioCodec a) then DolbyEncodeChannels (if c \<le> 0 then 6 else c) else c)
     in if c1 \<le> 0 then 2 else c1)"

definition encode_bitrate :: "BuildArgs \<Rightarrow> int" where
  "encode_bitrate a =
    (let b = a_AudioBitrateKbps a;
         b1 = (if IsDolbyEncode (a_AudioCodec a) \<and> b \<le> 0 then 640 else b)
     in if b1 \<le> 0 then AACBitrateKbps (encode_channels a) else b1)"

definition strict_args :: "BuildArgs \<Rightarrow> string list" where
  "strict_args a =
    (if \<not> a_NoAudio a \<and> a_AudioCodec a = ''copy'' \<and> a_AudioPassthrough a then [''-strict'', ''-2'']
     else if dvCopy a then [''-strict'', ''unofficial''] else [])"

definition encode_args :: "BuildArgs \<Rightarrow> string list option" where
  "encode_args a =
    (if \<not> a_NoAudio a \<and> EncodesAudio (a_AudioCodec a)
     then map_option (\<lambda>fs. [''-ac'', Itoa (encode_channels a), ''-b:a'', Itoa (encode_bitrate a) @ ''k'']
            @ (if fs = [] then [] else [''-af'', Join fs '','']) ) (audio_filters a)
     else Some [])"

definition audio_args :: "BuildArgs \<Rightarrow> string list option" where
  "audio_args a =
    map_option (\<lambda>enc.
        (if a_NoAudio a then []
         else [''-c:a'', if a_AudioCodec a = ''aac'' \<and> a_HasLibfdkAAC a then ''libfdk_aac'' else a_AudioCodec a])
        @ strict_args a @ enc) (encode_args a)"

section \<open>The HLS output\<close>

definition video_output :: "BuildArgs \<Rightarrow> VideoOutput" where
  "video_output a =
    (if a_AudioOnly a then \<lparr>vo_HEVC = False, vo_AV1 = False, ForcedFMP4 = False, TSSegments = False\<rparr>
     else ResolveVideoOutput (a_Encoder a) (a_IsHEVC a) (a_IsAV1 a)
       (a_ForceFMP4 a \<or> a_AudioPassthrough a \<and> a_AudioCodec a = ''copy'' \<or> dvCopy a) (a_TSSegments a))"

definition path_join :: "string \<Rightarrow> string \<Rightarrow> string" where
  "path_join dir name = dir @ ''/'' @ name"

definition video_tag :: "BuildArgs \<Rightarrow> string" where
  "video_tag a = (let tag = TagV (video_output a) in
     if tag = ''hvc1'' \<and> dvCopy a \<and> a_DVProfileKey a = ''5'' then ''dvh1'' else tag)"

definition bsf_list :: "BuildArgs \<Rightarrow> bool \<Rightarrow> string list" where
  "bsf_list a videoCopy =
     (if videoCopy \<and> \<not> a_AudioOnly a \<and> a_DolbyVision a = DVToP81 then [''dovi_rpu=convert_p81=1''] else [])
     @ (if videoCopy \<and> \<not> a_AudioOnly a \<and> a_HEVCParamSetsInBand a \<and> video_tag a \<in> {''hvc1'', ''dvh1''}
        then [''hevc_mp4toannexb,extract_extradata''] else [])"

definition tag_args :: "BuildArgs \<Rightarrow> bool \<Rightarrow> string list" where
  "tag_args a videoCopy =
     (if video_tag a = [] then [] else [''-tag:v'', video_tag a])
     @ (if bsf_list a videoCopy = [] then [] else [''-bsf:v'', Join (bsf_list a videoCopy) '',''])"

definition playlist_path :: "BuildArgs \<Rightarrow> string" where
  "playlist_path a = path_join (a_SessionDir a) (or_default (a_PlaylistName a) ''index.m3u8'')"

definition muxer_args :: "BuildArgs \<Rightarrow> bool \<Rightarrow> string list" where
  "muxer_args a videoCopy =
     (if a_OutputTSOffsetSec a > 0 then [''-output_ts_offset'', fmt_fixed 6 (a_OutputTSOffsetSec a)] else [])
     @ [''-max_muxing_queue_size'', ''2048'', ''-f'', ''hls'', ''-max_delay'', ''5000000'', ''-hls_time'', ''4'',
        ''-hls_list_size'', ''0'', ''-hls_segment_type'', SegType (video_output a),
        ''-hls_flags'', ''independent_segments+delete_segments+temp_file'',
        ''-hls_segment_filename'', path_join (a_SessionDir a) (a_SegmentPrefix a @ ''%05d'' @ SegExt (video_output a)),
        ''-hls_delete_threshold'', if videoCopy then ''150'' else ''30'']
     @ (if a_StartNumber a > 0 then [''-start_number'', Itoa (a_StartNumber a)] else [])
     @ (if a_StartOffset a > 0 \<and> EncodesAudio (a_AudioCodec a) then [''-avoid_negative_ts'', ''make_zero''] else [])
     @ (if NeedsFMP4 (video_output a) then [''-hls_fmp4_init_filename'', ''init.mp4''] else [])
     @ [''-hls_playlist_type'', ''event'']
     @ (if a_TSSegments a \<and> SegType (video_output a) = ''mpegts'' then [''-hls_segment_options'', ''mpegts_copyts=1''] else [])
     @ [playlist_path a]"

definition subtitle_args :: "BuildArgs \<Rightarrow> string list" where
  "subtitle_args a = concat (map (\<lambda>(i, idx). [''-map'', ''0:s:'' @ Itoa idx, ''-c:s'', ''webvtt'',
      path_join (a_SessionDir a) (''sub'' @ Itoa (int i) @ ''.vtt'')]) (enumerate 0 (a_SubtitleStreams a)))"

section \<open>The command lines\<close>

definition effective_args :: "BuildArgs \<Rightarrow> BuildArgs" where
  "effective_args a = dvReshapeArgs (burnInArgs a) (IsVideoCopy (a_Encoder a))"

definition before_output :: "BuildArgs \<Rightarrow> string list" where
  "before_output a = (let vc = IsVideoCopy (a_Encoder a) in
     [''-hide_banner'', ''-loglevel'', ''warning''] @ seek_args a vc @ pace_args a @ decode_args a vc @ input_args a)"

definition after_input :: "BuildArgs \<Rightarrow> string list \<Rightarrow> string list" where
  "after_input a audio = (let vc = IsVideoCopy (a_Encoder a) in
     video_args a (encoder_opts (a_EncoderOpts a)) vc @ map_args a @ audio @ tag_args a vc @ muxer_args a vc @ subtitle_args a)"

text \<open>\<^const>\<open>None\<close> stands for a call that does not return.\<close>

definition BuildHLS :: "BuildArgs \<Rightarrow> string list option" where
  "BuildHLS a0 = (let a = effective_args a0 in
     map_option (\<lambda>audio. before_output a @ after_input a audio) (audio_args a))"

definition BuildDirectStream :: "string \<Rightarrow> string \<Rightarrow> rat \<Rightarrow> ConcatPart list \<Rightarrow> string list" where
  "BuildDirectStream inputPath sessionDir startOffset parts =
     [''-hide_banner'', ''-loglevel'', ''warning'']
     @ (if startOffset > 0 then [''-ss'', fmt_fixed 3 startOffset, ''-noaccurate_seek''] else [])
     @ [''-readrate'', ''1.0'', ''-readrate_initial_burst'', ''60'']
     @ reconnect_args inputPath @ inputArgs inputPath parts
     @ [''-i'', inputPath, ''-c'', ''copy'', ''-f'', ''hls'', ''-hls_time'', ''4'', ''-hls_list_size'', ''0'',
        ''-hls_segment_type'', ''mpegts'', ''-hls_flags'', ''independent_segments+delete_segments+temp_file'',
        ''-hls_delete_threshold'', ''5'', ''-hls_segment_filename'', path_join sessionDir ''seg%05d.ts'',
        path_join sessionDir ''index.m3u8'']"

section \<open>The loop of the tempo filter\<close>

lemma atempo_steps: "1 / 2 \<le> rate * 2 ^ n \<Longrightarrow>
    \<exists>fs. atempo_factors rate = Some fs \<and> (\<forall>f \<in> set fs. 1 \<le> 2 * f) \<and> prod_list fs = rate"
proof (induction n arbitrary: rate)
  case 0
  then show ?case by (subst atempo_factors.simps) simp
next
  case (Suc n)
  show ?case
  proof (cases "rate < 1 / 2")
    case True
    have "1 / 2 \<le> (rate / (1 / 2)) * 2 ^ n" using Suc.prems by (simp add: mult.commute mult.left_commute)
    from Suc.IH [OF this] obtain fs where "atempo_factors (rate / (1 / 2)) = Some fs" "(\<forall>f \<in> set fs. 1 \<le> 2 * f)"
      "prod_list fs = rate / (1 / 2)" by blast
    then show ?thesis using True by (subst atempo_factors.simps) auto
  next
    case False
    then show ?thesis by (subst atempo_factors.simps) simp
  qed
qed

lemma atempo_returns:
  assumes "0 < rate"
  shows "\<exists>fs. atempo_factors rate = Some fs \<and> (\<forall>f \<in> set fs. 1 \<le> 2 * f) \<and> prod_list fs = rate"
proof -
  obtain n where "inverse rate < of_nat n" using reals_Archimedean2 by blast
  also have "of_nat n \<le> (2 :: rat) ^ n" by (metis less_imp_le less_exp of_nat_le_iff of_nat_numeral of_nat_power)
  finally have "1 < 2 ^ n * rate" using assms by (simp add: inverse_eq_divide divide_less_eq)
  then have "1 / 2 \<le> rate * 2 ^ n" by (simp add: mult.commute)
  then show ?thesis by (rule atempo_steps)
qed

lemma audio_args_return: "\<exists>xs. audio_args a = Some xs"
  using atempo_returns [of "a_AudioRate a"]
  by (auto simp: audio_args_def encode_args_def audio_filters_def Let_def AtempoFilter_def)

section \<open>What guards each input\<close>

text \<open>The inputs a command line opens, each with the allowlist right before it; \<^const>\<open>None\<close> if one has none.\<close>

fun input_guards :: "string list \<Rightarrow> (string \<times> string) list option" where
  "input_guards (k # w # i # x # r) =
    (if k = ''-protocol_whitelist'' \<and> i = ''-i'' then map_option ((#) (w, x)) (input_guards r)
     else if k = ''-i'' then None else input_guards (w # i # x # r))"
| "input_guards (k # r) = (if k = ''-i'' then None else input_guards r)"
| "input_guards [] = Some []"

definition unguarding :: "string list \<Rightarrow> bool" where
  "unguarding xs \<longleftrightarrow> ''-i'' \<notin> set xs \<and> ''-protocol_whitelist'' \<notin> set xs"

lemma unguarding_simps [simp]:
  "unguarding []" "unguarding (x # xs) \<longleftrightarrow> x \<noteq> ''-i'' \<and> x \<noteq> ''-protocol_whitelist'' \<and> unguarding xs"
  "unguarding (xs @ ys) \<longleftrightarrow> unguarding xs \<and> unguarding ys"
  by (auto simp: unguarding_def)

lemma guards_skip_one: "k \<noteq> ''-i'' \<Longrightarrow> k \<noteq> ''-protocol_whitelist'' \<Longrightarrow> input_guards (k # r) = input_guards r"
  by (cases "k # r" rule: input_guards.cases) auto

lemma guards_skip: "unguarding xs \<Longrightarrow> input_guards (xs @ ys) = input_guards ys"
  by (induction xs) (simp_all add: guards_skip_one del: input_guards.simps)

lemma Itoa_chars: "set (Itoa n) \<subseteq> insert (CHR ''-'') {c. is_digit c}"
  using dec_digits_all [of n] dec_digits_all [of "- n"] by (auto simp: Itoa_def list_all_iff)

lemma Itoa_plain_value: "Itoa n \<noteq> ''-i''" "Itoa n \<noteq> ''-protocol_whitelist''"
  using Itoa_chars [of n] by (auto simp: is_digit_def)

lemma fmt_fixed_value: "fmt_fixed n x \<noteq> ''-i''" "fmt_fixed n x \<noteq> ''-protocol_whitelist''"
proof -
  have "CHR ''.'' \<in> set (fmt_fixed n x)" by (simp add: fmt_fixed_def Let_def)
  then show "fmt_fixed n x \<noteq> ''-i''" "fmt_fixed n x \<noteq> ''-protocol_whitelist''" by auto
qed

lemma quiet_groups:
  "unguarding (seek_args a vc)" "unguarding (pace_args a)" "unguarding (reconnect_args p)" "unguarding probe_args"
  by (simp_all add: seek_args_def pace_args_def reconnect_args_def probe_args_def fmt_fixed_value Itoa_plain_value)

lemma quiet_decode: "unguarding (decode_args a vc)"
  by (simp add: decode_args_def vaapi_args_def cuda_args_def qsv_args_def nvdec_args_def vulkan_args_def)

text \<open>The allowlist the code gives one source.\<close>

definition source_guard :: "string \<Rightarrow> ConcatPart list \<Rightarrow> string" where
  "source_guard input parts =
    (if parts \<noteq> [] then (case checkConcatParts parts of Inr network \<Rightarrow> if network then networkProtocols else localProtocols
       | Inl _ \<Rightarrow> localProtocols) else Whitelist input)"

lemma inputArgs_guard: "\<exists>pre. unguarding pre \<and> inputArgs p parts = pre @ [''-protocol_whitelist'', source_guard p parts]"
proof (cases "parts = []")
  case True
  then show ?thesis by (intro exI [of _ "[]"]) (simp add: inputArgs_def source_guard_def InputProtocolArgs_def Whitelist_def)
next
  case False
  show ?thesis
  proof (cases "checkConcatParts parts")
    case (Inl e)
    then show ?thesis using False by (intro exI [of _ "[''-f'', ''concat'']"]) (simp add: inputArgs_def source_guard_def ConcatInputArgs_def)
  next
    case (Inr n)
    then show ?thesis using False
      by (intro exI [of _ "[''-f'', ''concat'', ''-safe'', ''0'']"]) (simp add: inputArgs_def source_guard_def ConcatInputArgs_def)
  qed
qed

lemma guards_input: "input_guards (inputArgs p parts @ [''-i'', x] @ r) = map_option ((#) (source_guard p parts, x)) (input_guards r)"
proof -
  obtain pre where "unguarding pre" "inputArgs p parts = pre @ [''-protocol_whitelist'', source_guard p parts]"
    using inputArgs_guard by blast
  then show ?thesis by (simp add: guards_skip)
qed

lemma source_guard_network:
  "source_guard p parts \<in> {localProtocols, networkProtocols}"
  "source_guard p parts = networkProtocols \<longleftrightarrow>
     (if parts \<noteq> [] then checkConcatParts parts = Inr True else IsHTTPURL p)"
  by (auto simp: source_guard_def Whitelist_def localProtocols_def networkProtocols_def split: sum.splits)

lemma effective_simps:
  "a_Encoder (effective_args a) = a_Encoder a" "a_AudioOnly (effective_args a) = a_AudioOnly a"
  "a_InputPath (effective_args a) = a_InputPath a" "a_ConcatParts (effective_args a) = a_ConcatParts a"
  "a_IsHEVC (effective_args a) = a_IsHEVC a" "a_IsAV1 (effective_args a) = a_IsAV1 a" "a_IsH264 (effective_args a) = a_IsH264 a"
  "a_AudioRate (effective_args a) = a_AudioRate a" "a_NeedsToneMap (effective_args a) = a_NeedsToneMap a"
  "a_CudaTonemap (effective_args a) = a_CudaTonemap a" "a_IsVAAPI (effective_args a) = a_IsVAAPI a"
  by (simp_all add: effective_args_def burnInArgs_def dvReshapeArgs_def)

text \<open>
  C17 (termination).  \<open>AtempoFilter\<close> returns exactly for positive rates, and then its filters' factors
  multiply to the rate, none below the half ffmpeg accepts.
\<close>

theorem AtempoFilter_rate:
  "case AtempoFilter rate of
     Some t \<Rightarrow> 0 < rate \<and> (\<exists>fs. t = Join (map (\<lambda>f. ''atempo='' @ fmt_g4 f) fs) '','' \<and> prod_list fs = rate \<and> (\<forall>f \<in> set fs. 1 \<le> 2 * f))
   | None \<Rightarrow> rate \<le> 0"
proof (cases "0 < rate")
  case True
  then show ?thesis using atempo_returns [OF True] by (auto simp: AtempoFilter_def)
next
  case False
  have "0 < rate" if "atempo_factors rate = Some fs" for fs
  proof (rule atempo_factors.raw_induct [where P = "\<lambda>rate fs. 0 < rate", OF _ that])
    fix f :: "rat \<Rightarrow> rat list option" and r :: rat and fs
    assume ih: "\<And>r fs. f r = Some fs \<Longrightarrow> 0 < r"
      and eq: "(if r < 1 / 2 then f (r / (1 / 2)) \<bind> (\<lambda>fs. Some ((1 / 2) # fs)) else Some [r]) = Some fs"
    show "0 < r"
    proof (cases "r < 1 / 2")
      case True
      then obtain gs where "f (r / (1 / 2)) = Some gs" using eq by (auto simp: bind_eq_Some_conv)
      then have "0 < r / (1 / 2)" by (rule ih)
      then show ?thesis by simp
    qed simp
  qed
  then have "atempo_factors rate = None" using False by (cases "atempo_factors rate") auto
  then show ?thesis using False by (simp add: AtempoFilter_def)
qed

theorem AtempoFilter_rate_witness:
  "AtempoFilter (3 / 10) = Some ''atempo=0.5,atempo=0.6''
   \<and> (\<exists>fs. ''atempo=0.5,atempo=0.6'' = Join (map (\<lambda>f. ''atempo='' @ fmt_g4 f) fs) '','' \<and> prod_list fs = 3 / 10)"
proof -
  have "atempo_factors (3 / 10) = Some [1 / 2, 3 / 5]"
    by (subst atempo_factors.simps, simp, subst atempo_factors.simps, simp)
  moreover have "fmt_g4 (1 / 2) = ''0.5''" "fmt_g4 (3 / 5) = ''0.6''" by code_simp+
  ultimately have "AtempoFilter (3 / 10) = Some ''atempo=0.5,atempo=0.6''" by (simp add: AtempoFilter_def)
  then show ?thesis using AtempoFilter_rate [of "3 / 10"] by auto
qed


end
