(* ===== verification/Frames.thy ===== *)
theory Frames
  imports BuildHLS
begin

text \<open>
  Where the frames of an encode are.  The comments of \<open>internal/transcode/ffmpeg.go\<close> demand that decode,
  filters and encoder stay in lockstep: a CPU filter never gets a hardware frame, a hardware filter never a
  frame of system memory or of another device.  Here that demand is a predicate over the command line and
  the filters, and the lemmas say which flags keep it.
\<close>

section \<open>Memory\<close>

datatype mem = SystemMem | CudaMem | VaMem | QsvMem | VulkanMem

text \<open>The memory a filter reads its frames from, and the one it leaves them in.\<close>

fun reads :: "vfilter \<Rightarrow> mem \<Rightarrow> bool" where
  "reads Hwdownload m \<longleftrightarrow> m \<noteq> SystemMem"
| "reads (ScaleCuda _ _) m \<longleftrightarrow> m = CudaMem"
| "reads TonemapCuda m \<longleftrightarrow> m = CudaMem"
| "reads (ScaleVaapi _ _ _) m \<longleftrightarrow> m = VaMem"
| "reads TonemapVaapi m \<longleftrightarrow> m = VaMem"
| "reads (VppQsv _ _) m \<longleftrightarrow> m = QsvMem"
| "reads _ m \<longleftrightarrow> m = SystemMem"

fun leaves :: "vfilter \<Rightarrow> mem \<Rightarrow> mem" where
  "leaves Hwdownload m = SystemMem"
| "leaves Hwupload m = VaMem"
| "leaves HwuploadCuda m = CudaMem"
| "leaves (Libplacebo _) m = VulkanMem"
| "leaves _ m = m"

fun flow :: "vfilter list \<Rightarrow> mem \<Rightarrow> mem option" where
  "flow [] m = Some m"
| "flow (f # fs) m = (if reads f m then flow fs (leaves f m) else None)"

lemma flow_append: "flow (fs @ gs) m = (case flow fs m of None \<Rightarrow> None | Some m' \<Rightarrow> flow gs m')"
  by (induction fs arbitrary: m) auto

text \<open>The frames an encoder takes.\<close>

definition takes :: "Encoder \<Rightarrow> mem \<Rightarrow> bool" where
  "takes e m \<longleftrightarrow>
    (if IsVAAPIEncoder e then m = VaMem
     else m = SystemMem \<or> m = CudaMem \<and> IsNVENCEncoder e \<or> m = QsvMem \<and> IsQSVEncoder e)"

text \<open>The memory the decoder is told to leave its frames in, read off the command line.\<close>

fun option_value :: "string \<Rightarrow> string list \<Rightarrow> string option" where
  "option_value k (x # v # r) = (if x = k then Some v else option_value k (v # r))"
| "option_value k _ = None"

definition mem_named :: "string option \<Rightarrow> mem" where
  "mem_named v = (if v = Some ''cuda'' then CudaMem else if v = Some ''vaapi'' then VaMem
     else if v = Some ''qsv'' then QsvMem else SystemMem)"

definition decoded :: "BuildArgs \<Rightarrow> mem" where
  "decoded a = mem_named (option_value ''-hwaccel_output_format'' (decode_args a False))"

text \<open>
  A placed encode: the chain runs from the decoder's memory to one the encoder takes; under a burn-in the
  chain ends in system memory, where the overlay paints, and the tail goes on from there.
\<close>

definition placed :: "BuildArgs \<Rightarrow> bool" where
  "placed a \<longleftrightarrow>
    (if burns a then flow (chain_filters a) (decoded a) = Some SystemMem
       \<and> (\<exists>m \<in> {SystemMem, VaMem}. flow (burn_tail a) SystemMem = Some m \<and> takes (a_Encoder a) m)
     else case flow (chain_filters a @ chain_tail a) (decoded a) of None \<Rightarrow> False | Some m \<Rightarrow> takes (a_Encoder a) m)"

section \<open>What the worker promises of the flags\<close>

definition codec_known :: "BuildArgs \<Rightarrow> bool" where
  "codec_known a \<longleftrightarrow> a_IsHEVC a \<or> a_IsH264 a"

definition flags_fit :: "BuildArgs \<Rightarrow> bool" where
  "flags_fit a \<longleftrightarrow>
     (a_IsVAAPI a \<longleftrightarrow> IsVAAPIEncoder (a_Encoder a))
     \<and> (a_QSVVRAM a \<longrightarrow> IsQSVEncoder (a_Encoder a) \<and> \<not> a_NeedsToneMap a)
     \<and> (a_VAAPIVRAM a \<longrightarrow> IsVAAPIEncoder (a_Encoder a) \<and> \<not> a_NeedsToneMap a)
     \<and> (a_VAAPITonemap a \<longrightarrow> IsVAAPIEncoder (a_Encoder a) \<and> a_NeedsToneMap a)
     \<and> (a_CudaTonemap a \<longrightarrow> IsNVENCEncoder (a_Encoder a) \<and> a_NeedsToneMap a \<and> codec_known a)
     \<and> (a_CudaHDRTonemap a \<longrightarrow> IsNVENCEncoder (a_Encoder a) \<and> a_NeedsToneMap a \<and> codec_known a
          \<and> a_HasZscale a \<and> \<not> a_HasLibplacebo a \<and> \<not> a_CudaTonemap a)
     \<and> (a_DVReshape a \<longrightarrow> a_CudaTonemap a)"

text \<open>The one combination that is not placed: the 8-bit strip behind a chain that ends on VA surfaces.\<close>

definition strips_surface :: "BuildArgs \<Rightarrow> bool" where
  "strips_surface a \<longleftrightarrow> IsVAAPIEncoder (a_Encoder a) \<and> (IsHEVCEncoder (a_Encoder a) \<or> IsAV1Encoder (a_Encoder a))
     \<and> a_Force8Bit a \<and> \<not> burns a \<and> \<not> a_VAAPIVRAM a \<and> \<not> (a_NeedsToneMap a \<and> a_HasZscale a \<and> \<not> a_VAAPITonemap a)"

lemma vendors:
  "IsNVENCEncoder e \<Longrightarrow> \<not> IsQSVEncoder e \<and> \<not> IsVAAPIEncoder e"
  "IsQSVEncoder e \<Longrightarrow> \<not> IsNVENCEncoder e \<and> \<not> IsVAAPIEncoder e"
  "IsVAAPIEncoder e \<Longrightarrow> \<not> IsNVENCEncoder e \<and> \<not> IsQSVEncoder e"
  "chain_isQSV e = IsQSVEncoder e" "chain_isVAAPI e = IsVAAPIEncoder e"
  "chain_isNVENC e \<Longrightarrow> IsNVENCEncoder e" "IsVAAPIEncoder e \<Longrightarrow> \<not> h264Family e"
  by (auto simp: IsNVENCEncoder_def IsQSVEncoder_def IsVAAPIEncoder_def chain_isQSV_def chain_isVAAPI_def chain_isNVENC_def h264Family_def)

lemma lockstep: "chain_useCUDADecode a = useCUDADecode a"
  by (simp add: chain_useCUDADecode_def useCUDADecode_def)

text \<open>The value of the option, group by group.\<close>

lemma option_value_skip: "k \<notin> set xs \<Longrightarrow> option_value k (xs @ ys) = option_value k ys"
proof (induction xs)
  case (Cons x xs)
  then show ?case by (cases "xs @ ys") (auto split: list.splits)
qed simp

lemma option_value_none: "k \<notin> set xs \<Longrightarrow> option_value k xs = None"
  using option_value_skip [of k xs "[]"] by simp

lemma no_output_format:
  "''-hwaccel_output_format'' \<notin> set (nvdec_args a)" "''-hwaccel_output_format'' \<notin> set (vulkan_args a)"
  by (simp_all add: nvdec_args_def vulkan_args_def)

lemma vaapi_group: "option_value ''-hwaccel_output_format'' (vaapi_args a @ ys) =
    (if a_IsVAAPI a \<and> (a_VAAPIVRAM a \<and> \<not> a_NeedsToneMap a \<or> a_VAAPITonemap a) then Some ''vaapi''
     else option_value ''-hwaccel_output_format'' ys)"
proof (cases "a_IsVAAPI a \<and> (a_VAAPIVRAM a \<and> \<not> a_NeedsToneMap a \<or> a_VAAPITonemap a)")
  case True
  then show ?thesis by (simp add: vaapi_args_def)
next
  case False
  then have "''-hwaccel_output_format'' \<notin> set (vaapi_args a)" by (auto simp: vaapi_args_def)
  then show ?thesis by (simp only: option_value_skip False if_False not_False_eq_True)
qed

lemma cuda_group: "option_value ''-hwaccel_output_format'' (cuda_args a @ ys) =
    (if useCUDADecode a \<or> a_CudaHDRTonemap a \<or> a_CudaTonemap a \<and> \<not> a_DVReshape a then Some ''cuda''
     else option_value ''-hwaccel_output_format'' ys)"
proof (cases "useCUDADecode a \<or> a_CudaHDRTonemap a \<or> a_CudaTonemap a \<and> \<not> a_DVReshape a")
  case True
  then show ?thesis by (simp add: cuda_args_def)
next
  case False
  then have "''-hwaccel_output_format'' \<notin> set (cuda_args a)" by (simp add: cuda_args_def)
  then show ?thesis by (simp only: option_value_skip False if_False not_False_eq_True)
qed

lemma qsv_group: "option_value ''-hwaccel_output_format'' (qsv_args a @ ys) =
    (if a_QSVVRAM a \<and> \<not> a_NeedsToneMap a \<and> \<not> useCUDADecode a \<and> \<not> a_CudaHDRTonemap a \<and> \<not> a_CudaTonemap a then Some ''qsv''
     else option_value ''-hwaccel_output_format'' ys)"
proof (cases "a_QSVVRAM a \<and> \<not> a_NeedsToneMap a \<and> \<not> useCUDADecode a \<and> \<not> a_CudaHDRTonemap a \<and> \<not> a_CudaTonemap a")
  case True
  then show ?thesis by (simp add: qsv_args_def)
next
  case False
  then have "''-hwaccel_output_format'' \<notin> set (qsv_args a)" by (auto simp: qsv_args_def)
  then show ?thesis by (simp only: option_value_skip False if_False not_False_eq_True)
qed

lemma decoded_eq:
  assumes "flags_fit a" "\<not> a_AudioOnly a"
  shows "decoded a =
    (if a_VAAPIVRAM a \<or> a_VAAPITonemap a then VaMem
     else if useCUDADecode a \<or> a_CudaHDRTonemap a \<or> a_CudaTonemap a \<and> \<not> a_DVReshape a then CudaMem
     else if a_QSVVRAM a then QsvMem else SystemMem)"
proof -
  have va: "a_IsVAAPI a \<and> (a_VAAPIVRAM a \<and> \<not> a_NeedsToneMap a \<or> a_VAAPITonemap a) \<longleftrightarrow> a_VAAPIVRAM a \<or> a_VAAPITonemap a"
    using assms(1) by (auto simp: flags_fit_def)
  have qs: "a_QSVVRAM a \<and> \<not> a_NeedsToneMap a \<and> \<not> useCUDADecode a \<and> \<not> a_CudaHDRTonemap a \<and> \<not> a_CudaTonemap a \<longleftrightarrow> a_QSVVRAM a"
    using assms(1) vendors(1) by (auto simp: flags_fit_def useCUDADecode_def)
  have "option_value ''-hwaccel_output_format'' (decode_args a False) =
    (if a_VAAPIVRAM a \<or> a_VAAPITonemap a then Some ''vaapi''
     else if useCUDADecode a \<or> a_CudaHDRTonemap a \<or> a_CudaTonemap a \<and> \<not> a_DVReshape a then Some ''cuda''
     else if a_QSVVRAM a then Some ''qsv'' else None)"
    using assms(2) option_value_none [OF no_output_format(2)]
    by (simp only: decode_args_def vaapi_group cuda_group qsv_group va qs option_value_skip [OF no_output_format(1)] not_False_eq_True simp_thms if_True)
  then show ?thesis by (simp add: decoded_def mem_named_def)
qed

section \<open>Placement\<close>

text \<open>What \<open>burnInArgs\<close> and \<open>dvReshapeArgs\<close> leave.\<close>

definition settled :: "BuildArgs \<Rightarrow> bool" where
  "settled a \<longleftrightarrow> flags_fit a \<and> \<not> a_AudioOnly a
     \<and> (burns a \<longrightarrow> \<not> a_CudaVRAM a \<and> \<not> a_QSVVRAM a \<and> \<not> a_VAAPIVRAM a \<and> \<not> a_VAAPITonemap a \<and> \<not> a_CudaHDRTonemap a)
     \<and> (a_DVReshape a \<longrightarrow> \<not> a_CudaHDRTonemap a)"

lemmas branch_defs = lockstep useCUDADecode_def useQSVVRAM_def useVAAPIVRAM_def lpTonemap_def vaapiTonemap_def
  needsSoftwareTonemap_def swTonemapScaleFirst_def usesCudaTonemap_def cudaHDRTonemap_def vendors(4,5)

lemmas chain_defs = placed_def chain_filters_def default_chain_def chain_tail_def burn_tail_def strips_8bit_def
  boxed_cuda_def flow_append

text \<open>A VAAPI encode: VA surfaces from the decoder or from an upload.\<close>

lemma placed_vaapi:
  assumes s: "settled a" and e: "IsVAAPIEncoder (a_Encoder a)"
  shows "placed a \<longleftrightarrow> \<not> strips_surface a"
proof -
  have f: "a_IsVAAPI a" "\<not> IsNVENCEncoder (a_Encoder a)" "\<not> IsQSVEncoder (a_Encoder a)" "\<not> h264Family (a_Encoder a)"
    "\<not> a_CudaTonemap a" "\<not> a_CudaHDRTonemap a" "\<not> a_QSVVRAM a"
    using s e vendors(3) [OF e] vendors(7) [OF e] by (simp_all add: settled_def flags_fit_def)
  have d: "decoded a = (if a_VAAPIVRAM a \<or> a_VAAPITonemap a then VaMem else SystemMem)"
    using s f decoded_eq [of a] by (simp add: settled_def useCUDADecode_def)
  have v: "a_VAAPIVRAM a \<Longrightarrow> \<not> a_NeedsToneMap a" "a_VAAPITonemap a \<Longrightarrow> a_NeedsToneMap a"
    "burns a \<Longrightarrow> \<not> a_VAAPIVRAM a \<and> \<not> a_VAAPITonemap a"
    using s by (auto simp: settled_def flags_fit_def)
  show ?thesis
  proof (cases "burns a")
    case True
    then show ?thesis using f e v
      by (simp add: chain_defs branch_defs d strips_surface_def takes_def)
  next
    case False
    then show ?thesis using f e v
      by (cases "a_NeedsToneMap a"; cases "a_VAAPIVRAM a"; cases "a_VAAPITonemap a"; cases "a_HasZscale a"; cases "has_box a"; cases "a_Force8Bit a")
        (simp_all add: chain_defs branch_defs d strips_surface_def takes_def)
  qed
qed

text \<open>Every other encode is placed.\<close>

lemma placed_nvenc:
  assumes s: "settled a" and e: "IsNVENCEncoder (a_Encoder a)"
  shows "placed a"
proof -
  have f: "\<not> a_IsVAAPI a" "\<not> IsVAAPIEncoder (a_Encoder a)" "\<not> IsQSVEncoder (a_Encoder a)"
    "\<not> a_VAAPIVRAM a" "\<not> a_VAAPITonemap a" "\<not> a_QSVVRAM a"
    using s e vendors(1) [OF e] by (simp_all add: settled_def flags_fit_def)
  have d: "decoded a = (if useCUDADecode a \<or> a_CudaHDRTonemap a \<or> a_CudaTonemap a \<and> \<not> a_DVReshape a then CudaMem else SystemMem)"
    using s f decoded_eq [of a] by (simp add: settled_def)
  have v: "a_CudaTonemap a \<Longrightarrow> usesCudaTonemap a" "a_CudaHDRTonemap a \<Longrightarrow> cudaHDRTonemap a \<and> \<not> usesCudaTonemap a \<and> \<not> lpTonemap a \<and> \<not> burns a"
    using s f by (auto simp: settled_def flags_fit_def codec_known_def usesCudaTonemap_def cudaHDRTonemap_def lpTonemap_def)
  consider "a_CudaTonemap a" | "a_CudaHDRTonemap a" "\<not> a_CudaTonemap a" | "\<not> a_CudaHDRTonemap a" "\<not> a_CudaTonemap a" "useCUDADecode a"
    | "\<not> a_CudaHDRTonemap a" "\<not> a_CudaTonemap a" "\<not> useCUDADecode a" by blast
  then show ?thesis
  proof cases
    case 1
    then have "a_NeedsToneMap a" "usesCudaTonemap a" using v(1) by (auto simp: usesCudaTonemap_def)
    then have "\<not> useCUDADecode a" by (simp add: useCUDADecode_def)
    moreover have "\<not> (a_CudaHDRTonemap a)" using 1 s by (auto simp: settled_def flags_fit_def)
    ultimately show ?thesis using \<open>usesCudaTonemap a\<close> 1 f e
      by (cases "burns a"; cases "has_box a"; cases "a_DVReshape a") (simp_all add: chain_defs d takes_def)
  next
    case 2
    then show ?thesis using v(2) [OF 2(1)] f e
      by (cases "has_box a") (simp_all add: chain_defs d takes_def)
  next
    case 3
    then have "\<not> usesCudaTonemap a" "\<not> a_NeedsToneMap a" "\<not> burns a" by (auto simp: usesCudaTonemap_def useCUDADecode_def)
    then show ?thesis using 3 f e
      by (cases "has_box a") (simp_all add: chain_defs d takes_def lpTonemap_def cudaHDRTonemap_def vaapiTonemap_def
          needsSoftwareTonemap_def swTonemapScaleFirst_def useQSVVRAM_def lockstep vendors(4,5))
  next
    case 4
    then have "\<not> usesCudaTonemap a" "\<not> cudaHDRTonemap a" by (auto simp: usesCudaTonemap_def cudaHDRTonemap_def)
    then show ?thesis using 4 f e
      by (cases "has_box a"; cases "burns a"; cases "needsSoftwareTonemap a"; cases "lpTonemap a")
        (simp_all add: chain_defs d takes_def vaapiTonemap_def swTonemapScaleFirst_def useQSVVRAM_def lockstep vendors(4,5))
  qed
qed

lemma placed_other:
  assumes s: "settled a" and e: "\<not> IsNVENCEncoder (a_Encoder a)" "\<not> IsVAAPIEncoder (a_Encoder a)"
  shows "placed a"
proof -
  have f: "\<not> a_IsVAAPI a" "\<not> a_VAAPIVRAM a" "\<not> a_VAAPITonemap a" "\<not> a_CudaTonemap a" "\<not> a_CudaHDRTonemap a" "\<not> useCUDADecode a"
    using s e by (auto simp: settled_def flags_fit_def useCUDADecode_def)
  then have n: "\<not> usesCudaTonemap a" "\<not> cudaHDRTonemap a" "\<not> vaapiTonemap a" "\<not> useVAAPIVRAM a"
    by (simp_all add: usesCudaTonemap_def cudaHDRTonemap_def vaapiTonemap_def useVAAPIVRAM_def)
  have d: "decoded a = (if a_QSVVRAM a then QsvMem else SystemMem)"
    using s f decoded_eq [of a] by (simp add: settled_def)
  have q: "a_QSVVRAM a \<Longrightarrow> useQSVVRAM a \<and> IsQSVEncoder (a_Encoder a) \<and> \<not> needsSoftwareTonemap a \<and> \<not> lpTonemap a \<and> \<not> burns a"
    using s by (auto simp: settled_def flags_fit_def useQSVVRAM_def vendors(4) needsSoftwareTonemap_def lpTonemap_def)
  have q': "\<not> a_QSVVRAM a \<Longrightarrow> \<not> useQSVVRAM a" by (simp add: useQSVVRAM_def)
  show ?thesis
    using f e n q q'
    by (cases "a_QSVVRAM a"; cases "has_box a"; cases "burns a"; cases "needsSoftwareTonemap a"; cases "lpTonemap a")
      (simp_all add: chain_defs d takes_def swTonemapScaleFirst_def lockstep vendors(4,5))
qed

lemma placed_iff:
  assumes "settled a"
  shows "placed a \<longleftrightarrow> \<not> strips_surface a"
  using assms placed_vaapi placed_nvenc placed_other by (cases "IsVAAPIEncoder (a_Encoder a)") (auto simp: strips_surface_def)

lemma settled_effective:
  assumes f: "flags_fit a" and v: "\<not> IsVideoCopy (a_Encoder a)" "\<not> a_AudioOnly a"
  shows "settled (effective_args a)"
proof -
  have b: "burnInArgs a = (if burns a then a\<lparr>a_CudaVRAM := False, a_QSVVRAM := False, a_VAAPIVRAM := False,
            a_VAAPITonemap := False, a_CudaHDRTonemap := False\<rparr> else a)"
    using v by (simp add: burnInArgs_def burns_def)
  show ?thesis using f v
    by (cases "burns a"; cases "a_DVReshape a")
      (simp_all add: settled_def flags_fit_def codec_known_def effective_args_def b dvReshapeArgs_def burns_def)
qed

end
