(* ===== verification/RunJob.thy ===== *)
theory RunJob
  imports Frames Worker
begin

text \<open>
  One job on a worker (\<open>runJob\<close> of \<open>internal/transcode/worker.go\<close>): the input, the encoder, the hardware
  paths it may use, and the runs of ffmpeg it makes: the first one, the retry after dead chroma, the retry
  without hardware decode, the fail-over to other encoders and the continuation of a short run.

  What ffmpeg does is the environment: the outcome of the n-th run is a parameter.  The start-up probes
  of the worker are a record; they do not change while a job starts.
\<close>

section \<open>The worker and the input\<close>

record Caps_of_worker =
  w_encoders :: "Encoder list"
  w_encoderOpts :: EncoderOpts
  w_encoderFailover :: bool
  w_hasZscale :: bool
  w_hasLibfdkAAC :: bool
  w_hasLibplacebo :: bool
  w_dvTonemapCuda :: bool
  w_qsvDecode :: bool
  w_qsvVRAM :: bool
  w_vaapiVRAM :: bool
  w_vaapiTonemap :: bool
  w_cudaHevcDecode :: bool
  w_cudaScale :: bool
  w_cudaTonemap :: bool
  w_readrateCatchup :: bool

datatype JobError = PartsUnreachable | ConcatRefused ConcatError | NoDolbyVisionTonemap

definition readrateCatchupRate :: "bool \<Rightarrow> rat" where
  "readrateCatchupRate supported = (if supported then 2 else 0)"

text \<open>
  The input: the local file, the source URL when the file is not there, or the list written for the parts
  of a stacked movie; \<open>listPath\<close> is where it is written.
\<close>

definition job_input :: "TranscodeJob \<Rightarrow> (string \<Rightarrow> bool) \<Rightarrow> string \<Rightarrow> JobError + string \<times> ConcatPart list" where
  "job_input j reachable listPath =
    (let input = (if \<not> reachable (tj_FilePath j) \<and> tj_SourceURL j \<noteq> [] then tj_SourceURL j else tj_FilePath j) in
     if length (tj_Parts j) > 1
     then (case resolvePartInputs (tj_Parts j) reachable of
             None \<Rightarrow> Inl PartsUnreachable
           | Some (entries, remote) \<Rightarrow>
               (case WriteConcatList entries of Inl e \<Rightarrow> Inl (ConcatRefused e) | Inr _ \<Rightarrow> Inr (listPath, entries)))
     else Inr (input, []))"

section \<open>The encoder\<close>

text \<open>A rotated source is encoded at its own size by libx264, at its own bitrate if the job names none.\<close>

definition rotated :: "sourceProbe \<Rightarrow> bool" where
  "rotated p \<longleftrightarrow> sp_rotationDeg p \<noteq> 0"

definition upright_job :: "TranscodeJob \<Rightarrow> sourceProbe \<Rightarrow> TranscodeJob" where
  "upright_job j p =
    (if rotated p
     then j\<lparr>tj_Width := 0, tj_Height := 0,
            tj_BitrateKbps := (if tj_BitrateKbps j \<le> 0 then (if sp_bitrateKbps p \<le> 0 then 8000 else sp_bitrateKbps p)
                               else tj_BitrateKbps j)\<rparr>
     else j)"

definition first_encoder :: "Encoder list \<Rightarrow> TranscodeJob \<Rightarrow> Encoder" where
  "first_encoder es j =
    (if tj_Encoder j \<noteq> [] then tj_Encoder j
     else let b = BestEncoder es in
       if IsHEVCEncoder b \<and> \<not> tj_PreferHEVC j \<or> IsAV1Encoder b \<and> \<not> tj_PreferAV1 j then BestH264Encoder es else b)"

definition av1_encoder :: "Encoder list \<Rightarrow> TranscodeJob \<Rightarrow> Encoder \<Rightarrow> Encoder" where
  "av1_encoder es j e =
    (if tj_PreferAV1 j \<and> \<not> IsAV1Encoder e \<and> BestAV1Encoder es \<noteq> [] then BestAV1Encoder es else e)"

text \<open>No HEVC encoder for a job that wants one: the bitrate goes back to the H.264 figure.\<close>

definition hevc_encoder :: "Encoder list \<Rightarrow> TranscodeJob \<Rightarrow> Encoder \<Rightarrow> Encoder \<times> int" where
  "hevc_encoder es j e =
    (if tj_PreferHEVC j \<and> \<not> IsHEVCEncoder e \<and> \<not> IsAV1Encoder e
     then if BestHEVCEncoder es \<noteq> [] then (BestHEVCEncoder es, tj_BitrateKbps j)
          else (e, go_trunc (fdiv (of_int (tj_BitrateKbps j)) (f64 (6 / 10))))
     else (e, tj_BitrateKbps j))"

definition pick_encoder :: "Encoder list \<Rightarrow> TranscodeJob \<Rightarrow> bool \<Rightarrow> Encoder \<times> int" where
  "pick_encoder es j rot =
    (case hevc_encoder es j (av1_encoder es j (first_encoder es j)) of (e, kbps) \<Rightarrow> (if rot then ''libx264'' else e, kbps))"

section \<open>The hardware paths\<close>

record Usable =
  u_qsvDecode :: bool
  u_qsvVRAM :: bool
  u_vaapiVRAM :: bool
  u_vaapiTonemap :: bool
  u_cudaHevc :: bool
  u_cudaVRAM :: bool
  u_cudaTonemap :: bool
  u_cudaHDR :: bool

definition known_codec :: "TranscodeJob \<Rightarrow> bool" where
  "known_codec j \<longleftrightarrow> tj_IsHEVC j \<or> tj_IsH264 j \<or> tj_IsAV1 j"

definition nv_codec :: "TranscodeJob \<Rightarrow> bool" where
  "nv_codec j \<longleftrightarrow> tj_IsHEVC j \<or> tj_IsH264 j"

definition cuda_tonemap_usable :: "Caps_of_worker \<Rightarrow> TranscodeJob \<Rightarrow> Encoder \<Rightarrow> bool" where
  "cuda_tonemap_usable w j e \<longleftrightarrow> w_cudaTonemap w \<and> nv_codec j \<and> tj_NeedsToneMap j \<and> IsNVENCEncoder e \<and> e \<noteq> ''copy''"

definition usable_paths :: "Caps_of_worker \<Rightarrow> TranscodeJob \<Rightarrow> Encoder \<Rightarrow> Usable" where
  "usable_paths w j e =
    (let burnIn = (tj_BurnSubtitle j \<noteq> None); T = tj_NeedsToneMap j; enc = (e \<noteq> ''copy'') in
     \<lparr>u_qsvDecode = w_qsvDecode w \<and> tj_IsHEVC j \<and> enc,
      u_qsvVRAM = w_qsvVRAM w \<and> \<not> T \<and> \<not> burnIn \<and> IsQSVEncoder e \<and> known_codec j \<and> enc,
      u_vaapiVRAM = w_vaapiVRAM w \<and> \<not> T \<and> \<not> burnIn \<and> IsVAAPIEncoder e \<and> known_codec j \<and> enc,
      u_vaapiTonemap = w_vaapiTonemap w \<and> T \<and> \<not> burnIn \<and> IsVAAPIEncoder e \<and> known_codec j \<and> enc,
      u_cudaHevc = w_cudaHevcDecode w \<and> tj_IsHEVC j \<and> enc,
      u_cudaVRAM = w_cudaScale w \<and> nv_codec j \<and> \<not> T \<and> \<not> burnIn \<and> enc,
      u_cudaTonemap = cuda_tonemap_usable w j e \<and> (ReshapesDolbyVision j \<longrightarrow> w_dvTonemapCuda w),
      u_cudaHDR = \<not> cuda_tonemap_usable w j e \<and> w_cudaScale w \<and> nv_codec j \<and> T \<and> w_hasZscale w \<and> \<not> w_hasLibplacebo w
        \<and> IsNVENCEncoder e \<and> enc\<rparr>)"

text \<open>What a retry switches off; \<open>qsvDecodeUsable\<close> keeps its value.\<close>

definition software_decode :: "Usable \<Rightarrow> Usable" where
  "software_decode u = u\<lparr>u_qsvVRAM := False, u_vaapiVRAM := False, u_vaapiTonemap := False, u_cudaHevc := False,
     u_cudaVRAM := False, u_cudaTonemap := False, u_cudaHDR := False\<rparr>"

definition hwPipelineActive :: "Usable \<Rightarrow> bool" where
  "hwPipelineActive u \<longleftrightarrow> u_qsvDecode u \<or> u_qsvVRAM u \<or> u_vaapiVRAM u \<or> u_vaapiTonemap u \<or> u_cudaHevc u
     \<or> u_cudaVRAM u \<or> u_cudaHDR u \<or> u_cudaTonemap u"

definition dvTonemapReady :: "Caps_of_worker \<Rightarrow> Usable \<Rightarrow> bool" where
  "dvTonemapReady w u \<longleftrightarrow> u_cudaTonemap u \<and> w_dvTonemapCuda w"

section \<open>The command lines of a job\<close>

text \<open>
  What stays the same for every run of a job: the worker, the job once upright, the input, the bitrate, the
  session directory and what the probe said of the parameter sets.
\<close>

record Plan =
  p_worker :: Caps_of_worker
  p_job :: TranscodeJob
  p_input :: "string \<times> ConcatPart list"
  p_bitrate :: int
  p_dir :: string
  p_inBand :: bool

definition buildTranscodeArgs :: "Plan \<Rightarrow> Encoder \<Rightarrow> Usable \<Rightarrow> bool \<Rightarrow> rat \<Rightarrow> int \<Rightarrow> string \<Rightarrow> BuildArgs" where
  "buildTranscodeArgs p e u useQSV startOffset startNumber playlistName =
    (let w = p_worker p; j = p_job p in
     \<lparr>a_InputPath = fst (p_input p), a_ConcatParts = snd (p_input p), a_StartOffset = startOffset, a_Encoder = e,
      a_Width = tj_Width j, a_Height = tj_Height j, a_BitrateKbps = p_bitrate p, a_NeedsToneMap = tj_NeedsToneMap j,
      a_CudaTonemap = u_cudaTonemap u, a_HasZscale = w_hasZscale w, a_ForceFMP4 = ForcesFMP4 j,
      a_TSSegments = tj_TSSegments j, a_AudioRate = tj_AudioRate j, a_OutputTSOffsetSec = tj_OutputTSOffsetSec j,
      a_AudioOnly = tj_AudioOnly j, a_NoAudio = tj_NoAudio j, a_Force8Bit = tj_Force8Bit j,
      a_OutputLimits = job_outputLimits j, a_HasLibfdkAAC = w_hasLibfdkAAC w, a_HasLibplacebo = w_hasLibplacebo w,
      a_IsVAAPI = (e = ''h264_vaapi'' \<or> e = ''hevc_vaapi'' \<or> e = ''av1_vaapi''), a_IsHEVC = tj_IsHEVC j,
      a_QSVDecode = useQSV, a_QSVVRAM = u_qsvVRAM u, a_VAAPIVRAM = u_vaapiVRAM u, a_VAAPITonemap = u_vaapiTonemap u,
      a_CudaHevcDecode = u_cudaHevc u, a_CudaVRAM = u_cudaVRAM u, a_CudaHDRTonemap = u_cudaHDR u,
      a_IsAV1 = tj_IsAV1 j, a_IsH264 = tj_IsH264 j, a_AudioCodec = tj_AudioCodec j, a_AudioChannels = tj_AudioChannels j,
      a_AudioBitrateKbps = tj_AudioBitrateKbps j, a_AudioStreamIndex = tj_AudioStreamIndex j,
      a_AudioPassthrough = tj_AudioPassthrough j, a_DolbyVision = tj_DolbyVision j, a_DVProfileKey = tj_DVProfileKey j,
      a_DVReshape = ReshapesDolbyVision j, a_HEVCParamSetsInBand = p_inBand p, a_BurnSubtitle = tj_BurnSubtitle j,
      a_SubtitleStreams = tj_SubtitleStreams j, a_EncoderOpts = w_encoderOpts w, a_ReadRate = 1,
      a_ReadRateInitialBurst = 60, a_ReadrateCatchup = readrateCatchupRate (w_readrateCatchup w), a_SessionDir = p_dir p,
      a_SegmentPrefix = ''seg'', a_StartNumber = startNumber, a_PlaylistName = playlistName\<rparr>)"

text \<open>A run of ffmpeg, and what comes of it.\<close>

datatype Launch = Hls BuildArgs | Direct string string rat "ConcatPart list"

definition launch_argv :: "Launch \<Rightarrow> string list option" where
  "launch_argv l = (case l of Hls a \<Rightarrow> BuildHLS a | Direct input dir off parts \<Rightarrow> Some (BuildDirectStream input dir off parts))"

record Outcome =
  oc_err :: bool
  oc_self :: bool
  oc_segments :: bool
  oc_green :: bool

text \<open>
  A job in progress: the runs so far, the encoder and paths of the next one, and the result of the last:
  its error, whether it ended by itself, whether it left segments, whether it was stopped for dead chroma.
\<close>

record Run =
  r_runs :: "Launch list"
  r_enc :: Encoder
  r_use :: Usable
  r_contQSV :: bool
  r_err :: bool
  r_self :: bool
  r_segments :: bool
  r_garbage :: bool
  r_retried :: bool

text \<open>
  \<open>runFFmpeg\<close>: a run with a hardware path is checked for dead chroma once it has a segment, unless it is
  a retry for just that; a green one is killed, which is no error and no exit of its own.
\<close>

definition runFFmpeg :: "(nat \<Rightarrow> Outcome) \<Rightarrow> Plan \<Rightarrow> Launch \<Rightarrow> Run \<Rightarrow> Run" where
  "runFFmpeg env p l r =
    (let oc = env (length (r_runs r));
         green = (oc_green oc \<and> \<not> r_retried r \<and> \<not> tj_AudioOnly (p_job p) \<and> hwPipelineActive (r_use r))
     in r\<lparr>r_runs := r_runs r @ [l],
          r_err := oc_err oc \<and> \<not> green, r_self := oc_self oc \<and> \<not> green,
          r_segments := oc_segments oc \<or> green, r_garbage := green\<rparr>)"

text \<open>A retry, from the start and with software decode; a Dolby Vision profile 5 job without its tone-map gets none.\<close>

definition rerun :: "(nat \<Rightarrow> Outcome) \<Rightarrow> Plan \<Rightarrow> Run \<Rightarrow> Run" where
  "rerun env p r =
    (if ReshapesDolbyVision (p_job p) \<and> \<not> dvTonemapReady (p_worker p) (r_use r)
     then r\<lparr>r_err := True, r_self := True\<rparr>
     else runFFmpeg env p (Hls (buildTranscodeArgs p (r_enc r) (r_use r) False (tj_StartOffsetSec (p_job p)) 0 [])) r)"

definition wiped :: "Run \<Rightarrow> Run" where
  "wiped r = r\<lparr>r_contQSV := False, r_use := software_decode (r_use r), r_segments := False\<rparr>"

definition no_output :: "Run \<Rightarrow> bool" where
  "no_output r \<longleftrightarrow> r_self r \<and> r_err r \<and> \<not> r_segments r"

definition retry_green :: "(nat \<Rightarrow> Outcome) \<Rightarrow> Plan \<Rightarrow> Run \<Rightarrow> Run" where
  "retry_green env p r =
    (if r_garbage r then rerun env p (wiped r\<lparr>r_garbage := False, r_retried := True\<rparr>) else r)"

definition retry_decode :: "(nat \<Rightarrow> Outcome) \<Rightarrow> Plan \<Rightarrow> Run \<Rightarrow> Run" where
  "retry_decode env p r = (if hwPipelineActive (r_use r) \<and> no_output r then rerun env p (wiped r) else r)"

fun fail_over :: "(nat \<Rightarrow> Outcome) \<Rightarrow> Plan \<Rightarrow> Encoder list \<Rightarrow> Run \<Rightarrow> Run" where
  "fail_over env p [] r = r"
| "fail_over env p (fb # fbs) r =
    (if no_output r then fail_over env p fbs (rerun env p (wiped r\<lparr>r_enc := fb\<rparr>)) else r)"

definition first_run :: "(nat \<Rightarrow> Outcome) \<Rightarrow> Plan \<Rightarrow> Encoder \<Rightarrow> Usable \<Rightarrow> Run" where
  "first_run env p e u =
    runFFmpeg env p (Hls (buildTranscodeArgs p e u (u_qsvDecode u) (tj_StartOffsetSec (p_job p)) 0 []))
      \<lparr>r_runs = [], r_enc = e, r_use = u, r_contQSV = u_qsvDecode u, r_err = False, r_self = False,
       r_segments = False, r_garbage = False, r_retried = False\<rparr>"

definition encode_runs :: "(nat \<Rightarrow> Outcome) \<Rightarrow> Plan \<Rightarrow> Encoder \<Rightarrow> Usable \<Rightarrow> Run" where
  "encode_runs env p e u =
    fail_over env p (if w_encoderFailover (p_worker p) then FallbackEncoders e (w_encoders (p_worker p)) else [])
      (retry_decode env p (retry_green env p (first_run env p e u)))"

section \<open>The job\<close>

definition job_plan :: "Caps_of_worker \<Rightarrow> TranscodeJob \<Rightarrow> sourceProbe \<Rightarrow> string \<times> ConcatPart list \<Rightarrow> string \<Rightarrow> Plan" where
  "job_plan w j0 probe input dir =
    (let j = upright_job j0 probe in
     \<lparr>p_worker = w, p_job = j, p_input = input, p_bitrate = snd (pick_encoder (w_encoders w) j (rotated probe)),
      p_dir = dir, p_inBand = sp_paramSetsInBand probe\<rparr>)"

definition job_encoder :: "Caps_of_worker \<Rightarrow> TranscodeJob \<Rightarrow> sourceProbe \<Rightarrow> Encoder" where
  "job_encoder w j probe = fst (pick_encoder (w_encoders w) (upright_job j probe) (rotated probe))"

text \<open>The job's runs; a direct stream has a single one, of another builder, and no retry.\<close>

definition runJob :: "(nat \<Rightarrow> Outcome) \<Rightarrow> (string \<Rightarrow> bool) \<Rightarrow> (string \<Rightarrow> sourceProbe) \<Rightarrow> string \<Rightarrow> string
    \<Rightarrow> Caps_of_worker \<Rightarrow> TranscodeJob \<Rightarrow> JobError + Launch list \<times> Run option" where
  "runJob env reachable probe listDir sessionRoot w j =
    (case job_input j reachable (path_join listDir (SessionDirName (tj_SessionID j) (tj_Incarnation j) @ ''.ffconcat'')) of
       Inl e \<Rightarrow> Inl e
     | Inr input \<Rightarrow>
         let dir = path_join sessionRoot (SessionDirName (tj_SessionID j) (tj_Incarnation j));
             sp = probe (case snd input of [] \<Rightarrow> fst input | part # _ \<Rightarrow> cp_Input part);
             e = job_encoder w j sp;
             p = job_plan w j sp input dir;
             u = usable_paths w (p_job p) e
         in if tj_Decision j = ''directStream'' \<and> \<not> rotated sp
            then Inr ([Direct (fst input) dir (tj_StartOffsetSec j) (snd input)], None)
            else if ReshapesDolbyVision (p_job p) \<and> \<not> dvTonemapReady w u then Inl NoDolbyVisionTonemap
            else let r = encode_runs env p e u in Inr (r_runs r, Some r))"

text \<open>The command line of a continuation run, once the last run ended well but early.\<close>

definition continuation :: "Plan \<Rightarrow> Run \<Rightarrow> rat \<Rightarrow> int \<Rightarrow> string \<Rightarrow> BuildArgs" where
  "continuation p r off num playlist = buildTranscodeArgs p (r_enc r) (r_use r) (r_contQSV r) off num playlist"

text \<open>The extension the worker and the session wait for (\<open>vout\<close>), from the encoder of the run.\<close>

definition stamped_output :: "TranscodeJob \<Rightarrow> Encoder \<Rightarrow> VideoOutput" where
  "stamped_output j e = ResolveVideoOutput e (tj_IsHEVC j) (tj_IsAV1 j) (ForcesFMP4 j) (tj_TSSegments j)"

section \<open>What every run of a job keeps\<close>

text \<open>The paths in use go with the encoder, and a profile 5 job has its tone-map.\<close>

definition paths_fit :: "Plan \<Rightarrow> Encoder \<Rightarrow> Usable \<Rightarrow> bool" where
  "paths_fit p e u \<longleftrightarrow>
     (let T = tj_NeedsToneMap (p_job p) in
      (u_qsvVRAM u \<longrightarrow> IsQSVEncoder e \<and> \<not> T) \<and> (u_vaapiVRAM u \<longrightarrow> IsVAAPIEncoder e \<and> \<not> T)
      \<and> (u_vaapiTonemap u \<longrightarrow> IsVAAPIEncoder e \<and> T)
      \<and> (u_cudaTonemap u \<longrightarrow> IsNVENCEncoder e \<and> T \<and> nv_codec (p_job p) \<and> (ReshapesDolbyVision (p_job p) \<longrightarrow> w_dvTonemapCuda (p_worker p)))
      \<and> (u_cudaHDR u \<longrightarrow> IsNVENCEncoder e \<and> T \<and> nv_codec (p_job p) \<and> w_hasZscale (p_worker p) \<and> \<not> w_hasLibplacebo (p_worker p) \<and> \<not> u_cudaTonemap u))"

lemma paths_fit_start: "paths_fit p e (usable_paths (p_worker p) (p_job p) e)"
  by (auto simp: paths_fit_def usable_paths_def Let_def cuda_tonemap_usable_def)

lemma paths_fit_software: "paths_fit p e (software_decode u)"
  by (simp add: paths_fit_def software_decode_def Let_def)

lemma args_fit:
  assumes "paths_fit p e u" "ReshapesDolbyVision (p_job p) \<Longrightarrow> u_cudaTonemap u"
  shows "flags_fit (buildTranscodeArgs p e u q off n pl)"
proof -
  have "(e = ''h264_vaapi'' \<or> e = ''hevc_vaapi'' \<or> e = ''av1_vaapi'') = IsVAAPIEncoder e" by (simp add: IsVAAPIEncoder_def)
  then show ?thesis
    using assms by (simp add: flags_fit_def buildTranscodeArgs_def Let_def paths_fit_def codec_known_def nv_codec_def)
qed

text \<open>
  The runs of a job as built from the states the job goes through.  \<open>sound p e u\<close> is what a run needs of
  the encoder and the paths; \<open>job_inv\<close> says it of every run made, and of the fitting of the state at hand.
\<close>

text \<open>Two encoders whose output is packaged alike.\<close>

definition same_output :: "Encoder \<Rightarrow> Encoder \<Rightarrow> bool" where
  "same_output e0 e \<longleftrightarrow> IsVideoCopy e = IsVideoCopy e0 \<and> IsHEVCEncoder e = IsHEVCEncoder e0 \<and> IsAV1Encoder e = IsAV1Encoder e0"

lemma FallbackEncoders_output: "e \<in> set (FallbackEncoders e0 es) \<Longrightarrow> same_output e0 e"
proof -
  assume e: "e \<in> set (FallbackEncoders e0 es)"
  then have hw: "IsHardwareEncoder e0" by (simp add: FallbackEncoders_def split: if_splits)
  then obtain h where h: "FallbackEncoders e0 es = h @ [softwareEncoderForFamily (codecFamily e0)]"
      "\<forall>e \<in> set h. IsHardwareEncoder e \<and> codecFamily e = codecFamily e0"
    using fallback_loop_props [of "[e0]" e0 es] by (auto simp: FallbackEncoders_def)
  then have "codecFamily e = codecFamily e0 \<and> \<not> IsVideoCopy e" using e hardware_not_copy software_not_copy by auto
  then show ?thesis using family_output [of e e0] hardware_not_copy [OF hw] by (simp add: same_output_def)
qed

definition run_of :: "Plan \<Rightarrow> Encoder \<Rightarrow> Launch \<Rightarrow> bool" where
  "run_of p e0 l \<longleftrightarrow> (\<exists>e u q off n pl. l = Hls (buildTranscodeArgs p e u q off n pl) \<and> paths_fit p e u \<and> same_output e0 e
      \<and> (ReshapesDolbyVision (p_job p) \<longrightarrow> dvTonemapReady (p_worker p) u))"

definition job_inv :: "Plan \<Rightarrow> Encoder \<Rightarrow> Run \<Rightarrow> bool" where
  "job_inv p e0 r \<longleftrightarrow> (\<forall>l \<in> set (r_runs r). run_of p e0 l) \<and> paths_fit p (r_enc r) (r_use r) \<and> same_output e0 (r_enc r)
     \<and> (r_err r \<or> (ReshapesDolbyVision (p_job p) \<longrightarrow> dvTonemapReady (p_worker p) (r_use r)))"

lemma run_ofI: "paths_fit p e u \<Longrightarrow> same_output e0 e \<Longrightarrow> (ReshapesDolbyVision (p_job p) \<Longrightarrow> dvTonemapReady (p_worker p) u)
    \<Longrightarrow> run_of p e0 (Hls (buildTranscodeArgs p e u q off n pl))"
  unfolding run_of_def by blast

lemma runFFmpeg_simps:
  "r_runs (runFFmpeg env p l r) = r_runs r @ [l]" "r_enc (runFFmpeg env p l r) = r_enc r"
  "r_use (runFFmpeg env p l r) = r_use r" "r_contQSV (runFFmpeg env p l r) = r_contQSV r"
  by (simp_all add: runFFmpeg_def Let_def)

lemma rerun_inv:
  assumes "\<forall>l \<in> set (r_runs r). run_of p e0 l" "paths_fit p (r_enc r) (r_use r)" "same_output e0 (r_enc r)"
  shows "job_inv p e0 (rerun env p r)"
proof (cases "ReshapesDolbyVision (p_job p) \<and> \<not> dvTonemapReady (p_worker p) (r_use r)")
  case True
  then show ?thesis using assms by (simp add: rerun_def job_inv_def)
next
  case False
  then have "run_of p e0 (Hls (buildTranscodeArgs p (r_enc r) (r_use r) False (tj_StartOffsetSec (p_job p)) 0 []))"
    using assms(2,3) by (intro run_ofI) auto
  then show ?thesis using False assms by (simp add: rerun_def job_inv_def runFFmpeg_simps)
qed

lemma wiped_simps: "r_runs (wiped r) = r_runs r" "r_enc (wiped r) = r_enc r" "r_use (wiped r) = software_decode (r_use r)"
  by (simp_all add: wiped_def)

lemma retry_inv: "job_inv p e0 r \<Longrightarrow> job_inv p e0 (retry_green env p r)" "job_inv p e0 r \<Longrightarrow> job_inv p e0 (retry_decode env p r)"
  using rerun_inv [of "wiped r\<lparr>r_garbage := False, r_retried := True\<rparr>" p e0 env] rerun_inv [of "wiped r" p e0 env]
  by (simp_all add: retry_green_def retry_decode_def wiped_simps paths_fit_software job_inv_def)

lemma fail_over_inv: "job_inv p e0 r \<Longrightarrow> \<forall>e \<in> set fbs. same_output e0 e \<Longrightarrow> job_inv p e0 (fail_over env p fbs r)"
proof (induction fbs arbitrary: r)
  case (Cons fb fbs)
  have "job_inv p e0 (rerun env p (wiped r\<lparr>r_enc := fb\<rparr>))"
    using Cons.prems(1) Cons.prems(2) by (intro rerun_inv) (simp_all add: job_inv_def wiped_simps paths_fit_software)
  then show ?case using Cons by simp
qed simp

lemma first_run_inv:
  assumes "paths_fit p e u" "ReshapesDolbyVision (p_job p) \<Longrightarrow> dvTonemapReady (p_worker p) u"
  shows "job_inv p e (first_run env p e u)"
  using assms by (auto simp: same_output_def first_run_def job_inv_def runFFmpeg_simps intro!: run_ofI)

lemma encode_runs_inv:
  assumes "paths_fit p e u" "ReshapesDolbyVision (p_job p) \<Longrightarrow> dvTonemapReady (p_worker p) u"
  shows "job_inv p e (encode_runs env p e u)"
  unfolding encode_runs_def using FallbackEncoders_output by (intro fail_over_inv retry_inv first_run_inv assms) auto

text \<open>What a run of a job was started as.\<close>

lemma runJob_cases:
  assumes "runJob env reachable probe listDir sroot w j = Inr (ls, fin)" "Hls b \<in> set ls"
  obtains p r sp where "fin = Some r" "p_worker p = w" "p_job p = upright_job j sp" "job_inv p (job_encoder w j sp) r"
    "\<And>a. Hls a \<in> set ls \<Longrightarrow> run_of p (job_encoder w j sp) (Hls a)"
proof -
  define lp where "lp = path_join listDir (SessionDirName (tj_SessionID j) (tj_Incarnation j) @ ''.ffconcat'')"
  obtain input where i: "job_input j reachable lp = Inr input"
    using assms(1) by (auto simp: runJob_def Let_def lp_def split: sum.splits)
  define dir where "dir = path_join sroot (SessionDirName (tj_SessionID j) (tj_Incarnation j))"
  define sp where "sp = probe (case snd input of [] \<Rightarrow> fst input | part # _ \<Rightarrow> cp_Input part)"
  define e where "e = job_encoder w j sp"
  define p where "p = job_plan w j sp input dir"
  define u where "u = usable_paths w (p_job p) e"
  have pw: "p_worker p = w" "p_job p = upright_job j sp" by (simp_all add: p_def job_plan_def Let_def)
  have res: "runJob env reachable probe listDir sroot w j =
     (if tj_Decision j = ''directStream'' \<and> \<not> rotated sp then Inr ([Direct (fst input) dir (tj_StartOffsetSec j) (snd input)], None)
      else if ReshapesDolbyVision (p_job p) \<and> \<not> dvTonemapReady w u then Inl NoDolbyVisionTonemap
      else Inr (r_runs (encode_runs env p e u), Some (encode_runs env p e u)))"
    using i by (simp add: runJob_def Let_def lp_def dir_def sp_def e_def p_def u_def)
  have ok: "\<not> (ReshapesDolbyVision (p_job p) \<and> \<not> dvTonemapReady w u)" "ls = r_runs (encode_runs env p e u)" "fin = Some (encode_runs env p e u)"
    using assms res by (auto split: if_splits)
  have "job_inv p e (encode_runs env p e u)"
    using ok(1) paths_fit_start [of p e] by (intro encode_runs_inv) (auto simp: u_def pw)
  then show ?thesis using that [of "encode_runs env p e u" p sp] ok pw by (auto simp: job_inv_def e_def)
qed

section \<open>What holds of a job's runs\<close>

lemma args_simps:
  "a_Encoder (buildTranscodeArgs p e u q off n pl) = e" "a_AudioOnly (buildTranscodeArgs p e u q off n pl) = tj_AudioOnly (p_job p)"
  "a_DVReshape (buildTranscodeArgs p e u q off n pl) = ReshapesDolbyVision (p_job p)"
  "a_CudaTonemap (buildTranscodeArgs p e u q off n pl) = u_cudaTonemap u"
  "a_NeedsToneMap (buildTranscodeArgs p e u q off n pl) = tj_NeedsToneMap (p_job p)"
  "a_IsHEVC (buildTranscodeArgs p e u q off n pl) = tj_IsHEVC (p_job p)" "a_IsAV1 (buildTranscodeArgs p e u q off n pl) = tj_IsAV1 (p_job p)"
  "a_IsH264 (buildTranscodeArgs p e u q off n pl) = tj_IsH264 (p_job p)"
  "a_ForceFMP4 (buildTranscodeArgs p e u q off n pl) = ForcesFMP4 (p_job p)"
  "a_TSSegments (buildTranscodeArgs p e u q off n pl) = tj_TSSegments (p_job p)"
  "a_AudioPassthrough (buildTranscodeArgs p e u q off n pl) = tj_AudioPassthrough (p_job p)"
  "a_AudioCodec (buildTranscodeArgs p e u q off n pl) = tj_AudioCodec (p_job p)"
  "a_DolbyVision (buildTranscodeArgs p e u q off n pl) = tj_DolbyVision (p_job p)"
  "a_IsVAAPI (buildTranscodeArgs p e u q off n pl) = IsVAAPIEncoder e"
  by (simp_all add: buildTranscodeArgs_def Let_def IsVAAPIEncoder_def)

lemma upright_simps:
  "tj_AudioOnly (upright_job j sp) = tj_AudioOnly j" "ReshapesDolbyVision (upright_job j sp) = ReshapesDolbyVision j"
  "tj_IsHEVC (upright_job j sp) = tj_IsHEVC j" "tj_IsAV1 (upright_job j sp) = tj_IsAV1 j" "tj_IsH264 (upright_job j sp) = tj_IsH264 j"
  "ForcesFMP4 (upright_job j sp) = ForcesFMP4 j" "tj_TSSegments (upright_job j sp) = tj_TSSegments j"
  "tj_AudioPassthrough (upright_job j sp) = tj_AudioPassthrough j" "tj_AudioCodec (upright_job j sp) = tj_AudioCodec j"
  "tj_DolbyVision (upright_job j sp) = tj_DolbyVision j" "tj_ForceFMP4 (upright_job j sp) = tj_ForceFMP4 j" "tj_Encoder (upright_job j sp) = tj_Encoder j"
  by (simp_all add: upright_job_def ReshapesDolbyVision_def ForcesFMP4_def)

lemma run_fits:
  assumes "run_of p e0 (Hls a)"
  shows "flags_fit a" "a_AudioOnly a = tj_AudioOnly (p_job p)"
proof -
  obtain e u q off n pl where a: "a = buildTranscodeArgs p e u q off n pl" "paths_fit p e u"
      "ReshapesDolbyVision (p_job p) \<longrightarrow> dvTonemapReady (p_worker p) u"
    using assms by (auto simp: run_of_def)
  then show "flags_fit a" using args_fit [of p e u q off n pl] by (simp add: dvTonemapReady_def)
  show "a_AudioOnly a = tj_AudioOnly (p_job p)" by (simp add: a args_simps)
qed



text \<open>Only a job that asks for a copy is copied.\<close>

lemma first_such_member: "first_such P z es = z \<or> first_such P z es \<in> set es \<and> P (first_such P z es)"
proof (cases "\<exists>x \<in> set es. P x")
  case True
  then show ?thesis using first_such_in by blast
next
  case False
  then show ?thesis using first_such_none by metis
qed

lemma copied_job:
  assumes "''copy'' \<notin> set es" "fst (pick_encoder es j rot) = ''copy''"
  shows "tj_Encoder j = ''copy''"
proof -
  have b: "BestEncoder es \<noteq> ''copy''" using assms(1) by (cases es) (auto simp: BestEncoder_def)
  have h: "BestH264Encoder es \<noteq> ''copy''"
    using assms(1) first_such_member [of "\<lambda>e. \<not> IsHEVCEncoder e \<and> \<not> IsAV1Encoder e" "''libx264''" es]
    by (auto simp: BestH264Encoder_def)
  have "BestAV1Encoder es \<noteq> ''copy''" "BestHEVCEncoder es \<noteq> ''copy''"
    using assms(1) first_such_member [of IsAV1Encoder "[]" es] first_such_member [of IsHEVCEncoder "[]" es]
    by (auto simp: BestAV1Encoder_def BestHEVCEncoder_def)
  then have "first_encoder es j = ''copy''"
    using assms(2) by (auto simp: pick_encoder_def hevc_encoder_def av1_encoder_def split: prod.splits if_splits)
  then show ?thesis using b h by (auto simp: first_encoder_def Let_def split: if_splits)
qed

lemma video_output_effective: "video_output (effective_args a) = video_output a"
  by (simp add: video_output_def dvCopy_def effective_args_def dvReshapeArgs_def burnInArgs_def)

text \<open>A job that is no direct stream and needs no reshaping is run at least once.\<close>

lemma rerun_keeps: "set (r_runs r) \<subseteq> set (r_runs (rerun env p r))"
  by (auto simp: rerun_def runFFmpeg_simps)

lemma fail_over_keeps: "set (r_runs r) \<subseteq> set (r_runs (fail_over env p fbs r))"
proof (induction fbs arbitrary: r)
  case (Cons fb fbs)
  then show ?case using rerun_keeps [of "wiped r\<lparr>r_enc := fb\<rparr>" env p] by (auto simp: wiped_simps)
qed simp

lemma encode_runs_launches: "\<exists>a. Hls a \<in> set (r_runs (encode_runs env p e u))"
proof -
  obtain a where "Hls a \<in> set (r_runs (first_run env p e u))" by (auto simp: first_run_def runFFmpeg_simps)
  moreover have "set (r_runs r) \<subseteq> set (r_runs (retry_green env p r))" "set (r_runs r) \<subseteq> set (r_runs (retry_decode env p r))" for r
    using rerun_keeps [of "wiped r\<lparr>r_garbage := False, r_retried := True\<rparr>" env p] rerun_keeps [of "wiped r" env p]
    by (auto simp: retry_green_def retry_decode_def wiped_simps)
  ultimately show ?thesis unfolding encode_runs_def using fail_over_keeps by blast
qed

lemma runJob_launches:
  assumes "length (tj_Parts j) \<le> 1" "tj_Decision j \<noteq> ''directStream''" "\<not> ReshapesDolbyVision j"
  obtains ls fin a where "runJob env reachable probe listDir sroot w j = Inr (ls, fin)" "Hls a \<in> set ls"
proof -
  obtain input where i: "job_input j reachable (path_join listDir (SessionDirName (tj_SessionID j) (tj_Incarnation j) @ ''.ffconcat'')) = Inr input"
    using assms(1) by (simp add: job_input_def Let_def)
  define sp where "sp = probe (case snd input of [] \<Rightarrow> fst input | part # _ \<Rightarrow> cp_Input part)"
  define p where "p = job_plan w j sp input (path_join sroot (SessionDirName (tj_SessionID j) (tj_Incarnation j)))"
  define r where "r = encode_runs env p (job_encoder w j sp) (usable_paths w (p_job p) (job_encoder w j sp))"
  have "\<not> ReshapesDolbyVision (p_job p)" using assms(3) by (simp add: ReshapesDolbyVision_def upright_job_def p_def job_plan_def Let_def)
  then have "runJob env reachable probe listDir sroot w j = Inr (r_runs r, Some r)"
    using assms(2) i by (simp add: runJob_def Let_def flip: sp_def p_def r_def)
  then show ?thesis using that encode_runs_launches unfolding r_def by blast
qed

text \<open>Encoders of one kind stamp one output.\<close>

lemma stamped_same: "same_output e0 e \<Longrightarrow> stamped_output j e = stamped_output j e0"
  by (simp add: stamped_output_def ResolveVideoOutput_def same_output_def)

text \<open>Every run of a job writes the container that its first choice of an encoder stamps.\<close>

lemma run_segments:
  assumes "runJob env reachable probe listDir sroot w j = Inr (ls, fin)" "Hls b \<in> set ls"
    "\<not> tj_AudioOnly j" "''copy'' \<notin> set (w_encoders w)"
  obtains r sp where "fin = Some r" "same_output (job_encoder w j sp) (r_enc r)"
    "\<And>a. Hls a \<in> set ls \<Longrightarrow> same_output (job_encoder w j sp) (a_Encoder a)
       \<and> SegExt (video_output (effective_args a)) = SegExt (stamped_output j (job_encoder w j sp))"
proof -
  obtain p r sp where p: "fin = Some r" "p_worker p = w" "p_job p = upright_job j sp" "job_inv p (job_encoder w j sp) r"
      "\<And>a. Hls a \<in> set ls \<Longrightarrow> run_of p (job_encoder w j sp) (Hls a)"
    using runJob_cases [OF assms(1,2)] by metis
  let ?e0 = "job_encoder w j sp"
  have copied: "tj_Encoder j = ''copy''" if "same_output ?e0 e" "IsVideoCopy e" for e
    using copied_job [OF assms(4), of "upright_job j sp" "rotated sp"] that
    by (simp add: same_output_def job_encoder_def IsVideoCopy_def upright_simps)
  have "same_output ?e0 (a_Encoder a) \<and> SegExt (video_output (effective_args a)) = SegExt (stamped_output j ?e0)" if h: "Hls a \<in> set ls" for a
  proof -
    obtain e u q off n pl where a: "a = buildTranscodeArgs p e u q off n pl" "same_output ?e0 e"
      using p(5) [OF h] by (auto simp: run_of_def)
    have "NeedsFMP4 (video_output (effective_args a)) = NeedsFMP4 (stamped_output j e)"
    proof (cases "IsVideoCopy e")
      case True
      then have "tj_Encoder j = ''copy''" "e = ''copy''" using copied [OF a(2)] by (simp_all add: IsVideoCopy_def)
      then show ?thesis using assms(3) unfolding video_output_effective
        by (auto simp: video_output_def stamped_output_def a(1) args_simps p(3) upright_simps
            NeedsFMP4_def ResolveVideoOutput_def dvCopy_def ForcesFMP4_def IsVideoCopy_def)
    next
      case False
      then show ?thesis using assms(3) unfolding video_output_effective
        by (auto simp: video_output_def stamped_output_def a(1) args_simps p(3) upright_simps
            NeedsFMP4_def ResolveVideoOutput_def dvCopy_def ForcesFMP4_def)
    qed
    then show ?thesis using stamped_same [OF a(2)] a(2) by (simp add: SegExt_def a(1) args_simps)
  qed
  moreover have "same_output ?e0 (r_enc r)" using p(4) by (simp add: job_inv_def)
  ultimately show ?thesis using that p(1) by blast
qed

text \<open>
  The command line and the worker name the same container: in every run of a job with
  a picture the segments ffmpeg is told to write have the extension the worker, and through it the session,
  waits for, and no retry or fail-over changes it.
\<close>

theorem runJob_container:
  assumes "runJob env reachable probe listDir sroot w j = Inr (ls, fin)" "Hls b \<in> set ls"
    "\<not> tj_AudioOnly j" "''copy'' \<notin> set (w_encoders w)"
  shows "\<exists>r. fin = Some r \<and> (\<forall>a. Hls a \<in> set ls \<longrightarrow>
      SegExt (video_output (effective_args a)) = SegExt (stamped_output j (a_Encoder a))
      \<and> SegExt (stamped_output j (a_Encoder a)) = SegExt (stamped_output j (r_enc r)))"
proof -
  obtain r sp where r: "fin = Some r" "same_output (job_encoder w j sp) (r_enc r)"
    "\<And>a. Hls a \<in> set ls \<Longrightarrow> same_output (job_encoder w j sp) (a_Encoder a)
       \<and> SegExt (video_output (effective_args a)) = SegExt (stamped_output j (job_encoder w j sp))"
    using run_segments [OF assms] by metis
  have "stamped_output j (a_Encoder a) = stamped_output j (r_enc r)" if "Hls a \<in> set ls" for a
    using r(2) r(3) [OF that] stamped_same by metis
  then show ?thesis using r stamped_same by metis
qed

section \<open>Jobs run\<close>

text \<open>A worker with an NVIDIA and a VAAPI encoder, and jobs on it whose runs leave segments.\<close>

definition sample_caps :: "Encoder list \<Rightarrow> Caps_of_worker" where
  "sample_caps es = \<lparr>w_encoders = es, w_encoderOpts = \<lparr>NVENCPreset = [], NVENCTune = [], NVENCRC = [], MaxrateRatio = 0\<rparr>,
     w_encoderFailover = True, w_hasZscale = True, w_hasLibfdkAAC = False, w_hasLibplacebo = False, w_dvTonemapCuda = True,
     w_qsvDecode = False, w_qsvVRAM = True, w_vaapiVRAM = True, w_vaapiTonemap = True, w_cudaHevcDecode = True,
     w_cudaScale = True, w_cudaTonemap = True, w_readrateCatchup = True\<rparr>"

definition upright :: sourceProbe where
  "upright = \<lparr>sp_rotationDeg = 0, sp_bitrateKbps = 0, sp_paramSetsInBand = False\<rparr>"

definition plays :: "nat \<Rightarrow> Outcome" where
  "plays n = \<lparr>oc_err = False, oc_self = True, oc_segments = True, oc_green = False\<rparr>"

definition fails_once :: "nat \<Rightarrow> Outcome" where
  "fails_once n = \<lparr>oc_err = (n = 0), oc_self = True, oc_segments = (n \<noteq> 0), oc_green = False\<rparr>"

definition sample_run :: "(nat \<Rightarrow> Outcome) \<Rightarrow> Encoder list \<Rightarrow> TranscodeJob \<Rightarrow> JobError + Launch list \<times> Run option" where
  "sample_run env es j = runJob env (\<lambda>_. True) (\<lambda>_. upright) ''/tmp/lists'' ''/tmp/sessions'' (sample_caps es) j"

definition runs_of :: "JobError + Launch list \<times> Run option \<Rightarrow> Launch list" where
  "runs_of res = (case res of Inr (ls, _) \<Rightarrow> ls | Inl _ \<Rightarrow> [])"

definition args_of :: "JobError + Launch list \<times> Run option \<Rightarrow> nat \<Rightarrow> BuildArgs" where
  "args_of res n = (case runs_of res ! n of Hls a \<Rightarrow> a)"

definition ran :: "JobError + Launch list \<times> Run option \<Rightarrow> nat \<Rightarrow> bool" where
  "ran res n \<longleftrightarrow> n < length (runs_of res) \<and> (case runs_of res ! n of Hls a \<Rightarrow> True | Direct _ _ _ _ \<Rightarrow> False)"

lemma ranD: "ran res n \<Longrightarrow> \<exists>fin. res = Inr (runs_of res, fin) \<and> Hls (args_of res n) \<in> set (runs_of res)"
proof -
  assume r: "ran res n"
  then have "Hls (args_of res n) = runs_of res ! n" "n < length (runs_of res)"
    by (auto simp: ran_def args_of_def split: Launch.splits)
  then show ?thesis by (cases res) (auto simp: runs_of_def)
qed

text \<open>An 8-bit HEVC encode on VAAPI whose surfaces the retry has to upload: not placed.  Its first run is.\<close>

definition vaapi_job :: TranscodeJob where
  "vaapi_job = sample_job\<lparr>tj_Encoder := ''hevc_vaapi'', tj_Force8Bit := True\<rparr>"


definition profile5_job :: TranscodeJob where
  "profile5_job = sample_job\<lparr>tj_Encoder := ''hevc_nvenc'', tj_NeedsToneMap := True, tj_DVProfileKey := ''5''\<rparr>"


definition fails_twice :: "nat \<Rightarrow> Outcome" where
  "fails_twice n = \<lparr>oc_err = n < 2, oc_self = True, oc_segments = 2 \<le> n, oc_green = False\<rparr>"

text \<open>An encoder that fails is replaced by another one, in the same container.\<close>

theorem runJob_container_witness:
  "a_Encoder (args_of (sample_run fails_twice [''hevc_nvenc'', ''hevc_vaapi''] sample_job) 2) = ''hevc_vaapi''
   \<and> SegExt (video_output (effective_args (args_of (sample_run fails_twice
        [''hevc_nvenc'', ''hevc_vaapi''] sample_job) 2))) = ''.m4s''"
proof -
  let ?res = "sample_run fails_twice [''hevc_nvenc'', ''hevc_vaapi''] sample_job"
  have "ran ?res 2" by code_simp
  then obtain ls fin where r: "?res = Inr (ls, fin)" "Hls (args_of ?res 2) \<in> set ls" using ranD [of ?res 2] by metis
  have f: "\<not> tj_AudioOnly sample_job" "''copy'' \<notin> set (w_encoders (sample_caps [''hevc_nvenc'', ''hevc_vaapi'']))"
    "SegExt (stamped_output sample_job ''hevc_vaapi'') = ''.m4s''"
    by code_simp+
  have e: "a_Encoder (args_of ?res 2) = ''hevc_vaapi''" by code_simp
  show ?thesis using runJob_container [OF r(1) [unfolded sample_run_def] r(2) f(1,2)] r(2) f(3) e by auto
qed

text \<open>
  The retry without hardware decode keeps \<open>qsvDecodeUsable\<close>, so it is still checked for dead chroma: a source
  that looks green in software too is killed there with no retry and no error left.
\<close>

lemma green_software_run:
  assumes "oc_green (env (length (r_runs r)))" "\<not> r_retried r" "\<not> tj_AudioOnly (p_job p)" "u_qsvDecode (r_use r)"
    "\<not> ReshapesDolbyVision (p_job p)"
  shows "r_garbage (rerun env p (wiped r)) \<and> \<not> r_err (rerun env p (wiped r)) \<and> \<not> r_self (rerun env p (wiped r))"
  using assms by (simp add: rerun_def runFFmpeg_def Let_def wiped_def software_decode_def hwPipelineActive_def)

text \<open>A job makes at most three runs before it tries other encoders, and one for each of those.\<close>

lemma rerun_count: "length (r_runs (rerun env p r)) \<le> Suc (length (r_runs r))"
  by (simp add: rerun_def runFFmpeg_simps)

lemma fail_over_count: "length (r_runs (fail_over env p fbs r)) \<le> length (r_runs r) + length fbs"
proof (induction fbs arbitrary: r)
  case (Cons fb fbs)
  have "length (r_runs (rerun env p (wiped r\<lparr>r_enc := fb\<rparr>))) \<le> Suc (length (r_runs r))"
    using rerun_count [of env p "wiped r\<lparr>r_enc := fb\<rparr>"] by (simp add: wiped_simps)
  then show ?case using Cons.IH [of "rerun env p (wiped r\<lparr>r_enc := fb\<rparr>)"] by simp
qed simp

lemma encode_runs_count:
  "length (r_runs (encode_runs env p e u)) \<le> 3 + length (FallbackEncoders e (w_encoders (p_worker p)))"
proof -
  have one: "length (r_runs (first_run env p e u)) = 1" by (simp add: first_run_def runFFmpeg_simps)
  have "length (r_runs (retry_green env p r)) \<le> Suc (length (r_runs r))" "length (r_runs (retry_decode env p r)) \<le> Suc (length (r_runs r))" for r
    using rerun_count [of env p "wiped r\<lparr>r_garbage := False, r_retried := True\<rparr>"] rerun_count [of env p "wiped r"]
    by (simp_all add: retry_green_def retry_decode_def wiped_simps)
  then have "length (r_runs (retry_decode env p (retry_green env p (first_run env p e u)))) \<le> 3"
    using one by (metis Suc_le_mono le_trans numeral_3_eq_3 One_nat_def)
  then show ?thesis
    using fail_over_count [of env p "if w_encoderFailover (p_worker p) then FallbackEncoders e (w_encoders (p_worker p)) else []"
        "retry_decode env p (retry_green env p (first_run env p e u))"]
    by (simp add: encode_runs_def split: if_splits)
qed

section \<open>Refusals\<close>

lemma fallback_loop_length: "length (fallback_loop seen e0 es) \<le> Suc (length es)"
  by (induction seen e0 es rule: fallback_loop.induct) (auto simp: Let_def)

lemma job_input_unreachable:
  "job_input j reachable lp = Inl PartsUnreachable \<longleftrightarrow>
     length (tj_Parts j) > 1 \<and> (\<exists>p \<in> set (tj_Parts j). \<not> reachable (pt_FilePath p)) \<and> (\<exists>p \<in> set (tj_Parts j). pt_SourceURL p = [])"
  by (auto simp: job_input_def Let_def resolvePartInputs_def list_all_iff split: option.splits sum.splits if_splits)

lemma first_runs: "r_runs (encode_runs env p e u) \<noteq> []"
proof -
  have mono: "r_runs r \<noteq> [] \<Longrightarrow> r_runs (rerun env p (f r)) \<noteq> []" if "\<And>r. r_runs (f r) = r_runs r" for f r
    using that by (simp add: rerun_def runFFmpeg_simps)
  have over: "r_runs r \<noteq> [] \<Longrightarrow> r_runs (fail_over env p fbs r) \<noteq> []" for fbs r
  proof (induction fbs arbitrary: r)
    case (Cons fb fbs)
    then show ?case using mono [of "\<lambda>r. wiped r\<lparr>r_enc := fb\<rparr>" r] by (simp add: wiped_simps)
  qed simp
  have "r_runs (first_run env p e u) \<noteq> []" by (simp add: first_run_def runFFmpeg_simps)
  then have "r_runs (retry_decode env p (retry_green env p (first_run env p e u))) \<noteq> []"
    using mono [of "\<lambda>r. wiped r\<lparr>r_garbage := False, r_retried := True\<rparr>"] mono [of wiped]
    by (simp add: retry_green_def retry_decode_def wiped_simps)
  then show ?thesis unfolding encode_runs_def by (rule over)
qed

text \<open>
  A job is refused before any run only for parts this worker can read neither as files nor
  as URLs, for a list it will not write, or for a profile 5 picture it cannot tone-map; every other job is
  run at least once, and however its runs fail there are at most four more of them than the worker has encoders.
\<close>

theorem runJob_errors:
  "case runJob env reachable probe listDir sroot w j of
     Inl PartsUnreachable \<Rightarrow> length (tj_Parts j) > 1 \<and> (\<exists>p \<in> set (tj_Parts j). \<not> reachable (pt_FilePath p))
       \<and> (\<exists>p \<in> set (tj_Parts j). pt_SourceURL p = [])
   | Inl (ConcatRefused e) \<Rightarrow> \<exists>entries remote. resolvePartInputs (tj_Parts j) reachable = Some (entries, remote) \<and> checkConcatParts entries = Inl e
   | Inl NoDolbyVisionTonemap \<Rightarrow> ReshapesDolbyVision j \<and> \<not> (w_cudaTonemap w \<and> w_dvTonemapCuda w \<and> nv_codec j
       \<and> (\<forall>sp. IsNVENCEncoder (job_encoder w j sp)))
   | Inr (ls, _) \<Rightarrow> ls \<noteq> [] \<and> length ls \<le> 4 + length (w_encoders w)"
proof -
  define lp where "lp = path_join listDir (SessionDirName (tj_SessionID j) (tj_Incarnation j) @ ''.ffconcat'')"
  show ?thesis
  proof (cases "job_input j reachable lp")
    case (Inl err)
    then have r: "runJob env reachable probe listDir sroot w j = Inl err" by (simp add: runJob_def Let_def lp_def)
    show ?thesis
    proof (cases err)
      case PartsUnreachable
      then show ?thesis using r Inl job_input_unreachable by simp
    next
      case (ConcatRefused e)
      then show ?thesis using r Inl by (auto simp: job_input_def Let_def WriteConcatList_def split: option.splits sum.splits if_splits)
    next
      case NoDolbyVisionTonemap
      then show ?thesis using Inl by (auto simp: job_input_def Let_def split: option.splits sum.splits if_splits)
    qed
  next
    case (Inr input)
    define dir where "dir = path_join sroot (SessionDirName (tj_SessionID j) (tj_Incarnation j))"
    define sp where "sp = probe (case snd input of [] \<Rightarrow> fst input | part # _ \<Rightarrow> cp_Input part)"
    define e where "e = job_encoder w j sp"
    define p where "p = job_plan w j sp input dir"
    define u where "u = usable_paths w (p_job p) e"
    have pw: "p_worker p = w" "p_job p = upright_job j sp" by (simp_all add: p_def job_plan_def Let_def)
    have res: "runJob env reachable probe listDir sroot w j =
       (if tj_Decision j = ''directStream'' \<and> \<not> rotated sp then Inr ([Direct (fst input) dir (tj_StartOffsetSec j) (snd input)], None)
        else if ReshapesDolbyVision (p_job p) \<and> \<not> dvTonemapReady w u then Inl NoDolbyVisionTonemap
        else Inr (r_runs (encode_runs env p e u), Some (encode_runs env p e u)))"
      using Inr by (simp add: runJob_def Let_def lp_def dir_def sp_def e_def p_def u_def)
    have nv: "dvTonemapReady w u" if "ReshapesDolbyVision j" "w_cudaTonemap w" "w_dvTonemapCuda w" "nv_codec j" "IsNVENCEncoder e"
      using that by (auto simp: dvTonemapReady_def u_def usable_paths_def Let_def cuda_tonemap_usable_def pw nv_codec_def
          upright_job_def ReshapesDolbyVision_def IsNVENCEncoder_def)
    have "length (FallbackEncoders e (w_encoders w)) \<le> Suc (length (w_encoders w))"
      using fallback_loop_length [of "[e]" e "w_encoders w"] by (simp add: FallbackEncoders_def)
    then have "length (r_runs (encode_runs env p e u)) \<le> 4 + length (w_encoders w)"
      using encode_runs_count [of env p e u] by (simp add: pw)
    then show ?thesis using res first_runs nv by (auto simp: pw upright_simps e_def)
  qed
qed

section \<open>The parts of a stacked movie\<close>

text \<open>Parts whose names can stand in a list become a list of the one kind they were resolved to.\<close>

lemma resolved_entries:
  assumes "resolvePartInputs parts reachable = Some (es, remote)" "parts \<noteq> []"
    "\<forall>p \<in> set parts. clean_input False (pt_FilePath p) \<and> (pt_SourceURL p \<noteq> [] \<longrightarrow> clean_input True (pt_SourceURL p))"
  shows "checkConcatParts es = Inr remote \<and> map cp_Input es = map (if remote then pt_SourceURL else pt_FilePath) parts"
proof -
  have m: "map cp_Input es = map (if remote then pt_SourceURL else pt_FilePath) parts"
    "\<forall>p \<in> set parts. if remote then pt_SourceURL p \<noteq> [] else reachable (pt_FilePath p)"
    using resolvePartInputs_unmixed [OF assms(1)] by auto
  then have "list_all (clean_input remote) (map cp_Input es)" using assms(3) by (cases remote) (auto simp: list_all_iff)
  then have "list_all (clean_input remote \<circ> cp_Input) es" by (simp add: list_all_iff)
  moreover have "es \<noteq> []" using m(1) assms(2) by (metis Nil_is_map_conv)
  ultimately show ?thesis using checkConcatParts_clean m(1) by blast
qed

end
