(* ===== verification/StreamCap.thy ===== *)
theory StreamCap
  imports Quality SafeHttp "HOL-Library.AList"
begin

text \<open>
  What a viewer may stream (\<open>remote_limits.go\<close>, \<open>quality_profile.go\<close>, \<open>decision_enforce.go\<close> and the
  verdict of \<open>transcode_decision.go\<close>, all in \<open>internal/api/v1\<close>): the home-network test, the bitrate
  cap of one request, the viewer's own quality profile, the verdict of the playback-decision endpoint and
  the gate that holds the direct stream route to it.

  A file is the \<^typ>\<open>File\<close> of the decision with the further columns these routes read.
\<close>

record MediaFile =
  fl_meta :: File
  fl_Bitrate :: "int option"
  fl_FrameRate :: "rat option"
  fl_DurationMS :: "int option"
  fl_FilePath :: string

definition has_video :: "MediaFile \<Rightarrow> bool" where
  "has_video f \<longleftrightarrow> deref (mf_VideoCodec (fl_meta f)) \<noteq> []"

text \<open>The test every bitrate limit makes: \<open>file.Bitrate != nil && int(*file.Bitrate/1000) > limit\<close>.\<close>

definition bitrate_over :: "MediaFile \<Rightarrow> int \<Rightarrow> bool" where
  "bitrate_over f limit \<longleftrightarrow> (case fl_Bitrate f of Some b \<Rightarrow> go_div b 1000 > limit | None \<Rightarrow> False)"

section \<open>The home network\<close>

text \<open>
  \<open>net.ParseIP\<close> of the host is an argument (\<^const>\<open>None\<close> when it is not an address), and so are the
  addresses of the interfaces that are up and no loopback: an address with the number of one bits of its mask.
\<close>

definition onLinkPeer :: "(IPNet \<times> nat) list \<Rightarrow> IP \<Rightarrow> bool" where
  "onLinkPeer ifaces ip \<longleftrightarrow> To4 ip = None \<and>
     list_ex (\<lambda>(n, ones). To4 (net_IP n) = None \<and> length (net_Mask n) = 16 \<and> ones \<ge> 64 \<and> IPNet_Contains n ip) ifaces"

definition isLocalAddr :: "(IPNet \<times> nat) list \<Rightarrow> IP option \<Rightarrow> bool" where
  "isLocalAddr ifaces host = (case host of
       None \<Rightarrow> False
     | Some ip \<Rightarrow>
         if IsLoopback ip \<or> IsPrivate ip \<or> IsLinkLocalUnicast ip \<or> IsUnspecified ip then True
         else if IPNet_Contains cgnatNet ip then True
         else onLinkPeer ifaces ip)"

text \<open>\<open>netip.Prefix\<close>: an address and a prefix length; \<open>Contains\<close> wants the same family.\<close>

definition Prefix_Contains :: "byte list \<times> nat \<Rightarrow> byte list \<Rightarrow> bool" where
  "Prefix_Contains p a \<longleftrightarrow> length (fst p) = length a \<and> snd p \<le> 8 * length a \<and>
     be_num (fst p) div 2 ^ (8 * length a - snd p) = be_num a div 2 ^ (8 * length a - snd p)"

record RemoteStreamPolicy =
  rp_MaxBitrateKbps :: int
  rp_LocalNetworks :: "(byte list \<times> nat) list"

text \<open>\<open>addr\<close> is \<open>netip.ParseAddr\<close> of the trimmed host after \<open>Unmap\<close>.\<close>

definition IsLocal :: "RemoteStreamPolicy \<Rightarrow> (IPNet \<times> nat) list \<Rightarrow> IP option \<Rightarrow> IP option \<Rightarrow> bool" where
  "IsLocal p ifaces host addr \<longleftrightarrow> isLocalAddr ifaces host
     \<or> (case addr of None \<Rightarrow> False | Some a \<Rightarrow> list_ex (\<lambda>n. Prefix_Contains n a) (rp_LocalNetworks p))"

section \<open>The viewer's quality profile\<close>

text \<open>\<open>v1.QualityProfile\<close>; the ladder's profile type has that name already.\<close>

record ViewerQuality =
  q_MaxVideoBitrateKbps :: int
  q_MaxVideoHeight :: int
  q_MaxAudioBitrateKbps :: int
  q_PreferredVideoCodec :: string

record StreamCaps =
  sk_ConcurrentStreams :: int
  sk_BitrateKbps :: int
  sk_RemoteBitrateKbps :: int
  sk_Quality :: ViewerQuality

definition no_caps :: StreamCaps where
  "no_caps = \<lparr>sk_ConcurrentStreams = 0, sk_BitrateKbps = 0, sk_RemoteBitrateKbps = 0,
     sk_Quality = \<lparr>q_MaxVideoBitrateKbps = 0, q_MaxVideoHeight = 0, q_MaxAudioBitrateKbps = 0, q_PreferredVideoCodec = []\<rparr>\<rparr>"

definition minPositive :: "int \<Rightarrow> int \<Rightarrow> int" where
  "minPositive a b = (if b > 0 \<and> (a \<le> 0 \<or> b < a) then b else a)"

definition applyTo :: "ViewerQuality \<Rightarrow> ClientCapabilities \<Rightarrow> ClientCapabilities" where
  "applyTo q caps =
    (if q_MaxVideoHeight q > 0
     then caps\<lparr>cc_MaxHeight := minPositive (cc_MaxHeight caps) (q_MaxVideoHeight q),
               cc_MaxWidth := minPositive (cc_MaxWidth caps) (go_div (q_MaxVideoHeight q * 16) 9)\<rparr>
     else caps)"

definition audioOver :: "ViewerQuality \<Rightarrow> MediaFile \<Rightarrow> bool" where
  "audioOver q f \<longleftrightarrow> q_MaxAudioBitrateKbps q > 0 \<and> bitrate_over f (q_MaxAudioBitrateKbps q)"

definition overQuality :: "ViewerQuality \<Rightarrow> MediaFile \<Rightarrow> bool" where
  "overQuality q f =
    (if has_video f then q_MaxVideoBitrateKbps q > 0 \<and> bitrate_over f (q_MaxVideoBitrateKbps q) else audioOver q f)"

definition minKbpsPerChannel :: int where
  "minKbpsPerChannel = 40"

definition quality_audioChannels :: "ViewerQuality \<Rightarrow> int \<Rightarrow> int" where
  "quality_audioChannels q channels =
    (if q_MaxAudioBitrateKbps q > 0 \<and> channels > 2 \<and> go_div (q_MaxAudioBitrateKbps q) channels < minKbpsPerChannel
     then 2 else channels)"

definition aacKbps :: "ViewerQuality \<Rightarrow> int \<Rightarrow> int" where
  "aacKbps q channels = (if q_MaxAudioBitrateKbps q \<le> 0 then 0 else min (q_MaxAudioBitrateKbps q) (AACBitrateKbps channels))"

definition outputCodec :: "ViewerQuality \<Rightarrow> ClientCapabilities \<Rightarrow> bool \<Rightarrow> bool \<Rightarrow> bool \<Rightarrow> bool \<times> bool" where
  "outputCodec q caps videoCopy preferHEVC preferAV1 =
    (if q_PreferredVideoCodec q = ''h264'' then (False, False)
     else if q_PreferredVideoCodec q = ''hevc'' then (SupportsHEVC caps \<and> \<not> videoCopy, False)
     else (preferHEVC, preferAV1))"

definition overResolution :: "ViewerQuality \<Rightarrow> MediaFile \<Rightarrow> bool" where
  "overResolution q f \<longleftrightarrow> q_MaxVideoHeight q > 0
     \<and> (derefInt (mf_ResolutionH (fl_meta f)) > q_MaxVideoHeight q
        \<or> derefInt (mf_ResolutionW (fl_meta f)) > go_div (q_MaxVideoHeight q * 16) 9)"

section \<open>The cap of one request\<close>

record streamCap =
  c_Kbps :: int
  c_Remote :: bool
  c_RemoteBinding :: bool
  c_QualityBinding :: bool
  c_RemoteLimited :: bool

text \<open>One round of the loop over the two internet limits.\<close>

definition limit_step :: "int \<Rightarrow> streamCap \<Rightarrow> streamCap" where
  "limit_step r c =
    (if r \<le> 0 then c
     else let d = c\<lparr>c_RemoteLimited := True\<rparr> in
       if c_Kbps d = 0 \<or> r < c_Kbps d then d\<lparr>c_Kbps := r, c_RemoteBinding := True\<rparr> else d)"

definition effectiveStreamCap :: "StreamCaps \<Rightarrow> RemoteStreamPolicy \<Rightarrow> bool \<Rightarrow> bool \<Rightarrow> streamCap" where
  "effectiveStreamCap user policy remote hasVideo =
    (let c = \<lparr>c_Kbps = sk_BitrateKbps user, c_Remote = remote, c_RemoteBinding = False, c_QualityBinding = False,
              c_RemoteLimited = False\<rparr> in
     if \<not> remote \<or> \<not> hasVideo then c
     else limit_step (rp_MaxBitrateKbps policy) (limit_step (sk_RemoteBitrateKbps user) c))"

definition resolveStreamCap :: "StreamCaps \<Rightarrow> RemoteStreamPolicy \<Rightarrow> bool \<Rightarrow> MediaFile \<Rightarrow> streamCap" where
  "resolveStreamCap user policy local f = effectiveStreamCap user policy (\<not> local) (has_video f)"

definition withQuality :: "ViewerQuality \<Rightarrow> MediaFile \<Rightarrow> streamCap \<Rightarrow> streamCap" where
  "withQuality q f c =
    (if q_MaxVideoBitrateKbps q \<le> 0 \<or> \<not> has_video f then c
     else if c_Kbps c = 0 \<or> q_MaxVideoBitrateKbps q < c_Kbps c
     then c\<lparr>c_Kbps := q_MaxVideoBitrateKbps q, c_RemoteBinding := False, c_QualityBinding := True\<rparr>
     else c)"

definition overCap :: "streamCap \<Rightarrow> MediaFile \<Rightarrow> bool" where
  "overCap c f \<longleftrightarrow> c_Kbps c > 0 \<and> bitrate_over f (c_Kbps c)"

definition remoteDecisionOverride :: "streamCap \<Rightarrow> MediaFile \<Rightarrow> string option" where
  "remoteDecisionOverride c f =
    (if \<not> c_RemoteLimited c \<or> \<not> overCap c f then None
     else if c_RemoteBinding c then Some ''remote_bitrate_limit'' else Some ''user_bitrate_limit'')"

definition videoCopyRefused :: "MediaFile \<Rightarrow> ClientCapabilities \<Rightarrow> bool \<Rightarrow> ViewerQuality \<Rightarrow> ServerCaps \<Rightarrow> bool" where
  "videoCopyRefused f caps hasProfile q srv =
    (if hasProfile then Decide (fl_meta f) caps srv \<in> {DecisionTranscode, DecisionUnsupported}
     else overResolution q f)"

section \<open>The playback-decision endpoint\<close>

text \<open>
  The verdict for the source file: \<open>Decide\<close> under the viewer's resolution ceiling, judged as a movie when it
  is a part of a stacked one, then the internet limit and the viewer's bitrate.  The cap is only resolved
  for a direct verdict, or when an optimized version may replace a transcode.
\<close>

definition stack_verdict :: "Decision \<Rightarrow> File \<Rightarrow> bool \<Rightarrow> bool \<Rightarrow> Decision" where
  "stack_verdict d f stacked damagedPart =
    (if \<not> stacked then d else if damagedPart then DecisionDamaged else ForStack d f)"

definition wantsOptimized :: "Decision \<Rightarrow> bool" where
  "wantsOptimized d \<longleftrightarrow> d = DecisionTranscode"

record Verdict =
  v_Decision :: Decision
  v_Reason :: string
  v_MaxBitrateKbps :: int

definition plain_verdict :: "Decision \<Rightarrow> Verdict" where
  "plain_verdict d = \<lparr>v_Decision = d, v_Reason = [], v_MaxBitrateKbps = 0\<rparr>"

definition limit_verdict :: "StreamCaps \<Rightarrow> RemoteStreamPolicy \<Rightarrow> bool \<Rightarrow> MediaFile \<Rightarrow> Verdict \<Rightarrow> Verdict \<times> streamCap" where
  "limit_verdict user policy local f v =
    (let bc = resolveStreamCap user policy local f;
         v1 = (if v_Decision v = DecisionTranscode then v
               else case remoteDecisionOverride bc f of
                 Some why \<Rightarrow> \<lparr>v_Decision = DecisionTranscode, v_Reason = why, v_MaxBitrateKbps = c_Kbps bc\<rparr>
               | None \<Rightarrow> v);
         bc1 = withQuality (sk_Quality user) f bc
     in (if v_Decision v1 \<noteq> DecisionTranscode \<and> overQuality (sk_Quality user) f
         then \<lparr>v_Decision = DecisionTranscode, v_Reason = ''quality_profile'', v_MaxBitrateKbps = c_Kbps bc1\<rparr> else v1, bc1))"

definition no_streamCap :: streamCap where
  "no_streamCap = \<lparr>c_Kbps = 0, c_Remote = False, c_RemoteBinding = False, c_QualityBinding = False, c_RemoteLimited = False\<rparr>"

definition source_verdict :: "StreamCaps \<Rightarrow> RemoteStreamPolicy \<Rightarrow> bool \<Rightarrow> ClientCapabilities \<Rightarrow> ServerCaps
    \<Rightarrow> MediaFile \<Rightarrow> bool \<Rightarrow> bool \<Rightarrow> Verdict \<times> streamCap" where
  "source_verdict user policy local caps0 srv f stacked damagedPart =
    (let caps = applyTo (sk_Quality user) caps0;
         d = stack_verdict (Decide (fl_meta f) caps srv) (fl_meta f) stacked damagedPart
     in if d = DecisionDirectPlay \<or> d = DecisionDirectStream \<or> (AcceptsOptimized caps \<and> wantsOptimized d)
        then limit_verdict user policy local f (plain_verdict d) else (plain_verdict d, no_streamCap))"

text \<open>A pre-made version that may replace a transcode, and the file it is judged as.\<close>

record OptimizedVersion =
  ov_FileID :: string
  ov_Status :: string
  ov_Width :: int
  ov_Height :: int
  ov_BitrateKbps :: int
  ov_DurationMS :: int

definition optimizedAsFile :: "OptimizedVersion \<Rightarrow> MediaFile" where
  "optimizedAsFile v =
    (let size = (ov_Width v > 0 \<and> ov_Height v > 0) in
     \<lparr>fl_meta = \<lparr>mf_Container = Some ''mp4'', mf_VideoCodec = Some ''h264'', mf_AudioCodec = Some ''aac'',
        mf_ResolutionW = (if size then Some (ov_Width v) else None), mf_ResolutionH = (if size then Some (ov_Height v) else None),
        mf_HDRType = None, mf_DVProfile = None, mf_AudioStreams = Some [\<lparr>as_Codec = ''aac'', as_Channels = 2\<rparr>],
        mf_VideoBitDepth = Some 8, mf_VideoProfile = None, mf_VideoLevel = None, mf_IntegrityStatus = []\<rparr>,
      fl_Bitrate = (if ov_BitrateKbps v > 0 then Some (ov_BitrateKbps v * 1000) else None), fl_FrameRate = None,
      fl_DurationMS = (if ov_DurationMS v > 0 then Some (ov_DurationMS v) else None), fl_FilePath = []\<rparr>)"

definition version_fits :: "string \<Rightarrow> ClientCapabilities \<Rightarrow> ServerCaps \<Rightarrow> int \<Rightarrow> OptimizedVersion \<Rightarrow> bool" where
  "version_fits source caps srv capKbps v \<longleftrightarrow> ov_FileID v = source \<and> ov_Status v = ''ready''
     \<and> \<not> (capKbps > 0 \<and> ov_BitrateKbps v > capKbps) \<and> Decide (fl_meta (optimizedAsFile v)) caps srv = DecisionDirectPlay"

definition pickOptimizedVersion :: "OptimizedVersion list \<Rightarrow> string \<Rightarrow> ClientCapabilities \<Rightarrow> ServerCaps \<Rightarrow> int
    \<Rightarrow> OptimizedVersion option" where
  "pickOptimizedVersion vs source caps srv capKbps = find (version_fits source caps srv capKbps) vs"

text \<open>The whole answer: the verdict, and the version that is to be played instead with the source's own verdict.\<close>

definition endpoint :: "StreamCaps \<Rightarrow> RemoteStreamPolicy \<Rightarrow> bool \<Rightarrow> ClientCapabilities \<Rightarrow> ServerCaps \<Rightarrow> OptimizedVersion list
    \<Rightarrow> string \<Rightarrow> MediaFile \<Rightarrow> bool \<Rightarrow> bool \<Rightarrow> Verdict \<times> (OptimizedVersion \<times> Verdict) option" where
  "endpoint user policy local caps0 srv versions source f stacked damagedPart =
    (let caps = applyTo (sk_Quality user) caps0;
         (v, bc) = source_verdict user policy local caps0 srv f stacked damagedPart
     in if \<not> AcceptsOptimized caps \<or> \<not> wantsOptimized (v_Decision v) then (v, None)
        else case pickOptimizedVersion versions source caps srv (c_Kbps bc) of
            None \<Rightarrow> (v, None)
          | Some ov \<Rightarrow> (\<lparr>v_Decision = DecisionDirectPlay, v_Reason = ''optimized_version'', v_MaxBitrateKbps = 0\<rparr>,
                       Some (ov, v)))"

section \<open>The gate of the direct stream route\<close>

text \<open>
  \<open>DirectPlayGate\<close>: the limits of users and the internet policy it has read, each with the time, and the
  file check.  Times are nanoseconds.  \<open>caps\<close> is what \<open>GetStreamCaps\<close> answers now (\<^const>\<open>None\<close> for an
  error), \<open>policy\<close> the current internet policy.
\<close>

record DirectPlayGate =
  dg_users :: "(string \<times> StreamCaps \<times> int) list"
  dg_pol :: RemoteStreamPolicy
  dg_polAt :: "int option"

definition gateMemoTTL :: int where
  "gateMemoTTL = 10 * 10 ^ 9"

definition gate_userCaps :: "int \<Rightarrow> (string \<Rightarrow> StreamCaps option) \<Rightarrow> string \<Rightarrow> DirectPlayGate \<Rightarrow> DirectPlayGate \<times> StreamCaps" where
  "gate_userCaps now caps user g =
    (case map_of (dg_users g) user of
       Some (c, t) \<Rightarrow> if now - t < gateMemoTTL then (g, c)
                       else (case caps user of None \<Rightarrow> (g, no_caps)
                             | Some c \<Rightarrow> (g\<lparr>dg_users := AList.update user (c, now) (if length (dg_users g) > 4096 then [] else dg_users g)\<rparr>, c))
     | None \<Rightarrow> (case caps user of None \<Rightarrow> (g, no_caps)
               | Some c \<Rightarrow> (g\<lparr>dg_users := AList.update user (c, now) (if length (dg_users g) > 4096 then [] else dg_users g)\<rparr>, c)))"

definition gate_policy :: "int \<Rightarrow> RemoteStreamPolicy \<Rightarrow> DirectPlayGate \<Rightarrow> DirectPlayGate \<times> RemoteStreamPolicy" where
  "gate_policy now policy g =
    (case dg_polAt g of
       Some t \<Rightarrow> if now - t < gateMemoTTL then (g, dg_pol g) else (g\<lparr>dg_pol := policy, dg_polAt := Some now\<rparr>, policy)
     | None \<Rightarrow> (g\<lparr>dg_pol := policy, dg_polAt := Some now\<rparr>, policy))"

datatype GateAnswer = Passes | FileDamaged | TranscodeRequired

definition file_blocked :: "StreamCaps \<Rightarrow> RemoteStreamPolicy \<Rightarrow> bool \<Rightarrow> MediaFile \<Rightarrow> bool" where
  "file_blocked user policy local f \<longleftrightarrow>
     remoteDecisionOverride (effectiveStreamCap user policy (\<not> local) True) f \<noteq> None
     \<or> overQuality (sk_Quality user) f \<or> overResolution (sk_Quality user) f"

definition Blocks :: "int \<Rightarrow> (string \<Rightarrow> StreamCaps option) \<Rightarrow> RemoteStreamPolicy \<Rightarrow> (RemoteStreamPolicy \<Rightarrow> bool)
    \<Rightarrow> string \<Rightarrow> MediaFile \<Rightarrow> DirectPlayGate \<Rightarrow> DirectPlayGate \<times> GateAnswer" where
  "Blocks now caps policy local user f g =
    (if \<not> has_video f then (g, Passes)
     else if mf_IntegrityStatus (fl_meta f) = ''damaged'' then (g, FileDamaged)
     else let (g1, c) = gate_userCaps now caps user g; (g2, p) = gate_policy now policy g1 in
       (g2, if file_blocked c p (local p) f then TranscodeRequired else Passes))"

section \<open>The cap is the lowest limit that applies\<close>

definition applying :: "StreamCaps \<Rightarrow> RemoteStreamPolicy \<Rightarrow> bool \<Rightarrow> MediaFile \<Rightarrow> int set" where
  "applying user policy local f = {l. 0 < l \<and>
     (l = sk_BitrateKbps user
      \<or> has_video f \<and> l = q_MaxVideoBitrateKbps (sk_Quality user)
      \<or> has_video f \<and> \<not> local \<and> (l = sk_RemoteBitrateKbps user \<or> l = rp_MaxBitrateKbps policy))}"

definition lowest :: "int \<Rightarrow> int set \<Rightarrow> bool" where
  "lowest k L \<longleftrightarrow> (if k = 0 then L = {} else k \<in> L \<and> (\<forall>l \<in> L. k \<le> l))"

lemma limit_step_lowest:
  assumes "lowest (c_Kbps c) L" "\<forall>l \<in> L. 0 < l"
  shows "lowest (c_Kbps (limit_step r c)) (L \<union> {l. 0 < l \<and> l = r})"
  using assms by (auto simp: lowest_def limit_step_def Let_def split: if_splits)

lemma limit_step_limited: "c_RemoteLimited (limit_step r c) \<longleftrightarrow> 0 < r \<or> c_RemoteLimited c"
  by (simp add: limit_step_def Let_def)

lemma withQuality_lowest:
  assumes "lowest (c_Kbps c) L" "\<forall>l \<in> L. 0 < l"
  shows "lowest (c_Kbps (withQuality q f c)) (L \<union> {l. 0 < l \<and> has_video f \<and> l = q_MaxVideoBitrateKbps q})"
  using assms by (auto simp: lowest_def withQuality_def split: if_splits)

text \<open>
  The bitrate a request is held to is the lowest of the limits that apply to it: the
  user's cap, the viewer's own video bitrate, and outside the home network the user's and the server's
  internet limits, the last three for video only; 0 when none applies.  The internet limit is named as the
  reason only when it lowered the user's cap.
\<close>

theorem streamCap_lowest:
  assumes "0 \<le> sk_BitrateKbps user"
  shows "lowest (c_Kbps (withQuality (sk_Quality user) f (resolveStreamCap user policy local f))) (applying user policy local f)
    \<and> (c_RemoteBinding (resolveStreamCap user policy local f) \<longleftrightarrow>
         \<not> local \<and> has_video f \<and> (\<exists>r \<in> {sk_RemoteBitrateKbps user, rp_MaxBitrateKbps policy}.
            0 < r \<and> (sk_BitrateKbps user = 0 \<or> r < sk_BitrateKbps user)))"
proof -
  define c where "c = \<lparr>c_Kbps = sk_BitrateKbps user, c_Remote = \<not> local, c_RemoteBinding = False, c_QualityBinding = False,
              c_RemoteLimited = False\<rparr>"
  let ?L = "{l. 0 < l \<and> l = sk_BitrateKbps user}"
  have c: "lowest (c_Kbps c) ?L" using assms by (auto simp: lowest_def c_def)
  have r: "resolveStreamCap user policy local f =
      (if local \<or> \<not> has_video f then c else limit_step (rp_MaxBitrateKbps policy) (limit_step (sk_RemoteBitrateKbps user) c))"
    by (simp add: resolveStreamCap_def effectiveStreamCap_def c_def)
  have "lowest (c_Kbps (withQuality (sk_Quality user) f (resolveStreamCap user policy local f))) (applying user policy local f)"
  proof (cases "local \<or> \<not> has_video f")
    case True
    then have "applying user policy local f = ?L \<union> {l. 0 < l \<and> has_video f \<and> l = q_MaxVideoBitrateKbps (sk_Quality user)}"
      by (auto simp: applying_def)
    then show ?thesis using withQuality_lowest [OF c, of "sk_Quality user" f] True by (simp add: r)
  next
    case False
    then have a: "applying user policy local f = ?L \<union> {l. 0 < l \<and> l = sk_RemoteBitrateKbps user}
        \<union> {l. 0 < l \<and> l = rp_MaxBitrateKbps policy} \<union> {l. 0 < l \<and> has_video f \<and> l = q_MaxVideoBitrateKbps (sk_Quality user)}"
      by (auto simp: applying_def)
    have "lowest (c_Kbps (limit_step (rp_MaxBitrateKbps policy) (limit_step (sk_RemoteBitrateKbps user) c)))
        (?L \<union> {l. 0 < l \<and> l = sk_RemoteBitrateKbps user} \<union> {l. 0 < l \<and> l = rp_MaxBitrateKbps policy})"
      by (intro limit_step_lowest c) auto
    then have "lowest (c_Kbps (withQuality (sk_Quality user) f (resolveStreamCap user policy local f)))
        (?L \<union> {l. 0 < l \<and> l = sk_RemoteBitrateKbps user} \<union> {l. 0 < l \<and> l = rp_MaxBitrateKbps policy}
          \<union> {l. 0 < l \<and> has_video f \<and> l = q_MaxVideoBitrateKbps (sk_Quality user)})"
      using False unfolding r by (intro withQuality_lowest) auto
    then show ?thesis by (simp only: a)
  qed
  moreover have "c_RemoteBinding (resolveStreamCap user policy local f) \<longleftrightarrow>
         \<not> local \<and> has_video f \<and> (\<exists>r \<in> {sk_RemoteBitrateKbps user, rp_MaxBitrateKbps policy}.
            0 < r \<and> (sk_BitrateKbps user = 0 \<or> r < sk_BitrateKbps user))"
    using assms unfolding r by (auto simp: c_def limit_step_def Let_def)
  ultimately show ?thesis by blast
qed

section \<open>The gate and the endpoint agree\<close>

lemma minPositive_exceeds: "b > 0 \<Longrightarrow> w \<le> b \<Longrightarrow> (minPositive a b > 0 \<and> w > minPositive a b) = (a > 0 \<and> w > a)"
  by (auto simp: minPositive_def)

lemma applyTo_fields:
  "cc_MaxWidth (applyTo q caps) = (if q_MaxVideoHeight q > 0 then minPositive (cc_MaxWidth caps) (go_div (q_MaxVideoHeight q * 16) 9) else cc_MaxWidth caps)"
  "cc_MaxHeight (applyTo q caps) = (if q_MaxVideoHeight q > 0 then minPositive (cc_MaxHeight caps) (q_MaxVideoHeight q) else cc_MaxHeight caps)"
  "\<exists>w h. applyTo q caps = caps\<lparr>cc_MaxHeight := h, cc_MaxWidth := w\<rparr>"
proof -
  have "caps = caps\<lparr>cc_MaxHeight := cc_MaxHeight caps, cc_MaxWidth := cc_MaxWidth caps\<rparr>" by simp
  then show "\<exists>w h. applyTo q caps = caps\<lparr>cc_MaxHeight := h, cc_MaxWidth := w\<rparr>" unfolding applyTo_def by metis
qed (simp_all add: applyTo_def)

lemma box_width: "q_MaxVideoHeight q > 0 \<Longrightarrow> go_div (q_MaxVideoHeight q * 16) 9 > 0"
  by (simp add: go_div_nonneg)

lemma too_large_applyTo: "\<not> overResolution q f \<Longrightarrow> too_large (fl_meta f) (applyTo q caps) = too_large (fl_meta f) caps"
  using minPositive_exceeds [OF box_width [of q], of "derefInt (mf_ResolutionW (fl_meta f))" "cc_MaxWidth caps"]
    minPositive_exceeds [of "q_MaxVideoHeight q" "derefInt (mf_ResolutionH (fl_meta f))" "cc_MaxHeight caps"]
  by (auto simp: too_large_def overResolution_def applyTo_fields Let_def)

lemma minPositive_bound: "b > 0 \<Longrightarrow> minPositive a b > 0 \<and> minPositive a b \<le> b"
  by (auto simp: minPositive_def)

lemma overResolution_too_large: "overResolution q f \<Longrightarrow> too_large (fl_meta f) (applyTo q caps)"
  using box_width [of q] minPositive_bound [of "q_MaxVideoHeight q" "cc_MaxHeight caps"]
    minPositive_bound [OF box_width, of q "cc_MaxWidth caps"]
  by (auto simp: overResolution_def too_large_def applyTo_fields Let_def)

text \<open>Beside the size test, no part of a decision looks at the client's display.\<close>

lemma checks_size:
  assumes "c = caps\<lparr>cc_MaxHeight := h, cc_MaxWidth := w\<rparr>"
  shows "SupportsDVProfile c = SupportsDVProfile caps" "PlanDolbyVision f c = PlanDolbyVision f caps"
    "clientSupportsHDR c = clientSupportsHDR caps" "too_deep f c = too_deep f caps" "videoLimitExceeded f c = videoLimitExceeded f caps"
    "client_supports_video f c = client_supports_video f caps" "client_supports_audio f c = client_supports_audio f caps"
    "client_supports_container f c = client_supports_container f caps"
  unfolding assms
  by (auto simp: SupportsDVProfile_def PlanDolbyVision_def clientSupportsHDR_def too_deep_def videoLimitExceeded_def
      VideoLimitFor_def client_supports_video_def SupportsVideoCodec_def client_supports_audio_def SupportsAudioCodec_def
      channels_fit_def PassesThroughAudio_def client_supports_container_def SupportsContainer_def Let_def fun_eq_iff
      split: option.splits)

lemma Decide_applyTo: "\<not> overResolution q f \<Longrightarrow> Decide (fl_meta f) (applyTo q caps) srv = Decide (fl_meta f) caps srv"
proof -
  assume o: "\<not> overResolution q f"
  obtain w h where a: "applyTo q caps = caps\<lparr>cc_MaxHeight := h, cc_MaxWidth := w\<rparr>" using applyTo_fields(3) by blast
  show ?thesis by (simp only: Decide_def decide_def too_large_applyTo [OF o] checks_size [OF a])
qed

lemma Decide_too_large: "too_large f caps \<Longrightarrow> Decide f caps srv \<notin> {DecisionDirectPlay, DecisionDirectStream}"
  by (auto simp: Decide_def decide_def Let_def)

lemma stack_direct:
  "stack_verdict d f stacked damaged \<in> {DecisionDirectPlay, DecisionDirectStream} \<Longrightarrow> d \<in> {DecisionDirectPlay, DecisionDirectStream}"
  by (auto simp: stack_verdict_def ForStack_def Let_def split: if_splits)
text \<open>
  C15 (equivalence).  The gate of the direct stream route and the decision endpoint agree for every
  client and file with a picture: a file the gate refuses gets no direct verdict from the endpoint, and for one it lets
  through the limits change nothing: the endpoint's verdict is the device's own.
\<close>

theorem gate_agrees:
  assumes "has_video f" and v: "v = fst (source_verdict user policy local caps srv f stacked damagedPart)"
  shows "(file_blocked user policy local f \<longrightarrow> v_Decision v \<notin> {DecisionDirectPlay, DecisionDirectStream})
    \<and> (\<not> file_blocked user policy local f \<longrightarrow>
         v = plain_verdict (stack_verdict (Decide (fl_meta f) caps srv) (fl_meta f) stacked damagedPart))"
proof -
  define d where "d = stack_verdict (Decide (fl_meta f) (applyTo (sk_Quality user) caps) srv) (fl_meta f) stacked damagedPart"
  have r: "resolveStreamCap user policy local f = effectiveStreamCap user policy (\<not> local) True"
    using assms(1) by (simp add: resolveStreamCap_def)
  have e: "v = (if d = DecisionDirectPlay \<or> d = DecisionDirectStream \<or> (AcceptsOptimized (applyTo (sk_Quality user) caps) \<and> wantsOptimized d)
        then fst (limit_verdict user policy local f (plain_verdict d)) else plain_verdict d)"
    by (simp add: v source_verdict_def Let_def d_def)
  have "v_Decision v \<notin> {DecisionDirectPlay, DecisionDirectStream}" if b: "file_blocked user policy local f"
  proof (cases "overResolution (sk_Quality user) f")
    case True
    then have "d \<notin> {DecisionDirectPlay, DecisionDirectStream}"
      using stack_direct Decide_too_large [OF overResolution_too_large [OF True]] unfolding d_def by blast
    then show ?thesis unfolding e
      by (auto simp: limit_verdict_def Let_def plain_verdict_def wantsOptimized_def)
  next
    case False
    then show ?thesis using b unfolding e
      by (auto simp: limit_verdict_def Let_def plain_verdict_def wantsOptimized_def file_blocked_def r split: option.splits)
  qed
  moreover have "v = plain_verdict (stack_verdict (Decide (fl_meta f) caps srv) (fl_meta f) stacked damagedPart)"
    if b: "\<not> file_blocked user policy local f"
  proof -
    have "d = stack_verdict (Decide (fl_meta f) caps srv) (fl_meta f) stacked damagedPart"
      using b by (simp add: d_def file_blocked_def Decide_applyTo)
    then show ?thesis using b unfolding e
      by (auto simp: limit_verdict_def Let_def plain_verdict_def file_blocked_def r)
  qed
  ultimately show ?thesis by blast
qed

section \<open>How stale the gate's limits may be\<close>

text \<open>
  Requests reach the gate one after another with clocks that do not run back; \<open>capsAt\<close> and \<open>polAt\<close> are what
  the store answers at each time.
\<close>

definition new_gate :: DirectPlayGate where
  "new_gate = \<lparr>dg_users = [], dg_pol = \<lparr>rp_MaxBitrateKbps = 0, rp_LocalNetworks = []\<rparr>, dg_polAt = None\<rparr>"

inductive gate_reach :: "(int \<Rightarrow> string \<Rightarrow> StreamCaps option) \<Rightarrow> (int \<Rightarrow> RemoteStreamPolicy) \<Rightarrow> int \<Rightarrow> DirectPlayGate \<Rightarrow> bool"
  for capsAt polAt where
  start: "gate_reach capsAt polAt t new_gate"
| request: "gate_reach capsAt polAt t g \<Longrightarrow> t \<le> now \<Longrightarrow>
     gate_reach capsAt polAt now (fst (Blocks now (capsAt now) (polAt now) local user f g))"

definition gate_inv :: "(int \<Rightarrow> string \<Rightarrow> StreamCaps option) \<Rightarrow> (int \<Rightarrow> RemoteStreamPolicy) \<Rightarrow> int \<Rightarrow> DirectPlayGate \<Rightarrow> bool" where
  "gate_inv capsAt polAt now g \<longleftrightarrow>
     (\<forall>u c t. map_of (dg_users g) u = Some (c, t) \<longrightarrow> t \<le> now \<and> capsAt t u = Some c)
     \<and> (\<forall>t. dg_polAt g = Some t \<longrightarrow> t \<le> now \<and> polAt t = dg_pol g)"

definition recent :: "int \<Rightarrow> (int \<Rightarrow> bool) \<Rightarrow> bool" where
  "recent now P \<longleftrightarrow> (\<exists>t. now - gateMemoTTL < t \<and> t \<le> now \<and> P t)"

lemma recent_now: "P now \<Longrightarrow> recent now P"
  unfolding recent_def gateMemoTTL_def by (rule exI [of _ now]) simp

lemma gate_inv_later: "gate_inv capsAt polAt t g \<Longrightarrow> t \<le> now \<Longrightarrow> gate_inv capsAt polAt now g"
  by (fastforce simp: gate_inv_def)

lemma gate_userCaps_step:
  assumes "gate_inv capsAt polAt now g" "gate_userCaps now (capsAt now) user g = (g', c)"
  shows "gate_inv capsAt polAt now g' \<and> (capsAt now user = None \<and> c = no_caps \<or> recent now (\<lambda>t. capsAt t user = Some c))"
proof -
  have read: ?thesis
    if "(case capsAt now user of None \<Rightarrow> (g, no_caps)
          | Some c \<Rightarrow> (g\<lparr>dg_users := AList.update user (c, now) (if length (dg_users g) > 4096 then [] else dg_users g)\<rparr>, c)) = (g', c)"
    using that assms(1) recent_now [of "\<lambda>t. capsAt t user = Some c" now]
    by (auto simp: gate_inv_def update_conv split: option.splits if_splits)
  show ?thesis
  proof (cases "map_of (dg_users g) user")
    case None
    then show ?thesis using assms(2) by (intro read) (simp add: gate_userCaps_def)
  next
    case (Some e)
    obtain d t where e: "e = (d, t)" by (cases e)
    show ?thesis
    proof (cases "now - t < gateMemoTTL")
      case True
      have "t \<le> now" "capsAt t user = Some d" using assms(1) Some e unfolding gate_inv_def by blast+
      moreover have "g' = g" "c = d" using assms(2) True Some e by (simp_all add: gate_userCaps_def)
      ultimately show ?thesis using assms(1) True unfolding recent_def by (intro conjI disjI2 exI [of _ t]) auto
    next
      case False
      then show ?thesis using assms(2) Some e by (intro read) (simp add: gate_userCaps_def)
    qed
  qed
qed

lemma gate_policy_step:
  assumes "gate_inv capsAt polAt now g" "gate_policy now (polAt now) g = (g', p)"
  shows "gate_inv capsAt polAt now g' \<and> recent now (\<lambda>t. polAt t = p)"
proof (cases "dg_polAt g")
  case None
  then show ?thesis using assms recent_now [of "\<lambda>t. polAt t = p" now] by (auto simp: gate_policy_def gate_inv_def)
next
  case (Some t)
  show ?thesis
  proof (cases "now - t < gateMemoTTL")
    case True
    then have "g' = g" "p = dg_pol g" "t \<le> now" "polAt t = dg_pol g" using assms Some by (auto simp: gate_policy_def gate_inv_def)
    then show ?thesis using assms(1) True unfolding recent_def by (intro conjI exI [of _ t]) auto
  next
    case False
    then show ?thesis using assms Some recent_now [of "\<lambda>t. polAt t = p" now] by (auto simp: gate_policy_def gate_inv_def)
  qed
qed

lemma Blocks_step:
  assumes "gate_inv capsAt polAt now g" "Blocks now (capsAt now) (polAt now) local user f g = (g', ans)"
  shows "gate_inv capsAt polAt now g' \<and> (has_video f \<and> mf_IntegrityStatus (fl_meta f) \<noteq> ''damaged'' \<longrightarrow>
    (\<exists>c p. ans = (if file_blocked c p (local p) f then TranscodeRequired else Passes)
      \<and> (capsAt now user = None \<and> c = no_caps \<or> recent now (\<lambda>t. capsAt t user = Some c))
      \<and> recent now (\<lambda>t. polAt t = p)))"
proof (cases "has_video f \<and> mf_IntegrityStatus (fl_meta f) \<noteq> ''damaged''")
  case True
  obtain g1 c where c: "gate_userCaps now (capsAt now) user g = (g1, c)" by fastforce
  obtain g2 p where p: "gate_policy now (polAt now) g1 = (g2, p)" by fastforce
  have "g' = g2" "ans = (if file_blocked c p (local p) f then TranscodeRequired else Passes)"
    using assms(2) True c p by (simp_all add: Blocks_def)
  moreover have "gate_inv capsAt polAt now g1" using gate_userCaps_step [OF assms(1) c] by blast
  ultimately show ?thesis using gate_userCaps_step [OF assms(1) c] gate_policy_step [of capsAt polAt now g1 g2 p] p by blast
next
  case False
  then show ?thesis using assms by (cases "has_video f") (auto simp: Blocks_def)
qed

lemma gate_reach_inv: "gate_reach capsAt polAt t g \<Longrightarrow> gate_inv capsAt polAt t g"
proof (induction rule: gate_reach.induct)
  case (start t)
  then show ?case by (simp add: gate_inv_def new_gate_def)
next
  case (request t g now local user f)
  obtain g' ans where b: "Blocks now (capsAt now) (polAt now) local user f g = (g', ans)" by fastforce
  then show ?case using Blocks_step [OF gate_inv_later [OF request.IH request.hyps(2)] b] by simp
qed

text \<open>
  Whatever was asked of the gate before, it answers for limits and an internet policy
  that were in force within the last ten seconds; only when the limits cannot be read now and none of that
  age are kept does it go on without any.
\<close>

theorem gate_fresh:
  assumes "gate_reach capsAt polAt t g" "t \<le> now" "has_video f" "mf_IntegrityStatus (fl_meta f) \<noteq> ''damaged''"
  shows "\<exists>c p. snd (Blocks now (capsAt now) (polAt now) local user f g)
        = (if file_blocked c p (local p) f then TranscodeRequired else Passes)
      \<and> (capsAt now user = None \<and> c = no_caps \<or> (\<exists>s. now - 10000000000 < s \<and> s \<le> now \<and> capsAt s user = Some c))
      \<and> (\<exists>s. now - 10000000000 < s \<and> s \<le> now \<and> polAt s = p)"
proof -
  obtain g' ans where b: "Blocks now (capsAt now) (polAt now) local user f g = (g', ans)" by fastforce
  then show ?thesis
    using Blocks_step [OF gate_inv_later [OF gate_reach_inv [OF assms(1)] assms(2)] b] assms(3,4)
    by (simp add: recent_def gateMemoTTL_def)
qed

section \<open>A film and its viewers\<close>

text \<open>A 4K film of 25 Mbps, a server with an internet limit of 8 Mbps, a viewer who asked for 720p at most.\<close>

definition big_film :: MediaFile where
  "big_film = \<lparr>fl_meta = sample_file, fl_Bitrate = Some 25000000, fl_FrameRate = Some 24, fl_DurationMS = Some 7200000,
     fl_FilePath = ''/films/big.mkv''\<rparr>"

definition eight_mbps :: RemoteStreamPolicy where
  "eight_mbps = \<lparr>rp_MaxBitrateKbps = 8000, rp_LocalNetworks = []\<rparr>"

definition hd_viewer :: StreamCaps where
  "hd_viewer = no_caps\<lparr>sk_BitrateKbps := 12000,
     sk_Quality := \<lparr>q_MaxVideoBitrateKbps = 0, q_MaxVideoHeight = 720, q_MaxAudioBitrateKbps = 0, q_PreferredVideoCodec = []\<rparr>\<rparr>"

theorem streamCap_lowest_witness:
  "c_Kbps (withQuality (sk_Quality hd_viewer) big_film (resolveStreamCap hd_viewer eight_mbps False big_film)) = 8000
   \<and> lowest 8000 (applying hd_viewer eight_mbps False big_film)
   \<and> c_RemoteBinding (resolveStreamCap hd_viewer eight_mbps False big_film)"
proof -
  have v: "c_Kbps (withQuality (sk_Quality hd_viewer) big_film (resolveStreamCap hd_viewer eight_mbps False big_film)) = 8000"
    "0 \<le> sk_BitrateKbps hd_viewer" "has_video big_film" "0 < rp_MaxBitrateKbps eight_mbps"
    "rp_MaxBitrateKbps eight_mbps < sk_BitrateKbps hd_viewer" by code_simp+
  show ?thesis using streamCap_lowest [OF v(2), of big_film eight_mbps False] v by auto
qed

theorem gate_agrees_witness:
  "v_Decision (fst (source_verdict hd_viewer eight_mbps True sample_caps sample_server big_film False False))
     \<notin> {DecisionDirectPlay, DecisionDirectStream}
   \<and> v_Decision (fst (source_verdict no_caps eight_mbps True sample_caps sample_server big_film False False)) = DecisionDirectStream"
proof -
  have f: "has_video big_film" "file_blocked hd_viewer eight_mbps True big_film" "\<not> file_blocked no_caps eight_mbps True big_film"
    "Decide (fl_meta big_film) sample_caps sample_server = DecisionDirectStream"
    by code_simp+
  show ?thesis
    using gate_agrees [OF f(1) refl, of hd_viewer eight_mbps True sample_caps sample_server False False]
      gate_agrees [OF f(1) refl, of no_caps eight_mbps True sample_caps sample_server False False] f
    by (simp add: plain_verdict_def stack_verdict_def)
qed

text \<open>A gate that has read the viewer's ceiling refuses the film five seconds later.\<close>

theorem gate_fresh_witness:
  "snd (Blocks 6000000000 (\<lambda>_. Some hd_viewer) eight_mbps (\<lambda>_. True) ''ann'' big_film
        (fst (Blocks 1000000000 (\<lambda>_. Some hd_viewer) eight_mbps (\<lambda>_. True) ''ann'' big_film new_gate))) = TranscodeRequired"
proof -
  have r: "gate_reach (\<lambda>_ _. Some hd_viewer) (\<lambda>_. eight_mbps) 1000000000
      (fst (Blocks 1000000000 (\<lambda>_. Some hd_viewer) eight_mbps (\<lambda>_. True) ''ann'' big_film new_gate))"
    using gate_reach.request [OF gate_reach.start [of "\<lambda>_ _. Some hd_viewer" "\<lambda>_. eight_mbps" 0], of 1000000000 "\<lambda>_. True" "''ann''" big_film] by simp
  have f: "has_video big_film" "mf_IntegrityStatus (fl_meta big_film) \<noteq> ''damaged''" "file_blocked hd_viewer eight_mbps True big_film"
    by code_simp+
  show ?thesis using gate_fresh [OF r _ f(1,2), of 6000000000 "\<lambda>_. True" "''ann''"] f(3) by auto
qed

end
