(* ===== verification/StartJob.thy ===== *)
theory StartJob
  imports StreamCap Sessions Dispatch
begin

text \<open>
  Starting a playback (\<open>NativeTranscodeHandler.Start\<close> of \<open>internal/api/v1/transcode.go\<close>, with
  \<open>transcode_passthrough.go\<close>): from the chosen file to the session and the job a worker gets, or the ABR
  ladder, or the refusal.  What the handler asks of others is an argument: whether some worker has a
  feature, the keyframe before a position, what the source check found.

  The checks before a file is chosen (who may see the item, the parental limits, an admin's stop) and
  the texts shown on Now Playing are left out.
\<close>

section \<open>The request and what it is answered from\<close>

record StartBody =
  bd_Height :: int
  bd_PositionMS :: int
  bd_VideoCopy :: bool
  bd_AudioStreamIndex :: "int option"
  bd_SupportsHEVC :: "bool option"
  bd_SupportsAV1 :: "bool option"
  bd_SegmentContainer :: string
  bd_AudioRate :: "rat option"
  bd_BurnSubtitleStreamIndex :: "int option"

record StartCfg =
  cf_MaxBitrate :: int
  cf_MaxWidth :: int
  cf_MaxHeight :: int
  cf_ABR :: bool
  cf_ABRAutoMaxHeight :: int
  cf_ABRMaxHeight :: int

text \<open>
  One file the session reads, as the gates find it; \<open>ss_Reference\<close> and \<open>ss_Verify\<close> are the answers of
  \<open>refuseReferenceContainer\<close> and \<open>VerifySource\<close>.
\<close>

datatype SourceStatus = SourceOK | SourceUnverified | SourceMissingFile | SourceUnreadableFile | SourceUnsafe

record SourceCheck =
  ss_Damaged :: bool
  ss_Reference :: bool
  ss_Verify :: SourceStatus

record ProbeResult =
  pr_VideoCodec :: "string option"
  pr_ResolutionW :: "int option"
  pr_ResolutionH :: "int option"
  pr_HDRType :: "string option"
  pr_Bitrate :: "int option"

datatype ProbeAnswer = ProbeUnsafe | ProbeFailed | Probed ProbeResult

text \<open>
  The environment of one request.  \<open>en_Parts\<close> are the parts of a stacked movie with their source URLs, empty
  for a lone file; \<open>en_Direct\<close> and \<open>en_Active\<close> the viewer's direct plays on other devices and live sessions
  (\<^const>\<open>None\<close> when the count fails), \<open>en_Reference\<close> and \<open>en_Probe\<close> the container check and the probe of
  the file at the re-probe.
\<close>

record StartEnv =
  en_Cfg :: StartCfg
  en_Caps :: StreamCaps
  en_Policy :: RemoteStreamPolicy
  en_Local :: bool
  en_Header :: string
  en_Feature :: "string \<Rightarrow> bool"
  en_CanEncode :: "string \<Rightarrow> bool"
  en_Static :: bool
  en_Subtitles :: "(int \<times> string) list"
  en_BurnOffset :: "int \<Rightarrow> int"
  en_Sources :: "SourceCheck list"
  en_Direct :: int
  en_Active :: "nat option"
  en_Reference :: bool
  en_Probe :: ProbeAnswer
  en_Keyframe :: "rat \<Rightarrow> rat"
  en_SessionID :: string
  en_UserID :: string
  en_ItemID :: string
  en_SourceURL :: string
  en_Parts :: "SourcePart list"
  en_Now :: int

datatype StartError =
    HeightNegative | HeightTooLarge | AudioIndexOutOfRange
  | InvalidSubtitleStream | SubtitleNotImage | BurnInUnsupported | BurnInUnavailable
  | StartFileDamaged | UnsupportedContainer | SourceMissing | SourceUnreadable
  | TooManySessions | DolbyVisionUnsupported

definition feature_dv_tonemap :: string where
  "feature_dv_tonemap = ''dolby_vision_p5_tonemap''"

definition clientCaps :: "string \<Rightarrow> StartBody \<Rightarrow> ClientCapabilities \<times> bool" where
  "clientCaps raw body =
    (let c0 = ParseCapabilities raw;
         c1 = (case bd_SupportsHEVC body of Some b \<Rightarrow> c0\<lparr>SupportsHEVC := b\<rparr> | None \<Rightarrow> c0);
         c2 = (case bd_SupportsAV1 body of Some b \<Rightarrow> c1\<lparr>SupportsAV1 := b\<rparr> | None \<Rightarrow> c1)
     in (c2, raw \<noteq> []))"

section \<open>Gates before anything is touched\<close>

definition IsImageBased :: "string \<Rightarrow> bool" where
  "IsImageBased codec \<longleftrightarrow> ToLower (TrimSpace codec) \<in>
     {''hdmv_pgs_subtitle'', ''dvd_subtitle'', ''dvb_subtitle'', ''xsub'', ''pgssub''}"

definition burnInRefusal :: "(int \<times> string) list \<Rightarrow> bool \<Rightarrow> int \<Rightarrow> StartError option" where
  "burnInRefusal subs stacked idx =
    (case find (\<lambda>s. fst s = idx) subs of
       None \<Rightarrow> Some InvalidSubtitleStream
     | Some (_, codec) \<Rightarrow>
         if \<not> IsImageBased codec then Some SubtitleNotImage
         else if stacked then Some BurnInUnsupported else None)"

text \<open>The audio track (-1 leaves it to ffmpeg) and the subtitle to burn in.\<close>

definition audio_index :: "StartBody \<Rightarrow> MediaFile \<Rightarrow> StartError + int" where
  "audio_index body f =
    (case bd_AudioStreamIndex body of
       Some i \<Rightarrow> if i \<ge> 0
         then (let n = SourceAudioStreamCount (mf_AudioStreams (fl_meta f)) in
               if n > 0 \<and> i \<ge> n then Inl AudioIndexOutOfRange else Inr i)
         else Inr (- 1)
     | None \<Rightarrow> Inr (- 1))"

definition burn_request :: "StartEnv \<Rightarrow> StartBody \<Rightarrow> StartError + SubtitleBurn option" where
  "burn_request en body =
    (case bd_BurnSubtitleStreamIndex body of
       None \<Rightarrow> Inr None
     | Some idx \<Rightarrow>
         (case burnInRefusal (en_Subtitles en) (en_Parts en \<noteq> []) idx of
            Some e \<Rightarrow> Inl e
          | None \<Rightarrow> if \<not> en_Feature en ''burn_in_subtitles'' then Inl BurnInUnavailable
                    else Inr (Some \<lparr>sb_StreamIndex = idx, sb_OffsetMS = en_BurnOffset en idx\<rparr>)))"

fun source_gate :: "SourceCheck list \<Rightarrow> StartError option" where
  "source_gate [] = None"
| "source_gate (s # rest) =
    (if ss_Damaged s then Some StartFileDamaged
     else if ss_Reference s then Some UnsupportedContainer
     else case ss_Verify s of
         SourceMissingFile \<Rightarrow> Some SourceMissing
       | SourceUnreadableFile \<Rightarrow> Some SourceUnreadable
       | SourceUnsafe \<Rightarrow> Some UnsupportedContainer
       | _ \<Rightarrow> source_gate rest)"

text \<open>The number of sessions the viewer may have, less the direct plays; \<open>Inl\<close> when none is left.\<close>

definition session_cap :: "StartEnv \<Rightarrow> StartError + int" where
  "session_cap en =
    (let limit = sk_ConcurrentStreams (en_Caps en) in
     case (if limit > 0 then if en_Direct en \<ge> limit then Inl TooManySessions else Inr (limit - en_Direct en) else Inr 5) of
       Inl e \<Rightarrow> Inl e
     | Inr n \<Rightarrow> (case en_Active en of Some a \<Rightarrow> if int a \<ge> n then Inl TooManySessions else Inr n | None \<Rightarrow> Inr n))"

text \<open>\<open>lazyReprobe\<close>: what the scan left empty is filled in, and nothing else.\<close>

definition fill :: "'a option \<Rightarrow> 'a option \<Rightarrow> 'a option" where
  "fill old new = (if old = None then new else old)"

definition lazyReprobe :: "StartEnv \<Rightarrow> MediaFile \<Rightarrow> StartError + MediaFile" where
  "lazyReprobe en f =
    (let m = fl_meta f in
     if en_Reference en then Inl UnsupportedContainer
     else if mf_VideoCodec m \<noteq> None \<and> mf_ResolutionW m \<noteq> None \<and> mf_ResolutionH m \<noteq> None then Inr f
     else case en_Probe en of
         ProbeUnsafe \<Rightarrow> Inl UnsupportedContainer
       | ProbeFailed \<Rightarrow> Inr f
       | Probed r \<Rightarrow> Inr (f\<lparr>fl_meta := m\<lparr>mf_VideoCodec := fill (mf_VideoCodec m) (pr_VideoCodec r),
             mf_ResolutionW := fill (mf_ResolutionW m) (pr_ResolutionW r), mf_ResolutionH := fill (mf_ResolutionH m) (pr_ResolutionH r),
             mf_HDRType := fill (mf_HDRType m) (pr_HDRType r)\<rparr>,
           fl_Bitrate := fill (fl_Bitrate f) (pr_Bitrate r)\<rparr>))"

section \<open>Whether the picture is copied\<close>

definition tonemap_available :: "StartEnv \<Rightarrow> MediaFile \<Rightarrow> bool" where
  "tonemap_available en f \<longleftrightarrow> DVProfileKey (fl_meta f) = ''5'' \<and> en_Feature en feature_dv_tonemap"

text \<open>The Dolby Vision gate: the copy the request may still ask for.\<close>

definition dv_gate :: "StartEnv \<Rightarrow> StartBody \<Rightarrow> MediaFile \<Rightarrow> bool \<Rightarrow> StartError + bool" where
  "dv_gate en body f copy =
    (if EqualFold (deref (mf_HDRType (fl_meta f))) ''dolby_vision''
        \<and> \<not> SupportsDVProfile (fst (clientCaps (en_Header en) body)) ''5''
     then if \<not> tonemap_available en f then Inl DolbyVisionUnsupported else Inr False
     else Inr copy)"

definition bitrate_cap :: "StartEnv \<Rightarrow> MediaFile \<Rightarrow> streamCap" where
  "bitrate_cap en f = withQuality (sk_Quality (en_Caps en)) f
     (resolveStreamCap (en_Caps en) (en_Policy en) (en_Local en) f)"

definition start_caps :: "StartEnv \<Rightarrow> StartBody \<Rightarrow> ClientCapabilities" where
  "start_caps en body = applyTo (sk_Quality (en_Caps en)) (fst (clientCaps (en_Header en) body))"

text \<open>The copy that is left after the bitrate cap and the play decision.\<close>

definition copy_server :: "StartEnv \<Rightarrow> MediaFile \<Rightarrow> ServerCaps" where
  "copy_server en f = \<lparr>sc_MaxBitrateKbps = 0, sc_MaxWidth = 0, sc_MaxHeight = cf_MaxHeight (en_Cfg en),
     sc_DVConvert = False, sc_DVTonemap = tonemap_available en f\<rparr>"

definition video_copy :: "StartEnv \<Rightarrow> StartBody \<Rightarrow> MediaFile \<Rightarrow> bool \<Rightarrow> bool" where
  "video_copy en body f copy \<longleftrightarrow>
     copy \<and> \<not> overCap (bitrate_cap en f) f
     \<and> \<not> videoCopyRefused f (start_caps en body) (snd (clientCaps (en_Header en) body)) (sk_Quality (en_Caps en)) (copy_server en f)"

definition static_ladder :: "StartEnv \<Rightarrow> MediaFile \<Rightarrow> bool \<Rightarrow> SubtitleBurn option \<Rightarrow> bool" where
  "static_ladder en f copy burn \<longleftrightarrow> en_Static en \<and> cf_ABR (en_Cfg en) \<and> \<not> copy \<and> en_Parts en = [] \<and> burn = None
     \<and> \<not> overCap (bitrate_cap en f) f"

section \<open>The size and bitrate of a re-encode\<close>

definition make_even_up :: "int \<Rightarrow> int" where
  "make_even_up w = (if go_mod w 2 \<noteq> 0 then w + 1 else w)"

definition make_even_down :: "int \<Rightarrow> int" where
  "make_even_down w = (if go_mod w 2 \<noteq> 0 then w - 1 else w)"

text \<open>An explicit height is given the source's aspect, within the width that was chosen for it.\<close>

definition aspect_box :: "int \<Rightarrow> int \<Rightarrow> int \<times> int \<Rightarrow> int \<times> int" where
  "aspect_box sourceW sourceH box =
    (let ar = fdiv (of_int sourceW) (of_int sourceH);
         w = make_even_up (go_round (fmul (of_int (snd box)) ar))
     in if w > fst box
        then (let w1 = make_even_down (fst box) in (w1, make_even_up (go_round (fdiv (of_int w1) ar))))
        else (w, snd box))"

text \<open>The height and width asked of \<open>SelectQuality\<close>: the request, the display and the size a capped bitrate affords.\<close>

definition asked_height :: "StartBody \<Rightarrow> ClientCapabilities \<Rightarrow> int \<Rightarrow> int" where
  "asked_height body caps kbps =
    (let h = (if cc_MaxHeight caps > 0 \<and> (bd_Height body = 0 \<or> bd_Height body > cc_MaxHeight caps)
              then cc_MaxHeight caps else bd_Height body);
         fit = qp_MaxHeight (ProfileForBitrate kbps)
     in if kbps > 0 \<and> (h = 0 \<or> h > fit) then fit else h)"

definition asked_width :: "ClientCapabilities \<Rightarrow> int \<Rightarrow> int" where
  "asked_width caps kbps =
    (let fit = qp_MaxWidth (ProfileForBitrate kbps) in
     if kbps > 0 \<and> (cc_MaxWidth caps = 0 \<or> cc_MaxWidth caps > fit) then fit else cc_MaxWidth caps)"

definition max_bitrate :: "StartEnv \<Rightarrow> int \<Rightarrow> int" where
  "max_bitrate en kbps = (if kbps > 0 \<and> kbps < cf_MaxBitrate (en_Cfg en) then kbps else cf_MaxBitrate (en_Cfg en))"

definition chosen_quality :: "StartEnv \<Rightarrow> StartBody \<Rightarrow> MediaFile \<Rightarrow> QualityProfile" where
  "chosen_quality en body f =
    (let caps = start_caps en body; kbps = c_Kbps (bitrate_cap en f) in
     SelectQuality 0 (asked_width caps kbps) (asked_height body caps kbps)
       (derefInt (mf_ResolutionW (fl_meta f))) (derefInt (mf_ResolutionH (fl_meta f)))
       \<lparr>sc_MaxBitrateKbps = max_bitrate en kbps, sc_MaxWidth = cf_MaxWidth (en_Cfg en), sc_MaxHeight = cf_MaxHeight (en_Cfg en),
        sc_DVConvert = False, sc_DVTonemap = False\<rparr>)"

definition encode_size :: "StartEnv \<Rightarrow> StartBody \<Rightarrow> MediaFile \<Rightarrow> int \<times> int \<times> int" where
  "encode_size en body f =
    (let W = derefInt (mf_ResolutionW (fl_meta f)); H = derefInt (mf_ResolutionH (fl_meta f));
         q = chosen_quality en body f; box = (qp_MaxWidth q, qp_MaxHeight q);
         (w, h) = (if bd_Height body > 0 \<and> W > 0 \<and> H > 0 then aspect_box W H box else box)
     in (w, h, qp_Bitrate q))"

section \<open>The output codec and its limits\<close>

definition source_hevc :: "MediaFile \<Rightarrow> bool" where
  "source_hevc f \<longleftrightarrow> (case mf_VideoCodec (fl_meta f) of None \<Rightarrow> False
     | Some c \<Rightarrow> EqualFold c ''hevc'' \<or> EqualFold c ''h265'')"

definition source_av1 :: "MediaFile \<Rightarrow> bool" where
  "source_av1 f \<longleftrightarrow> (case mf_VideoCodec (fl_meta f) of None \<Rightarrow> False | Some c \<Rightarrow> EqualFold c ''av1'')"

definition source_h264 :: "MediaFile \<Rightarrow> bool" where
  "source_h264 f \<longleftrightarrow> (case mf_VideoCodec (fl_meta f) of None \<Rightarrow> False
     | Some c \<Rightarrow> EqualFold c ''h264'' \<or> EqualFold c ''avc'' \<or> EqualFold c ''avc1'')"

definition source_hdr :: "MediaFile \<Rightarrow> bool" where
  "source_hdr f \<longleftrightarrow> deref (mf_HDRType (fl_meta f)) \<noteq> []"

definition source_audio_only :: "MediaFile \<Rightarrow> bool" where
  "source_audio_only f \<longleftrightarrow> mf_VideoCodec (fl_meta f) = None \<and> mf_AudioCodec (fl_meta f) \<noteq> None"

definition source_no_audio :: "MediaFile \<Rightarrow> bool" where
  "source_no_audio f \<longleftrightarrow> mf_AudioCodec (fl_meta f) = None \<and> mf_VideoCodec (fl_meta f) \<noteq> None"

definition prefers :: "StartEnv \<Rightarrow> ClientCapabilities \<Rightarrow> MediaFile \<Rightarrow> bool \<Rightarrow> int \<Rightarrow> bool \<times> bool" where
  "prefers en caps f copy height =
    outputCodec (sk_Quality (en_Caps en)) caps copy
      (SupportsHEVC caps \<and> \<not> copy \<and> (height \<ge> 2160 \<or> source_hevc f))
      (SupportsAV1 caps \<and> source_av1 f \<and> \<not> copy)"

definition start_audio_rate :: "StartBody \<Rightarrow> MediaFile \<Rightarrow> rat" where
  "start_audio_rate body f =
    (case bd_AudioRate body of
       Some r \<Rightarrow> if source_audio_only f
         then (let rate = max (1 / 2) (min 3 r) in if \<bar>fsub rate 1\<bar> < f64 (5 / 1000) then 0 else rate) else 0
     | None \<Rightarrow> 0)"

definition force_8bit :: "ClientCapabilities \<Rightarrow> bool \<Rightarrow> bool \<Rightarrow> bool" where
  "force_8bit caps preferHEVC copy \<longleftrightarrow>
     ((MaxVideoBitDepth caps > 0 \<and> MaxVideoBitDepth caps < 10) \<or> (preferHEVC \<and> HEVCMain8Only caps)) \<and> \<not> copy"

definition fitOutputLevel :: "string \<Rightarrow> int \<Rightarrow> int \<Rightarrow> int \<Rightarrow> rat \<Rightarrow> int \<times> int \<times> int \<Rightarrow> int \<times> int \<times> int" where
  "fitOutputLevel codec level srcW srcH fps = (\<lambda>(width, height, kbps).
    if level \<le> 0 then (width, height, kbps)
    else let maxH = LevelMaxHeight codec level srcW srcH fps;
             w = make_even_up (go_round (fdiv (fmul (of_int maxH) (of_int srcW)) (of_int srcH)));
             (width1, height1) = (if maxH > 0 \<and> (height = 0 \<or> height > maxH)
               then (if srcW > 0 \<and> srcH > 0 \<and> (width = 0 \<or> w < width) then w else width, maxH) else (width, height));
             mk = LevelMaxKbps codec level
         in (width1, height1, if mk > 0 \<and> (kbps = 0 \<or> kbps > mk) then mk else kbps))"

definition frame_rate :: "MediaFile \<Rightarrow> rat" where
  "frame_rate f = (case fl_FrameRate f of Some r \<Rightarrow> r | None \<Rightarrow> 0)"

definition predicted_codec :: "bool \<times> bool \<Rightarrow> string" where
  "predicted_codec p = (if snd p then ''av1'' else if fst p then ''h265'' else ''h264'')"

definition output_limits :: "ClientCapabilities \<Rightarrow> MediaFile \<Rightarrow> bool \<Rightarrow> OutputLimits option" where
  "output_limits caps f copy =
    (if \<not> copy \<and> \<not> source_audio_only f
     then (let ol = OutputLimitsFor caps (frame_rate f) in if OutputLimits_IsZero ol then None else Some ol) else None)"

definition limited_size :: "OutputLimits option \<Rightarrow> string \<Rightarrow> MediaFile \<Rightarrow> int \<times> int \<times> int \<Rightarrow> int \<times> int \<times> int" where
  "limited_size limits codec f shape =
    (case limits of None \<Rightarrow> shape
     | Some ol \<Rightarrow> fitOutputLevel codec (LevelFor ol codec) (derefInt (mf_ResolutionW (fl_meta f)))
         (derefInt (mf_ResolutionH (fl_meta f))) (frame_rate f) shape)"

section \<open>Audio\<close>

definition transcodeAudioPassthrough :: "string \<Rightarrow> ClientCapabilities \<Rightarrow> bool \<Rightarrow> bool \<Rightarrow> bool \<Rightarrow> rat \<Rightarrow> bool \<Rightarrow> bool \<times> bool" where
  "transcodeAudioPassthrough alias caps audioOnly ts limited rate fleet =
    (if audioOnly \<or> limited \<or> \<not> PassesThroughAudio caps alias then (False, False)
     else if rate > 0 \<and> \<bar>fsub rate 1\<bar> \<ge> f64 (5 / 1000) then (False, False)
     else let c = CanonicalAudioCodec alias in
       if c = ''ac3'' \<or> c = ''eac3'' then (True, False)
       else if (c = ''truehd'' \<or> c = ''dts'') \<and> \<not> ts \<and> fleet then (True, True)
       else (False, False))"

definition receiverAudioEncode :: "ClientCapabilities \<Rightarrow> int \<Rightarrow> bool \<Rightarrow> bool \<Rightarrow> bool \<Rightarrow> (string \<times> int) option" where
  "receiverAudioEncode caps sourceCh audioOnly limited fleet =
    (if audioOnly \<or> limited \<or> sourceCh \<le> 2 then None
     else if PassesThroughAudio caps ''eac3'' then (if fleet then Some (''eac3'', DolbyEncodeChannels sourceCh) else None)
     else if PassesThroughAudio caps ''ac3'' then (if fleet then Some (''ac3'', DolbyEncodeChannels sourceCh) else None)
     else None)"

definition dolby_encode_kbps :: int where
  "dolby_encode_kbps = 640"

text \<open>The copy of the mapped track: copied, copied as TrueHD or DTS, and the codec when it is for the receiver.\<close>

definition remux_audio :: "StartEnv \<Rightarrow> ClientCapabilities \<Rightarrow> MediaFile \<Rightarrow> int \<Rightarrow> bool \<Rightarrow> bool \<times> bool \<times> string" where
  "remux_audio en caps f idx ts =
    (let a = CanonicalAudioCodec (SourceAudioCodec (fl_meta f) idx);
         ch = SourceAudioChannels (mf_AudioStreams (fl_meta f)) idx;
         fit = (MaxAudioChannels caps \<le> 0 \<or> ch \<le> 0 \<or> ch \<le> MaxAudioChannels caps)
     in if a \<in> {''aac'', ''ac3'', ''eac3'', ''mp3''}
        then (let copy = (SupportsAudioCodec caps a \<and> fit \<or> PassesThroughAudio caps a) in
              (copy, False, if copy \<and> PassesThroughAudio caps a \<and> \<not> (SupportsAudioCodec caps a \<and> fit) then a else []))
        else if (a = ''truehd'' \<or> a = ''dts'') \<and> PassesThroughAudio caps a \<and> \<not> ts \<and> \<not> source_audio_only f
          \<and> en_Feature en ''audio_passthrough'' then (True, True, a)
        else (False, False, []))"

definition bitrate_limited :: "StartEnv \<Rightarrow> MediaFile \<Rightarrow> bool" where
  "bitrate_limited en f \<longleftrightarrow> c_Kbps (bitrate_cap en f) > 0 \<or> q_MaxAudioBitrateKbps (sk_Quality (en_Caps en)) > 0"

definition audio_copy_plan :: "StartEnv \<Rightarrow> ClientCapabilities \<Rightarrow> MediaFile \<Rightarrow> int \<Rightarrow> bool \<Rightarrow> bool \<Rightarrow> rat \<Rightarrow> bool \<times> bool \<times> string" where
  "audio_copy_plan en caps f idx copy ts rate =
    (let codec = SourceAudioCodec (fl_meta f) idx in
     if copy \<and> codec \<noteq> [] then remux_audio en caps f idx ts
     else if codec \<noteq> []
     then (let a = CanonicalAudioCodec codec;
               (c, p) = transcodeAudioPassthrough a caps (source_audio_only f) ts (bitrate_limited en f) rate (en_Feature en ''audio_passthrough'')
           in (c, p, if c then a else []))
     else (False, False, []))"

record AudioPlan =
  ap_Copy :: bool
  ap_Passthrough :: bool
  ap_PassthroughCodec :: string
  ap_Encode :: string
  ap_Channels :: int
  ap_Kbps :: int

definition audio_plan :: "StartEnv \<Rightarrow> ClientCapabilities \<Rightarrow> MediaFile \<Rightarrow> int \<Rightarrow> bool \<Rightarrow> bool \<Rightarrow> rat \<Rightarrow> AudioPlan" where
  "audio_plan en caps f idx copy ts rate =
    (let q = sk_Quality (en_Caps en);
         srcCh = SourceAudioChannels (mf_AudioStreams (fl_meta f)) idx;
         channels = quality_audioChannels q (TargetAudioChannels srcCh (MaxAudioChannels caps));
         (copied, passthrough, codec) = audio_copy_plan en caps f idx copy ts rate;
         audioCopy = (copied \<and> \<not> (source_audio_only f \<and> audioOver q f));
         enc = (if \<not> audioCopy \<and> \<not> source_no_audio f
                then receiverAudioEncode caps srcCh (source_audio_only f) (bitrate_limited en f) (en_Feature en ''audio_dolby_encode'')
                else None)
     in \<lparr>ap_Copy = audioCopy, ap_Passthrough = passthrough, ap_PassthroughCodec = codec,
         ap_Encode = (case enc of Some (c, _) \<Rightarrow> c | None \<Rightarrow> []),
         ap_Channels = (case enc of Some (_, ch) \<Rightarrow> ch | None \<Rightarrow> channels),
         ap_Kbps = (case enc of Some _ \<Rightarrow> dolby_encode_kbps | None \<Rightarrow> aacKbps q channels)\<rparr>)"

definition job_audio_codec :: "AudioPlan \<Rightarrow> string" where
  "job_audio_codec ap = (if ap_Copy ap then ''copy'' else if ap_Encode ap \<noteq> [] then ap_Encode ap else ''aac'')"

definition start_dv :: "StartEnv \<Rightarrow> ClientCapabilities \<Rightarrow> MediaFile \<Rightarrow> bool \<Rightarrow> bool \<Rightarrow> DVMode" where
  "start_dv en caps f copy ts =
    (if copy \<and> \<not> ts \<and> \<not> source_audio_only f
     then (let m = PlanDolbyVision (fl_meta f) caps (en_Feature en ''dolby_vision_p7_to_p81'') in
           if m \<noteq> DVNone \<and> en_Feature en ''dolby_vision'' then m else DVNone)
     else DVNone)"
section \<open>The ladder\<close>

definition abrLadderCap :: "int \<Rightarrow> int \<Rightarrow> int \<Rightarrow> int" where
  "abrLadderCap requestedHeight autoMax hardCap =
    (let ceiling = (if requestedHeight = 0 then autoMax else requestedHeight) in
     if hardCap > 0 \<and> (ceiling = 0 \<or> hardCap < ceiling) then hardCap else ceiling)"

definition ladder_codec :: "StartEnv \<Rightarrow> ClientCapabilities \<Rightarrow> MediaFile \<Rightarrow> bool \<Rightarrow> string" where
  "ladder_codec en caps f ts =
    (let depth = derefInt (mf_VideoBitDepth (fl_meta f));
         depthOK = (\<not> (MaxVideoBitDepth caps > 0 \<and> MaxVideoBitDepth caps < 10) \<or> depth < 10);
         hevcOK = (depthOK \<and> \<not> (HEVCMain8Only caps \<and> depth \<ge> 10));
         pref = q_PreferredVideoCodec (sk_Quality (en_Caps en))
     in if ts \<or> pref = ''h264'' then ''h264''
        else if SupportsAV1 caps \<and> source_av1 f \<and> depthOK \<and> pref \<noteq> ''hevc'' \<and> en_CanEncode en ''av1'' then ''av1''
        else if SupportsHEVC caps \<and> (source_hevc f \<or> derefInt (mf_ResolutionH (fl_meta f)) \<ge> 2160 \<or> pref = ''hevc'')
          \<and> hevcOK \<and> en_CanEncode en ''hevc'' then ''hevc''
        else ''h264'')"

definition ladder_level :: "OutputLimits option \<Rightarrow> string \<Rightarrow> int" where
  "ladder_level limits codec = (case limits of Some ol \<Rightarrow> LevelFor ol codec | None \<Rightarrow> 0)"

definition lower_cap :: "int \<Rightarrow> int \<Rightarrow> int" where
  "lower_cap limit v = (if limit > 0 \<and> (v = 0 \<or> limit < v) then limit else v)"

definition ladder_cap :: "StartEnv \<Rightarrow> StartBody \<Rightarrow> ClientCapabilities \<Rightarrow> MediaFile \<Rightarrow> OutputLimits option \<Rightarrow> string \<Rightarrow> int" where
  "ladder_cap en body caps f limits codec =
    (let base = lower_cap (cc_MaxHeight caps)
           (abrLadderCap (bd_Height body) (cf_ABRAutoMaxHeight (en_Cfg en)) (cf_ABRMaxHeight (en_Cfg en)))
     in case limits of None \<Rightarrow> base
        | Some ol \<Rightarrow> lower_cap (LevelMaxHeight codec (ladder_level limits codec) (derefInt (mf_ResolutionW (fl_meta f)))
            (derefInt (mf_ResolutionH (fl_meta f))) (ol_FrameRate ol)) base)"

definition lower_rate :: "int \<Rightarrow> int \<Rightarrow> int" where
  "lower_rate limit v = (if limit > 0 \<and> (v \<le> 0 \<or> limit < v) then limit else v)"

definition ladder_kbps :: "StartEnv \<Rightarrow> MediaFile \<Rightarrow> OutputLimits option \<Rightarrow> string \<Rightarrow> int" where
  "ladder_kbps en f limits codec =
     lower_rate (LevelMaxKbps codec (ladder_level limits codec))
       (lower_rate (c_Kbps (bitrate_cap en f)) (cf_MaxBitrate (en_Cfg en)))"

definition wants_ladder :: "StartEnv \<Rightarrow> StartBody \<Rightarrow> MediaFile \<Rightarrow> bool \<Rightarrow> SubtitleBurn option \<Rightarrow> bool" where
  "wants_ladder en body f copy burn \<longleftrightarrow> cf_ABR (en_Cfg en) \<and> \<not> copy \<and> bd_Height body = 0 \<and> burn = None
     \<and> DVProfileKey (fl_meta f) \<noteq> ''5'' \<and> (case fl_DurationMS f of Some d \<Rightarrow> d > 0 | None \<Rightarrow> False)
     \<and> derefInt (mf_ResolutionH (fl_meta f)) > 0"

definition start_ladder :: "StartEnv \<Rightarrow> StartBody \<Rightarrow> ClientCapabilities \<Rightarrow> MediaFile \<Rightarrow> OutputLimits option \<Rightarrow> string \<Rightarrow> Rendition list" where
  "start_ladder en body caps f limits codec =
     BuildLadder (derefInt (mf_ResolutionW (fl_meta f))) (derefInt (mf_ResolutionH (fl_meta f)))
       (case fl_Bitrate f of Some b \<Rightarrow> go_div b 1000 | None \<Rightarrow> 0) codec
       (ladder_cap en body caps f limits codec) (ladder_kbps en f limits codec)"

section \<open>The session and the job\<close>

text \<open>What is fixed of a playback before the session is built; \<open>pn_Size\<close> is width, height and bitrate.\<close>

record StartPlan =
  pn_File :: MediaFile
  pn_Audio :: int
  pn_Burn :: "SubtitleBurn option"
  pn_MaxSessions :: int
  pn_Copy :: bool

definition plan_start :: "StartEnv \<Rightarrow> StartBody \<Rightarrow> MediaFile \<Rightarrow> StartError + StartPlan" where
  "plan_start en body f =
    (if bd_Height body < 0 then Inl HeightNegative
     else if bd_Height body > cf_MaxHeight (en_Cfg en) then Inl HeightTooLarge
     else case audio_index body f of Inl e \<Rightarrow> Inl e | Inr idx \<Rightarrow>
       (case burn_request en body of Inl e \<Rightarrow> Inl e | Inr burn \<Rightarrow>
         (case source_gate (en_Sources en) of Some e \<Rightarrow> Inl e | None \<Rightarrow>
           (case session_cap en of Inl e \<Rightarrow> Inl e | Inr n \<Rightarrow>
             (case lazyReprobe en f of Inl e \<Rightarrow> Inl e | Inr g \<Rightarrow>
               (case dv_gate en body g (bd_VideoCopy body \<and> burn = None) of Inl e \<Rightarrow> Inl e | Inr copy \<Rightarrow>
                  Inr \<lparr>pn_File = g, pn_Audio = idx, pn_Burn = burn, pn_MaxSessions = n, pn_Copy = copy\<rparr>))))))"

text \<open>The parts of a stacked movie run as one: their lengths add up, unknown if one is.\<close>

definition stack_duration :: "SourcePart list \<Rightarrow> int option" where
  "stack_duration parts = (if parts = [] \<or> list_ex (\<lambda>p. pt_DurationMS p \<le> 0) parts then None
     else Some (sum_list (map pt_DurationMS parts)))"

definition stacked_file :: "StartEnv \<Rightarrow> MediaFile \<Rightarrow> MediaFile" where
  "stacked_file en f = (if en_Parts en = [] then f else f\<lparr>fl_DurationMS := stack_duration (en_Parts en)\<rparr>)"

definition ts_segments :: "StartBody \<Rightarrow> bool" where
  "ts_segments body \<longleftrightarrow> EqualFold (bd_SegmentContainer body) ''ts''"

definition session_output :: "bool \<times> bool \<Rightarrow> bool \<Rightarrow> bool \<Rightarrow> MediaFile \<Rightarrow> bool \<Rightarrow> VideoOutput" where
  "session_output prefer passthrough ts f copy =
    (if copy then ResolveVideoOutput ''copy'' (source_hevc f) (source_av1 f) passthrough ts
     else \<lparr>vo_HEVC = fst prefer, vo_AV1 = snd prefer, ForcedFMP4 = passthrough, TSSegments = ts\<rparr>)"

definition start_offset :: "StartEnv \<Rightarrow> StartBody \<Rightarrow> bool \<Rightarrow> rat" where
  "start_offset en body copy =
    (let t = fdiv (f64 (of_int (bd_PositionMS body))) 1000 in if copy \<and> t > 0 then en_Keyframe en t else t)"

text \<open>The choices of a playback of \<open>f\<close> that copies its picture or not.\<close>

definition size_before :: "StartEnv \<Rightarrow> StartBody \<Rightarrow> MediaFile \<Rightarrow> bool \<Rightarrow> int \<times> int \<times> int" where
  "size_before en body f copy = (if copy then (0, 0, 0) else encode_size en body f)"

definition start_prefers :: "StartEnv \<Rightarrow> StartBody \<Rightarrow> MediaFile \<Rightarrow> bool \<Rightarrow> bool \<times> bool" where
  "start_prefers en body f copy = prefers en (start_caps en body) f copy (fst (snd (size_before en body f copy)))"

definition start_limits :: "StartEnv \<Rightarrow> StartBody \<Rightarrow> MediaFile \<Rightarrow> bool \<Rightarrow> OutputLimits option" where
  "start_limits en body f copy = output_limits (start_caps en body) f copy"

definition start_size :: "StartEnv \<Rightarrow> StartBody \<Rightarrow> MediaFile \<Rightarrow> bool \<Rightarrow> int \<times> int \<times> int" where
  "start_size en body f copy = limited_size (start_limits en body f copy)
     (predicted_codec (start_prefers en body f copy)) f (size_before en body f copy)"

definition start_audio :: "StartEnv \<Rightarrow> StartBody \<Rightarrow> MediaFile \<Rightarrow> int \<Rightarrow> bool \<Rightarrow> AudioPlan" where
  "start_audio en body f idx copy =
     audio_plan en (start_caps en body) f idx copy (ts_segments body) (start_audio_rate body f)"

definition start_dovi :: "StartEnv \<Rightarrow> StartBody \<Rightarrow> MediaFile \<Rightarrow> bool \<Rightarrow> DVMode" where
  "start_dovi en body f copy = start_dv en (start_caps en body) f copy (ts_segments body)"

definition single_session :: "StartEnv \<Rightarrow> StartBody \<Rightarrow> MediaFile \<Rightarrow> int \<Rightarrow> bool \<Rightarrow> Session" where
  "single_session en body f idx copy =
    (let passthrough = ap_Passthrough (start_audio en body f idx copy);
         vout = session_output (start_prefers en body f copy) passthrough (ts_segments body) f copy
     in \<lparr>ses_ID = en_SessionID en, ses_UserID = en_UserID en, ses_MediaItemID = en_ItemID en, ses_WorkerID = [], ses_WorkerAddr = [],
         ses_PositionMS = bd_PositionMS body, ses_CreatedAt = Some (en_Now en), ses_LastActivityAt = None,
         ses_HEVCOutput = vo_HEVC vout, ses_AV1Output = vo_AV1 vout, ses_TSSegments = ts_segments body,
         ses_FMP4Segments = passthrough \<or> start_dovi en body f copy \<noteq> DVNone, ses_ParentID = [], ses_Incarnation = 0,
         ses_SelectedRendition = [], ses_StartSeg = 0\<rparr>)"

definition single_job :: "StartEnv \<Rightarrow> StartBody \<Rightarrow> MediaFile \<Rightarrow> int \<Rightarrow> SubtitleBurn option \<Rightarrow> bool \<Rightarrow> TranscodeJob" where
  "single_job en body f idx burn copy =
    (let prefer = start_prefers en body f copy; ap = start_audio en body f idx copy;
         (width, height, kbps) = start_size en body f copy
     in \<lparr>tj_SessionID = en_SessionID en, tj_FilePath = fl_FilePath f, tj_SourceURL = en_SourceURL en,
         tj_StartOffsetSec = start_offset en body copy, tj_Decision = (if copy then ''remux'' else ''transcode''),
         tj_Encoder = (if copy then ''copy'' else []), tj_Width = width, tj_Height = height,
         tj_BitrateKbps = (if fst prefer then ScaleBitrateForHEVC kbps else kbps),
         tj_AudioCodec = job_audio_codec ap, tj_AudioChannels = ap_Channels ap, tj_AudioStreamIndex = idx,
         tj_NeedsToneMap = source_hdr f \<and> \<not> copy, tj_IsHEVC = source_hevc f, tj_IsAV1 = source_av1 f,
         tj_IsH264 = source_h264 f, tj_PreferHEVC = fst prefer, tj_ForceFMP4 = False, tj_TSSegments = ts_segments body,
         tj_AudioRate = start_audio_rate body f, tj_PreferAV1 = snd prefer, tj_SubtitleStreams = [], tj_Incarnation = 0,
         tj_OutputTSOffsetSec = 0, tj_AudioBitrateKbps = ap_Kbps ap, tj_AudioOnly = source_audio_only f,
         tj_NoAudio = source_no_audio f, tj_Force8Bit = force_8bit (start_caps en body) (fst prefer) copy,
         tj_OutputLimits = start_limits en body f copy, tj_CostCenti = 0, tj_Parts = en_Parts en,
         tj_AudioPassthrough = ap_Passthrough ap, tj_BurnSubtitle = burn, tj_DolbyVision = start_dovi en body f copy,
         tj_DVProfileKey = DVProfileKey (fl_meta f)\<rparr>)"

datatype StartReply = StaticLadder | Ladder string "Rendition list" AudioPlan | Single Session TranscodeJob

definition start_reply :: "StartEnv \<Rightarrow> StartBody \<Rightarrow> StartPlan \<Rightarrow> StartError + StartReply" where
  "start_reply en body pn =
    (if static_ladder en (pn_File pn) (pn_Copy pn) (pn_Burn pn) then Inr StaticLadder
     else
       (let f = stacked_file en (pn_File pn); copy = video_copy en body f (pn_Copy pn) in
        if \<not> copy \<and> DVProfileKey (fl_meta f) = ''5'' \<and> \<not> tonemap_available en f then Inl DolbyVisionUnsupported
        else
          (let codec = ladder_codec en (start_caps en body) f (ts_segments body);
               ladder = start_ladder en body (start_caps en body) f (start_limits en body f copy) codec
           in if wants_ladder en body f copy (pn_Burn pn) \<and> length ladder > 1
              then Inr (Ladder codec ladder (start_audio en body f (pn_Audio pn) copy))
              else Inr (Single (single_session en body f (pn_Audio pn) copy)
                               (single_job en body f (pn_Audio pn) (pn_Burn pn) copy)))))"

definition Start :: "StartEnv \<Rightarrow> StartBody \<Rightarrow> MediaFile \<Rightarrow> StartError + StartReply" where
  "Start en body f = (case plan_start en body f of Inl e \<Rightarrow> Inl e | Inr pn \<Rightarrow> start_reply en body pn)"

section \<open>What a single playback rests on\<close>

lemma plan_start_Inr:
  assumes "plan_start en body f = Inr pn"
  shows "0 \<le> bd_Height body \<and> bd_Height body \<le> cf_MaxHeight (en_Cfg en) \<and> burn_request en body = Inr (pn_Burn pn)
    \<and> audio_index body f = Inr (pn_Audio pn) \<and> source_gate (en_Sources en) = None \<and> lazyReprobe en f = Inr (pn_File pn)
    \<and> dv_gate en body (pn_File pn) (bd_VideoCopy body \<and> pn_Burn pn = None) = Inr (pn_Copy pn)"
  using assms by (auto simp: plan_start_def split: if_splits sum.splits option.splits)

lemma Start_Single:
  assumes "Start en body f0 = Inr (Single s j)"
  obtains pn f copy where "plan_start en body f0 = Inr pn" "f = stacked_file en (pn_File pn)"
    "copy = video_copy en body f (pn_Copy pn)" "DVProfileKey (fl_meta f) = ''5'' \<longrightarrow> copy \<or> tonemap_available en f"
    "s = single_session en body f (pn_Audio pn) copy" "j = single_job en body f (pn_Audio pn) (pn_Burn pn) copy"
proof -
  obtain pn where p: "plan_start en body f0 = Inr pn" using assms by (auto simp: Start_def split: sum.splits)
  define f where "f = stacked_file en (pn_File pn)"
  define copy where "copy = video_copy en body f (pn_Copy pn)"
  have "start_reply en body pn = Inr (Single s j)" using assms p by (simp add: Start_def)
  then have "DVProfileKey (fl_meta f) = ''5'' \<longrightarrow> copy \<or> tonemap_available en f"
    "s = single_session en body f (pn_Audio pn) copy" "j = single_job en body f (pn_Audio pn) (pn_Burn pn) copy"
    unfolding start_reply_def Let_def f_def [symmetric] copy_def [symmetric] by (auto split: if_splits)
  then show ?thesis using that p f_def copy_def by blast
qed

section \<open>The job is consistent\<close>

lemma single_job_fields:
  "tj_Decision (single_job en body f idx burn copy) = (if copy then ''remux'' else ''transcode'')"
  "tj_Encoder (single_job en body f idx burn copy) = (if copy then ''copy'' else [])"
  "tj_Width (single_job en body f idx burn copy) = fst (start_size en body f copy)"
  "tj_Height (single_job en body f idx burn copy) = fst (snd (start_size en body f copy))"
  "tj_BitrateKbps (single_job en body f idx burn copy) = (if fst (start_prefers en body f copy)
     then ScaleBitrateForHEVC (snd (snd (start_size en body f copy))) else snd (snd (start_size en body f copy)))"
  "tj_AudioCodec (single_job en body f idx burn copy) = job_audio_codec (start_audio en body f idx copy)"
  "tj_NeedsToneMap (single_job en body f idx burn copy) = (source_hdr f \<and> \<not> copy)"
  "tj_IsHEVC (single_job en body f idx burn copy) = source_hevc f"
  "tj_IsAV1 (single_job en body f idx burn copy) = source_av1 f"
  "tj_PreferHEVC (single_job en body f idx burn copy) = fst (start_prefers en body f copy)"
  "tj_PreferAV1 (single_job en body f idx burn copy) = snd (start_prefers en body f copy)"
  "tj_ForceFMP4 (single_job en body f idx burn copy) = False"
  "tj_TSSegments (single_job en body f idx burn copy) = ts_segments body"
  "tj_AudioRate (single_job en body f idx burn copy) = start_audio_rate body f"
  "tj_AudioOnly (single_job en body f idx burn copy) = source_audio_only f"
  "tj_Force8Bit (single_job en body f idx burn copy) = force_8bit (start_caps en body) (fst (start_prefers en body f copy)) copy"
  "tj_OutputLimits (single_job en body f idx burn copy) = start_limits en body f copy"
  "tj_AudioPassthrough (single_job en body f idx burn copy) = ap_Passthrough (start_audio en body f idx copy)"
  "tj_BurnSubtitle (single_job en body f idx burn copy) = burn"
  "tj_DolbyVision (single_job en body f idx burn copy) = start_dovi en body f copy"
  "tj_DVProfileKey (single_job en body f idx burn copy) = DVProfileKey (fl_meta f)"
  "tj_Parts (single_job en body f idx burn copy) = en_Parts en"
  by (simp_all add: single_job_def Let_def split: prod.splits)

lemma transcodeAudioPassthrough_copy:
  "snd (transcodeAudioPassthrough a caps ao ts bl rate fleet) \<Longrightarrow>
     fst (transcodeAudioPassthrough a caps ao ts bl rate fleet) \<and> \<not> ao \<and> \<not> ts \<and> fleet"
  by (auto simp: transcodeAudioPassthrough_def Let_def split: if_splits)

lemma remux_audio_passthrough:
  "remux_audio en caps f idx ts = (c, True, k) \<Longrightarrow> c \<and> \<not> source_audio_only f \<and> \<not> ts \<and> en_Feature en ''audio_passthrough''"
  by (auto simp: remux_audio_def Let_def split: if_splits)

lemma audio_copy_plan_passthrough:
  assumes "audio_copy_plan en caps f idx copy ts rate = (c, True, k)"
  shows "c \<and> \<not> source_audio_only f \<and> \<not> ts \<and> en_Feature en ''audio_passthrough''"
proof (cases "copy \<and> SourceAudioCodec (fl_meta f) idx \<noteq> []")
  case True
  then have "remux_audio en caps f idx ts = (c, True, k)" using assms by (simp add: audio_copy_plan_def)
  then show ?thesis by (rule remux_audio_passthrough)
next
  case False
  let ?t = "transcodeAudioPassthrough (CanonicalAudioCodec (SourceAudioCodec (fl_meta f) idx)) caps (source_audio_only f) ts
    (bitrate_limited en f) rate (en_Feature en ''audio_passthrough'')"
  have "fst ?t = c" "snd ?t" using False assms by (auto simp: audio_copy_plan_def Let_def split: prod.splits if_splits)
  then show ?thesis using transcodeAudioPassthrough_copy by blast
qed

lemma audio_plan_passthrough:
  "ap_Passthrough (audio_plan en caps f idx copy ts rate) \<Longrightarrow>
     ap_Copy (audio_plan en caps f idx copy ts rate) \<and> \<not> source_audio_only f \<and> \<not> ts \<and> en_Feature en ''audio_passthrough''"
  using audio_copy_plan_passthrough [of en caps f idx copy ts rate]
  by (auto simp: audio_plan_def Let_def split: prod.splits)

lemma audio_plan_encode:
  "\<not> ap_Copy (audio_plan en caps f idx copy ts rate) \<Longrightarrow> ap_Encode (audio_plan en caps f idx copy ts rate) \<noteq> [] \<Longrightarrow>
     IsDolbyEncode (ap_Encode (audio_plan en caps f idx copy ts rate)) \<and> en_Feature en ''audio_dolby_encode''"
  by (auto simp: audio_plan_def Let_def receiverAudioEncode_def IsDolbyEncode_def split: prod.splits option.splits if_splits)

lemma start_audio_rate_bounds:
  "start_audio_rate body f \<noteq> 0 \<Longrightarrow> source_audio_only f \<and> 1 / 2 \<le> start_audio_rate body f \<and> start_audio_rate body f \<le> 3"
  by (cases "bd_AudioRate body") (auto simp: start_audio_rate_def Let_def split: if_splits)

lemma copy_needs_request: "plan_start en body f = Inr pn \<Longrightarrow> pn_Copy pn \<Longrightarrow> pn_Burn pn = None \<and> bd_VideoCopy body"
  by (drule plan_start_Inr) (auto simp: dv_gate_def split: if_splits)

text \<open>
  C4 (invariant).  Every job \<open>Start\<close> hands to a worker is consistent: its decision and encoder say the same; a copied
  picture is asked for no encoder, tone map, bit depth, level or burn-in; TrueHD and DTS passed through are
  copied, in fMP4, beside a picture; Dolby Vision is kept only in a copy in fMP4; a speed is set only for audio alone,
  within the bounds; and the audio codec is one the worker knows.
\<close>

theorem Start_consistent:
  assumes "Start en body f = Inr (Single s j)"
  shows "tj_Decision j = (if IsVideoCopy (tj_Encoder j) then ''remux'' else ''transcode'')
    \<and> (IsVideoCopy (tj_Encoder j) \<longrightarrow> \<not> tj_PreferHEVC j \<and> \<not> tj_PreferAV1 j \<and> \<not> tj_NeedsToneMap j \<and> \<not> tj_Force8Bit j
         \<and> tj_OutputLimits j = None \<and> tj_BurnSubtitle j = None \<and> bd_VideoCopy body)
    \<and> (tj_AudioPassthrough j \<longrightarrow> tj_AudioCodec j = ''copy'' \<and> \<not> tj_AudioOnly j \<and> \<not> tj_TSSegments j)
    \<and> (tj_DolbyVision j \<noteq> DVNone \<longrightarrow> IsVideoCopy (tj_Encoder j) \<and> \<not> tj_AudioOnly j \<and> \<not> tj_TSSegments j)
    \<and> (tj_AudioRate j \<noteq> 0 \<longrightarrow> tj_AudioOnly j \<and> 1 / 2 \<le> tj_AudioRate j \<and> tj_AudioRate j \<le> 3)
    \<and> tj_AudioCodec j \<in> {''copy'', ''aac'', ''eac3'', ''ac3''}"
proof -
  obtain pn f1 copy where p: "plan_start en body f = Inr pn" "copy = video_copy en body f1 (pn_Copy pn)"
    "j = single_job en body f1 (pn_Audio pn) (pn_Burn pn) copy"
    using Start_Single [OF assms] by metis
  have enc: "IsVideoCopy (tj_Encoder j) = copy" by (simp add: p(3) single_job_fields IsVideoCopy_def)
  have req: "copy \<Longrightarrow> pn_Burn pn = None \<and> bd_VideoCopy body"
    using copy_needs_request [OF p(1)] p(2) by (auto simp: video_copy_def)
  have pref: "copy \<Longrightarrow> \<not> fst (start_prefers en body f1 copy) \<and> \<not> snd (start_prefers en body f1 copy)"
    by (auto simp: start_prefers_def prefers_def outputCodec_def)
  have pass: "ap_Passthrough (start_audio en body f1 (pn_Audio pn) copy) \<Longrightarrow>
      ap_Copy (start_audio en body f1 (pn_Audio pn) copy) \<and> \<not> source_audio_only f1 \<and> \<not> ts_segments body"
    using audio_plan_passthrough unfolding start_audio_def by blast
  have codec: "job_audio_codec ap \<in> {''copy'', ''aac'', ''eac3'', ''ac3''}"
    if "ap = start_audio en body f1 (pn_Audio pn) copy" for ap
    using audio_plan_encode unfolding that start_audio_def by (auto simp: job_audio_codec_def IsDolbyEncode_def)
  have dv: "start_dovi en body f1 copy \<noteq> DVNone \<Longrightarrow> copy \<and> \<not> source_audio_only f1 \<and> \<not> ts_segments body"
    by (auto simp: start_dovi_def start_dv_def split: if_splits)
  have rate: "start_audio_rate body f1 \<noteq> 0 \<Longrightarrow> source_audio_only f1 \<and> 1 / 2 \<le> start_audio_rate body f1 \<and> start_audio_rate body f1 \<le> 3"
    by (rule start_audio_rate_bounds)
  show ?thesis
    using req pref pass dv rate codec [OF refl] unfolding enc
    by (auto simp: p(3) single_job_fields force_8bit_def start_limits_def output_limits_def job_audio_codec_def)
qed

section \<open>A copied picture is one the client may have\<close>

lemma stacked_meta: "fl_meta (stacked_file en f) = fl_meta f" "fl_Bitrate (stacked_file en f) = fl_Bitrate f"
  "fl_FrameRate (stacked_file en f) = fl_FrameRate f"
  by (simp_all add: stacked_file_def)

lemma stacked_same:
  "has_video (stacked_file en f) = has_video f" "bitrate_over (stacked_file en f) k = bitrate_over f k"
  "overResolution q (stacked_file en f) = overResolution q f" "bitrate_cap en (stacked_file en f) = bitrate_cap en f"
  "overCap c (stacked_file en f) = overCap c f" "copy_server en (stacked_file en f) = copy_server en f"
  "source_hdr (stacked_file en f) = source_hdr f" "source_audio_only (stacked_file en f) = source_audio_only f"
  by (simp_all add: has_video_def bitrate_over_def overResolution_def bitrate_cap_def withQuality_def resolveStreamCap_def
      overCap_def copy_server_def tonemap_available_def source_hdr_def source_audio_only_def stacked_meta)

lemma video_copyD:
  assumes "video_copy en body f c" "mf_IntegrityStatus (fl_meta f) \<noteq> ''damaged''"
  shows "c \<and> \<not> overCap (bitrate_cap en f) f \<and> \<not> overResolution (sk_Quality (en_Caps en)) f
    \<and> (en_Header en \<noteq> [] \<longrightarrow>
         copy_ok (fl_meta f) (start_caps en body) \<and> hdr_ok (fl_meta f) (start_caps en body) (copy_server en f))"
proof -
  let ?d = "Decide (fl_meta f) (start_caps en body) (copy_server en f)"
  have prof: "snd (clientCaps raw body) \<longleftrightarrow> raw \<noteq> []" for raw by (simp add: clientCaps_def Let_def)
  have v: "c" "\<not> overCap (bitrate_cap en f) f"
    "en_Header en \<noteq> [] \<Longrightarrow> ?d \<noteq> DecisionTranscode \<and> ?d \<noteq> DecisionUnsupported"
    "en_Header en = [] \<Longrightarrow> \<not> overResolution (sk_Quality (en_Caps en)) f"
    using assms(1) by (auto simp: video_copy_def videoCopyRefused_def prof split: if_splits)
  have ok: "copy_ok (fl_meta f) (start_caps en body) \<and> hdr_ok (fl_meta f) (start_caps en body) (copy_server en f)"
    if "en_Header en \<noteq> []"
    using v(3) that assms(2) Decide_eq [of "fl_meta f" "start_caps en body" "copy_server en f"] by (auto split: if_splits)
  have "\<not> overResolution (sk_Quality (en_Caps en)) f"
    using v(4) ok overResolution_too_large [of "sk_Quality (en_Caps en)" f] unfolding start_caps_def copy_ok_def by blast
  then show ?thesis using v(1,2) ok by blast
qed

lemma dv_gate_profile5:
  "dv_gate en body f c = Inr True \<Longrightarrow> DVProfileKey (fl_meta f) = ''5'' \<Longrightarrow>
     SupportsDVProfile (fst (clientCaps (en_Header en) body)) ''5''"
  by (auto simp: dv_gate_def dv5_key split: if_splits)

text \<open>
  C2 (safety).  The picture of an undamaged file is copied only within the bitrate the viewer is held to and the viewer's
  own resolution ceiling; to a client that sent its capabilities only when it takes the codec, depth, size, profile,
  level and dynamic range; and Dolby Vision profile 5 only for a client that lists it.
\<close>

theorem Start_copy_safe:
  assumes "Start en body f0 = Inr (Single s j)" "lazyReprobe en f0 = Inr f" "IsVideoCopy (tj_Encoder j)"
    "mf_IntegrityStatus (fl_meta f) \<noteq> ''damaged''"
  shows "\<not> overCap (bitrate_cap en f) f \<and> \<not> overResolution (sk_Quality (en_Caps en)) f
    \<and> (en_Header en \<noteq> [] \<longrightarrow> copy_ok (fl_meta f) (start_caps en body) \<and> hdr_ok (fl_meta f) (start_caps en body) (copy_server en f))
    \<and> (DVProfileKey (fl_meta f) = ''5'' \<longrightarrow> SupportsDVProfile (fst (clientCaps (en_Header en) body)) ''5'')"
proof -
  obtain pn copy where p: "plan_start en body f0 = Inr pn" "copy = video_copy en body (stacked_file en (pn_File pn)) (pn_Copy pn)"
    "j = single_job en body (stacked_file en (pn_File pn)) (pn_Audio pn) (pn_Burn pn) copy"
    using Start_Single [OF assms(1)] by metis
  have f: "pn_File pn = f" using plan_start_Inr [OF p(1)] assms(2) by simp
  have c: "video_copy en body (stacked_file en f) (pn_Copy pn)"
    using assms(3) p(2) by (simp add: p(3) single_job_fields IsVideoCopy_def f split: if_splits)
  have "dv_gate en body f (bd_VideoCopy body \<and> pn_Burn pn = None) = Inr (pn_Copy pn)" using plan_start_Inr [OF p(1)] f by simp
  then show ?thesis
    using video_copyD [OF c] assms(4) dv_gate_profile5 [of en body f "bd_VideoCopy body \<and> pn_Burn pn = None"]
    by (simp add: stacked_same stacked_meta)
qed

section \<open>The features a job needs\<close>

lemma set_filter_needs:
  "set (jn_Features (jobNeeds j)) =
     (if tj_BurnSubtitle j \<noteq> None then {''burn_in_subtitles''} else {}) \<union> set (dv_features (tj_DolbyVision j))
     \<union> (if ReshapesDolbyVision j then {feature_dv_tonemap} else {})
     \<union> (if tj_AudioPassthrough j then {''audio_passthrough''} else {})
     \<union> (if IsDolbyEncode (tj_AudioCodec j) then {''audio_dolby_encode''} else {})"
  by (simp add: jobNeeds_def feature_dv_tonemap_def)

lemma start_dv_features: "set (dv_features (start_dv en caps f copy ts)) \<subseteq> Collect (en_Feature en)"
  by (auto simp: start_dv_def PlanDolbyVision_def Let_def)

lemma FleetHasFeature_iff: "FleetHasFeature st ft \<longleftrightarrow> (\<exists>w \<in> set (snd (ListWorkers st)). ft \<in> set (wr_Features w))"
  by (auto simp: FleetHasFeature_def workersWithFeatures_def hasAllFeatures_def filter_empty_conv)

lemma single_feature_dispatch:
  assumes "set (jn_Features (jobNeeds j)) \<subseteq> Collect (FleetHasFeature st)" "length (jn_Features (jobNeeds j)) \<le> 1"
  shows "snd (DispatchJob st j) \<noteq> Inl ErrNoCapableWorker"
proof (cases rule: DispatchJob_cases [of st j])
  case none
  then obtain ft where ft: "jn_Features (jobNeeds j) = [ft]" using assms(2) by (cases "jn_Features (jobNeeds j)") auto
  then show ?thesis using none assms(1) by (auto simp: FleetHasFeature_iff)
qed auto

text \<open>
  C9 (safety).  \<open>Start\<close> never creates a job for which the fleet has nothing: every feature the job needs is one some
  worker advertises, so a job that needs a single feature is never refused at dispatch.
\<close>

theorem Start_features:
  assumes "Start en body f0 = Inr (Single s j)"
  shows "set (jn_Features (jobNeeds j)) \<subseteq> Collect (en_Feature en)
    \<and> (en_Feature en = FleetHasFeature st \<and> length (jn_Features (jobNeeds j)) \<le> 1
         \<longrightarrow> snd (DispatchJob st j) \<noteq> Inl ErrNoCapableWorker)"
proof -
  obtain pn f copy where p: "plan_start en body f0 = Inr pn" "DVProfileKey (fl_meta f) = ''5'' \<longrightarrow> copy \<or> tonemap_available en f"
    "j = single_job en body f (pn_Audio pn) (pn_Burn pn) copy"
    using Start_Single [OF assms] by metis
  let ?ap = "start_audio en body f (pn_Audio pn) copy"
  have "pn_Burn pn \<noteq> None \<Longrightarrow> en_Feature en ''burn_in_subtitles''"
    using plan_start_Inr [OF p(1)] by (auto simp: burn_request_def split: option.splits if_splits)
  moreover have "ReshapesDolbyVision j \<Longrightarrow> en_Feature en feature_dv_tonemap"
    using p(2) by (auto simp: ReshapesDolbyVision_def p(3) single_job_fields tonemap_available_def)
  moreover have "ap_Passthrough ?ap \<Longrightarrow> en_Feature en ''audio_passthrough''"
    using audio_plan_passthrough unfolding start_audio_def by blast
  moreover have "IsDolbyEncode (job_audio_codec ?ap) \<Longrightarrow> en_Feature en ''audio_dolby_encode''"
    using audio_plan_encode unfolding start_audio_def by (auto simp: job_audio_codec_def IsDolbyEncode_def split: if_splits)
  ultimately have "set (jn_Features (jobNeeds j)) \<subseteq> Collect (en_Feature en)"
    using start_dv_features unfolding set_filter_needs
    by (auto simp: p(3) single_job_fields start_dovi_def split: if_splits)
  then show ?thesis using single_feature_dispatch [of j st] by auto
qed

section \<open>A film to play\<close>

definition sample_en :: StartEnv where
  "sample_en = \<lparr>en_Cfg = \<lparr>cf_MaxBitrate = 20000, cf_MaxWidth = 3840, cf_MaxHeight = 2160, cf_ABR = True, cf_ABRAutoMaxHeight = 1080, cf_ABRMaxHeight = 0\<rparr>,
     en_Caps = no_caps, en_Policy = eight_mbps, en_Local = True,
     en_Header = ''videoDecoder=h264:h265&audioDecoder=aac:eac3&audioPassthrough=truehd&protocols=mp4'' @
       ''&maxWidth=3840&maxHeight=2160&maxBitDepth=10&hdr=1&dovi=8'',
     en_Feature = (\<lambda>_. True), en_CanEncode = (\<lambda>_. True), en_Static = False, en_Subtitles = [], en_BurnOffset = (\<lambda>_. 0),
     en_Sources = [\<lparr>ss_Damaged = False, ss_Reference = False, ss_Verify = SourceOK\<rparr>], en_Direct = 0, en_Active = Some 0,
     en_Reference = False, en_Probe = ProbeFailed, en_Keyframe = (\<lambda>t. t), en_SessionID = ''s1'', en_UserID = ''ann'',
     en_ItemID = ''movie'', en_SourceURL = [], en_Parts = [], en_Now = 0\<rparr>"

definition sample_body :: "bool \<Rightarrow> int \<Rightarrow> StartBody" where
  "sample_body copy height = \<lparr>bd_Height = height, bd_PositionMS = 90000, bd_VideoCopy = copy, bd_AudioStreamIndex = None, bd_SupportsHEVC = None,
     bd_SupportsAV1 = None, bd_SegmentContainer = [], bd_AudioRate = None, bd_BurnSubtitleStreamIndex = None\<rparr>"

lemma Start_SingleI:
  assumes "plan_start en body f = Inr \<lparr>pn_File = g, pn_Audio = idx, pn_Burn = burn, pn_MaxSessions = n, pn_Copy = c\<rparr>"
    "\<not> static_ladder en g c burn" "stacked_file en g = g" "video_copy en body g c = copy" "copy \<or> DVProfileKey (fl_meta g) \<noteq> ''5''"
    "\<not> wants_ladder en body g copy burn"
  shows "Start en body f = Inr (Single (single_session en body g idx copy) (single_job en body g idx burn copy))"
  using assms by (auto simp: Start_def start_reply_def Let_def)

lemma film_probed: "lazyReprobe sample_en big_film = Inr big_film" "stacked_file sample_en big_film = big_film"
  by (code_simp, simp add: stacked_file_def sample_en_def)

lemma film_plan:
  "plan_start sample_en (sample_body True 0) big_film
     = Inr \<lparr>pn_File = big_film, pn_Audio = - 1, pn_Burn = None, pn_MaxSessions = 5, pn_Copy = True\<rparr>"
  by code_simp

lemma film_copied: "video_copy sample_en (sample_body True 0) big_film True"
  by code_simp

lemma film_start:
  "Start sample_en (sample_body True 0) big_film =
     Inr (Single (single_session sample_en (sample_body True 0) big_film (- 1) True)
                 (single_job sample_en (sample_body True 0) big_film (- 1) None True))"
  by (rule Start_SingleI [OF film_plan _ film_probed(2)]) (simp_all add: film_copied static_ladder_def wants_ladder_def)

lemma film_dovi: "start_dovi sample_en (sample_body True 0) big_film True = DVKeep"
  by code_simp

lemma film_passthrough: "ap_Passthrough (start_audio sample_en (sample_body True 0) big_film (- 1) True)"
  by code_simp

text \<open>The film is remuxed, with its Dolby Vision and its TrueHD.\<close>

theorem Start_consistent_witness:
  "tj_Decision (single_job sample_en (sample_body True 0) big_film (- 1) None True) = ''remux''
   \<and> tj_AudioCodec (single_job sample_en (sample_body True 0) big_film (- 1) None True) = ''copy''
   \<and> \<not> tj_NeedsToneMap (single_job sample_en (sample_body True 0) big_film (- 1) None True)"
proof -
  have "tj_DolbyVision (single_job sample_en (sample_body True 0) big_film (- 1) None True) \<noteq> DVNone"
    "tj_AudioPassthrough (single_job sample_en (sample_body True 0) big_film (- 1) None True)"
    by (simp_all add: single_job_fields film_dovi film_passthrough)
  then show ?thesis using Start_consistent [OF film_start] by auto
qed

theorem Start_copy_safe_witness:
  "copy_ok (fl_meta big_film) (start_caps sample_en (sample_body True 0))
   \<and> hdr_ok (fl_meta big_film) (start_caps sample_en (sample_body True 0)) (copy_server sample_en big_film)"
proof -
  have "IsVideoCopy (tj_Encoder (single_job sample_en (sample_body True 0) big_film (- 1) None True))"
    by (simp add: single_job_fields IsVideoCopy_def)
  moreover have "mf_IntegrityStatus (fl_meta big_film) \<noteq> ''damaged''" "en_Header sample_en \<noteq> []" by code_simp+
  ultimately show ?thesis using Start_copy_safe [OF film_start film_probed(1)] by blast
qed

text \<open>It needs two features; on a fleet with one worker for each of them no worker takes it.\<close>

theorem Start_features_witness:
  "{''dolby_vision'', ''audio_passthrough''} \<subseteq> Collect (en_Feature sample_en)"
proof -
  have "{''dolby_vision'', ''audio_passthrough''}
      \<subseteq> set (jn_Features (jobNeeds (single_job sample_en (sample_body True 0) big_film (- 1) None True)))"
    by (simp add: set_filter_needs single_job_fields film_dovi film_passthrough)
  then show ?thesis using Start_features [OF film_start] by blast
qed

end
