(* ===== verification/StartBounds.thy ===== *)
theory StartBounds
  imports StartJob
begin

text \<open>
  The bounds of what \<open>Start\<close> asks of an encoder: the arithmetic of the aspect ratio in doubles, the
  rendition of a single re-encode and the rungs of a ladder.
\<close>

section \<open>The size stays inside every limit\<close>

lemma make_even: "0 \<le> n \<Longrightarrow> make_even_up n = n + n mod 2 \<and> make_even_down n = n - n mod 2"
  by (auto simp: make_even_up_def make_even_down_def go_mod_nonneg)

lemma make_even_up_le: "0 \<le> n \<Longrightarrow> n \<le> b \<Longrightarrow> even b \<Longrightarrow> 0 \<le> make_even_up n \<and> make_even_up n \<le> b \<and> even (make_even_up n)"
  using make_even [of n] by presburger

lemma fdiv_pos: "0 < a \<Longrightarrow> 0 < b \<Longrightarrow> 0 < fdiv a b"
proof -
  assume "0 < a" "0 < b"
  then have "0 < a / b" by simp
  then show ?thesis using f64_err [of "a / b"] by (simp add: fdiv_def abs_le_iff)
qed

lemma aspect_height:
  assumes "0 < ar" "0 \<le> W" "0 \<le> H" "H \<le> 2 ^ 40" "of_int W + 1 / 2 \<le> fmul (of_int H) ar"
  shows "go_round (fdiv (of_int W) ar) \<le> H"
proof -
  let ?u = "1 + 1 / 2 ^ 53 :: rat"
  have up: "f64 x \<le> x * ?u" if "0 \<le> x" for x
  proof -
    have "f64 x - x \<le> x / 2 ^ 53" using f64_err [OF that] by (rule abs_le_D1)
    then show ?thesis by (simp add: distrib_left)
  qed
  have "of_int W + 1 / 2 \<le> of_int H * ar * ?u"
    using assms(1,3,5) up [of "of_int H * ar"] by (simp add: fmul_def)
  then have "of_int W \<le> of_int H * ar * ?u" by simp
  then have "of_int W / ar \<le> of_int H * ?u" using assms(1) by (simp add: pos_divide_le_eq mult.commute mult.left_commute)
  then have "fdiv (of_int W) ar \<le> of_int H * ?u * ?u"
    using up [of "of_int W / ar"] assms(1,2) mult_right_mono [of "of_int W / ar" "of_int H * ?u" ?u]
    by (simp add: fdiv_def)
  also have "\<dots> < of_int H + 1 / 2"
  proof -
    have "of_int H * (?u * ?u - 1) \<le> 2 ^ 40 * (?u * ?u - 1)"
      using assms(4) by (intro mult_right_mono) (simp_all flip: of_int_power)
    also have "\<dots> < 1 / 2" by simp
    finally show ?thesis by (simp add: algebra_simps)
  qed
  finally have "fdiv (of_int W) ar + 1 / 2 < of_int (H + 1)" by simp
  moreover have "0 \<le> fdiv (of_int W) ar" using assms(1,2) by (simp add: fdiv_def f64_nonneg)
  ultimately show ?thesis unfolding go_round_def by (simp add: floor_less_iff flip: zle_add1_eq_le)
qed

lemma aspect_box_within:
  assumes "0 \<le> fst box" "even (fst box)" "0 \<le> snd box" "even (snd box)" "snd box \<le> 2 ^ 40" "0 < sw" "0 < sh"
    "aspect_box sw sh box = (w, h)"
  shows "0 \<le> w \<and> w \<le> fst box \<and> even w \<and> 0 \<le> h \<and> h \<le> snd box \<and> even h"
proof -
  define ar where "ar = fdiv (of_int sw) (of_int sh)"
  define n where "n = go_round (fmul (of_int (snd box)) ar)"
  have ar: "0 < ar" using assms(6,7) by (simp add: ar_def fdiv_pos)
  have n: "0 \<le> n" using assms(3) ar by (simp add: n_def fmul_def f64_nonneg go_round_nonneg)
  have box: "aspect_box sw sh box = (if make_even_up n > fst box
      then (make_even_down (fst box), make_even_up (go_round (fdiv (of_int (make_even_down (fst box))) ar))) else (make_even_up n, snd box))"
    by (simp add: aspect_box_def Let_def ar_def n_def)
  show ?thesis
  proof (cases "make_even_up n > fst box")
    case False
    then show ?thesis using assms box n make_even [of n] by auto
  next
    case True
    have d: "make_even_down (fst box) = fst box" using assms(1,2) make_even [of "fst box"] by presburger
    have "fst box + 1 \<le> n" using True make_even [OF n] assms(2) by presburger
    then have "of_int (fst box) + 1 / 2 \<le> fmul (of_int (snd box)) ar"
      using assms(3) ar unfolding n_def go_round_def by (simp add: le_floor_iff fmul_def f64_nonneg)
    then have "go_round (fdiv (of_int (fst box)) ar) \<le> snd box" using aspect_height ar assms by blast
    moreover have "0 \<le> go_round (fdiv (of_int (fst box)) ar)" using assms(1) ar by (simp add: fdiv_def f64_nonneg go_round_nonneg)
    ultimately show ?thesis using make_even_up_le [of _ "snd box"] assms box True d by auto
  qed
qed

lemma make_even_up_pos: "1 \<le> n \<Longrightarrow> 2 \<le> make_even_up n"
  using make_even [of n] by presburger

lemma aspect_box_pos:
  assumes "16 \<le> fst box" "even (fst box)" "16 \<le> snd box" "0 < sw" "0 < sh" "sw \<le> 8 * sh" "sh \<le> 8 * sw" "aspect_box sw sh box = (w, h)"
  shows "0 < w \<and> 0 < h"
proof -
  let ?l = "1 - 1 / 2 ^ 53 :: rat" and ?u = "1 + 1 / 2 ^ 53 :: rat"
  define r where "r = of_int sw / (of_int sh :: rat)"
  define ar where "ar = fdiv (of_int sw) (of_int sh)"
  have "of_int sw \<le> 8 * (of_int sh :: rat)" "of_int sh \<le> 8 * (of_int sw :: rat)"
    using assms(6,7) by (metis of_int_le_iff of_int_mult of_int_numeral)+
  then have r: "1 / 8 \<le> r" "r \<le> 8" using assms(5) by (simp_all add: r_def pos_le_divide_eq pos_divide_le_eq)
  have "0 \<le> r" using r(1) by (rule order_trans [rotated]) simp
  then have ar: "r * ?l \<le> ar" "ar \<le> r * ?u" using f64_near [of r] unfolding ar_def fdiv_def r_def by blast+
  have pos: "0 < ar" using assms(4,5) by (simp add: ar_def fdiv_pos)
  have box: "aspect_box sw sh box = (if make_even_up (go_round (fmul (of_int (snd box)) ar)) > fst box
      then (make_even_down (fst box), make_even_up (go_round (fdiv (of_int (make_even_down (fst box))) ar)))
      else (make_even_up (go_round (fmul (of_int (snd box)) ar)), snd box))"
    by (simp add: aspect_box_def Let_def ar_def)
  have round: "1 \<le> go_round x" if "1 \<le> x" for x using that by (simp add: go_round_def le_floor_iff)
  have d: "make_even_down (fst box) = fst box" using assms(1,2) make_even [of "fst box"] by presburger
  have "1 \<le> fmul (of_int (snd box)) ar"
  proof -
    have "(1 :: rat) \<le> 16 * (1 / 8 * ?l) * ?l" by simp
    also have "\<dots> \<le> of_int (snd box) * ar * ?l"
      using assms(3) ar(1) r(1) by (intro mult_right_mono mult_mono order_trans [OF _ ar(1)]) auto
    also have "\<dots> \<le> fmul (of_int (snd box)) ar" using f64_near [of "of_int (snd box) * ar"] assms(3) pos by (simp add: fmul_def)
    finally show ?thesis .
  qed
  then have w: "2 \<le> make_even_up (go_round (fmul (of_int (snd box)) ar))" by (intro make_even_up_pos round)
  have "1 \<le> fdiv (of_int (fst box)) ar"
  proof -
    have "ar \<le> 8 * ?u" using ar(2) r(2) mult_right_mono [of r 8 ?u] by simp
    then have "of_int (fst box) / (8 * ?u) \<le> of_int (fst box) / ar" using assms(1) pos by (intro divide_left_mono) auto
    moreover have "16 / (8 * ?u) \<le> of_int (fst box) / (8 * ?u)" using assms(1) by (intro divide_right_mono) auto
    moreover have "f64 (of_int (fst box) / ar) \<ge> of_int (fst box) / ar * ?l"
      using assms(1) pos by (intro conjunct1 [OF f64_near]) simp
    moreover have "(1 :: rat) \<le> 16 / (8 * ?u) * ?l" by simp
    moreover have "16 / (8 * ?u) * ?l \<le> of_int (fst box) / ar * ?l" using calculation by (intro mult_right_mono) auto
    ultimately show ?thesis by (simp add: fdiv_def)
  qed
  then have h: "2 \<le> make_even_up (go_round (fdiv (of_int (fst box)) ar))" by (intro make_even_up_pos round)
  show ?thesis using assms(1,3,8) w h box d by (auto split: if_splits)
qed

lemma SelectQuality_least:
  assumes "\<forall>l \<in> {cw, W, sc_MaxWidth srv, ch, H, sc_MaxHeight srv}. l \<le> 0 \<or> 16 \<le> l"
  shows "16 \<le> qp_MaxWidth (SelectQuality k cw ch W H srv) \<and> 16 \<le> qp_MaxHeight (SelectQuality k cw ch W H srv)"
proof -
  have c: "16 \<le> cap_to l v" if "l \<le> 0 \<or> 16 \<le> l" "16 \<le> v" for l v using that by (auto simp: cap_to_def)
  have e: "16 \<le> v - go_mod v 2" if "16 \<le> v" for v using that go_mod_nonneg [of v 2] by presburger
  show ?thesis using assms unfolding SelectQuality_def Let_def by (auto intro!: e c)
qed

lemma fitOutputLevel_within:
  assumes "fitOutputLevel codec level sw sh fps (w, h, k) = (w', h', k')" "0 < w" "0 < h" "0 < k" "even w" "even h"
  shows "w' \<le> w \<and> h' \<le> h \<and> 0 \<le> w' \<and> 0 < h' \<and> even w' \<and> even h' \<and> 0 < k' \<and> k' \<le> k
    \<and> (0 < LevelMaxKbps codec level \<longrightarrow> k' \<le> LevelMaxKbps codec level)
    \<and> (0 < LevelMaxHeight codec level sw sh fps \<longrightarrow> h' \<le> LevelMaxHeight codec level sw sh fps)"
proof -
  let ?m = "LevelMaxHeight codec level sw sh fps"
  let ?v = "make_even_up (go_round (fdiv (fmul (of_int ?m) (of_int sw)) (of_int sh)))"
  have m: "0 < ?m \<Longrightarrow> even ?m" using LevelMaxHeight_tallest [OF refl, of codec level sw sh fps] by auto
  have v: "even ?v \<and> 0 \<le> ?v" if "0 < ?m" "0 < sw" "0 < sh"
  proof -
    have "0 \<le> go_round (fdiv (fmul (of_int ?m) (of_int sw)) (of_int sh))"
      using that by (simp add: go_round_nonneg fdiv_def fmul_def f64_nonneg)
    then show ?thesis using make_even by presburger
  qed
  have z: "level \<le> 0 \<Longrightarrow> ?m = 0 \<and> LevelMaxKbps codec level = 0"
    by (auto simp: LevelMaxHeight_def LevelMaxKbps_def split: option.splits)
  show ?thesis
  proof (cases "level \<le> 0")
    case True
    then show ?thesis using assms z by (simp add: fitOutputLevel_def)
  next
    case False
    then show ?thesis using assms m v unfolding fitOutputLevel_def Let_def by (auto split: if_splits)
  qed
qed
section \<open>The size and bitrate of a re-encode\<close>

lemma ProfileForBitrate_size: "16 \<le> qp_MaxHeight (ProfileForBitrate kbps) \<and> 16 \<le> qp_MaxWidth (ProfileForBitrate kbps)"
proof -
  have "list_all (\<lambda>p. 16 \<le> qp_MaxHeight p \<and> 16 \<le> qp_MaxWidth p) Profiles" "Profiles \<noteq> []" by code_simp+
  then show ?thesis
    by (auto simp: ProfileForBitrate_def list_all_iff split: option.splits dest: find_SomeD)
qed

lemma asked_bounds:
  assumes "0 \<le> bd_Height body"
  shows "(0 < cc_MaxHeight caps \<longrightarrow> 0 < asked_height body caps k \<and> asked_height body caps k \<le> cc_MaxHeight caps)"
  "(0 < bd_Height body \<longrightarrow> 0 < asked_height body caps k \<and> asked_height body caps k \<le> bd_Height body)"
  "(0 < cc_MaxWidth caps \<longrightarrow> 0 < asked_width caps k \<and> asked_width caps k \<le> cc_MaxWidth caps)"
  using ProfileForBitrate_size [of k] assms by (auto simp: asked_height_def asked_width_def Let_def)

lemma asked_least:
  assumes "0 \<le> bd_Height body" "\<forall>l \<in> {cc_MaxHeight caps, cc_MaxWidth caps, bd_Height body}. l \<le> 0 \<or> 16 \<le> l"
  shows "asked_height body caps k \<le> 0 \<or> 16 \<le> asked_height body caps k" "asked_width caps k \<le> 0 \<or> 16 \<le> asked_width caps k"
  using ProfileForBitrate_size [of k] assms by (auto simp: asked_height_def asked_width_def Let_def)

lemma ScaleBitrateForHEVC_le: "0 \<le> k \<Longrightarrow> ScaleBitrateForHEVC k \<le> k"
proof -
  assume k: "0 \<le> k"
  have r: "f64 (6 / 10) = 5404319552844595 / 9007199254740992" by code_simp
  have "f64 (of_int k * (5404319552844595 / 9007199254740992)) \<le> of_int k * (5404319552844595 / 9007199254740992) * (1 + 1 / 2 ^ 53)"
    using k by (intro conjunct2 [OF f64_near]) simp
  also have "\<dots> \<le> of_int k" using k by simp
  finally show ?thesis using k unfolding ScaleBitrateForHEVC_def r fmul_def go_trunc_def
    by (simp add: f64_nonneg floor_le_iff)
qed

text \<open>The limits on width and height of a re-encode of \<open>f\<close>, and the sizes for which the rounding is harmless.\<close>

definition width_limits :: "StartEnv \<Rightarrow> StartBody \<Rightarrow> MediaFile \<Rightarrow> int set" where
  "width_limits en body f = {cf_MaxWidth (en_Cfg en), cc_MaxWidth (start_caps en body), derefInt (mf_ResolutionW (fl_meta f))}"

definition height_limits :: "StartEnv \<Rightarrow> StartBody \<Rightarrow> MediaFile \<Rightarrow> int set" where
  "height_limits en body f = {cf_MaxHeight (en_Cfg en), cc_MaxHeight (start_caps en body), derefInt (mf_ResolutionH (fl_meta f)), bd_Height body}"

definition regular :: "StartEnv \<Rightarrow> StartBody \<Rightarrow> MediaFile \<Rightarrow> bool" where
  "regular en body f \<longleftrightarrow> 0 < cf_MaxBitrate (en_Cfg en) \<and> 0 < cf_MaxWidth (en_Cfg en) \<and> 0 < cf_MaxHeight (en_Cfg en)
     \<and> cf_MaxHeight (en_Cfg en) \<le> 2 ^ 40
     \<and> (\<forall>l \<in> width_limits en body f \<union> height_limits en body f. l \<le> 0 \<or> 16 \<le> l)
     \<and> (let W = derefInt (mf_ResolutionW (fl_meta f)); H = derefInt (mf_ResolutionH (fl_meta f)) in
        0 < W \<and> 0 < H \<longrightarrow> W \<le> 8 * H \<and> H \<le> 8 * W)"

lemma chosen_quality_within:
  assumes "regular en body f" "0 \<le> bd_Height body" "q = chosen_quality en body f"
  shows "16 \<le> qp_MaxWidth q \<and> even (qp_MaxWidth q) \<and> 16 \<le> qp_MaxHeight q \<and> even (qp_MaxHeight q)
    \<and> (\<forall>l \<in> width_limits en body f. 0 < l \<longrightarrow> qp_MaxWidth q \<le> l) \<and> (\<forall>l \<in> height_limits en body f. 0 < l \<longrightarrow> qp_MaxHeight q \<le> l)
    \<and> 0 < qp_Bitrate q \<and> qp_Bitrate q \<le> max_bitrate en (c_Kbps (bitrate_cap en f))"
proof -
  define caps where "caps = start_caps en body"
  define kb where "kb = c_Kbps (bitrate_cap en f)"
  define W where "W = derefInt (mf_ResolutionW (fl_meta f))"
  define H where "H = derefInt (mf_ResolutionH (fl_meta f))"
  define srv where "srv = \<lparr>sc_MaxBitrateKbps = max_bitrate en kb, sc_MaxWidth = cf_MaxWidth (en_Cfg en),
    sc_MaxHeight = cf_MaxHeight (en_Cfg en), sc_DVConvert = False, sc_DVTonemap = False\<rparr>"
  have q: "q = SelectQuality 0 (asked_width caps kb) (asked_height body caps kb) W H srv"
    by (simp add: assms(3) chosen_quality_def Let_def caps_def kb_def W_def H_def srv_def)
  have lim: "\<forall>l \<in> {cf_MaxWidth (en_Cfg en), cc_MaxWidth caps, W, cf_MaxHeight (en_Cfg en), cc_MaxHeight caps, H, bd_Height body}. l \<le> 0 \<or> 16 \<le> l"
    and mb: "0 < max_bitrate en kb"
    using assms(1) by (auto simp: regular_def width_limits_def height_limits_def caps_def W_def H_def Let_def max_bitrate_def)
  have "16 \<le> qp_MaxWidth q \<and> 16 \<le> qp_MaxHeight q"
    using lim asked_least [OF assms(2), of caps kb] unfolding q by (intro SelectQuality_least) (auto simp: srv_def)
  moreover note b = SelectQuality_bounds [OF q]
  moreover have "qp_MaxWidth q \<le> l" if "l \<in> width_limits en body f" "0 < l" for l
    using b that asked_bounds(3) [OF assms(2), of caps kb] unfolding width_limits_def caps_def [symmetric] W_def [symmetric]
    by (auto simp: srv_def)
  moreover have "qp_MaxHeight q \<le> l" if "l \<in> height_limits en body f" "0 < l" for l
    using b that asked_bounds(1,2) [OF assms(2), of caps kb]
    unfolding height_limits_def caps_def [symmetric] H_def [symmetric] by (auto simp: srv_def)
  ultimately show ?thesis using mb unfolding kb_def by (auto simp: srv_def kb_def)
qed

lemma encode_size_within:
  assumes "regular en body f" "0 \<le> bd_Height body" "encode_size en body f = (w, h, k)"
  shows "0 < w \<and> even w \<and> 0 < h \<and> even h \<and> 0 < k \<and> (\<forall>l \<in> width_limits en body f. 0 < l \<longrightarrow> w \<le> l)
    \<and> (\<forall>l \<in> height_limits en body f. 0 < l \<longrightarrow> h \<le> l) \<and> k \<le> cf_MaxBitrate (en_Cfg en)
    \<and> (0 < c_Kbps (bitrate_cap en f) \<longrightarrow> k \<le> c_Kbps (bitrate_cap en f))"
proof -
  define W where "W = derefInt (mf_ResolutionW (fl_meta f))"
  define H where "H = derefInt (mf_ResolutionH (fl_meta f))"
  define q where "q = chosen_quality en body f"
  note c = chosen_quality_within [OF assms(1,2) q_def]
  have enc: "(w, h) = (if bd_Height body > 0 \<and> W > 0 \<and> H > 0 then aspect_box W H (qp_MaxWidth q, qp_MaxHeight q)
      else (qp_MaxWidth q, qp_MaxHeight q))" "k = qp_Bitrate q"
    using assms(3) unfolding encode_size_def Let_def W_def [symmetric] H_def [symmetric] q_def [symmetric]
    by (auto split: prod.splits if_splits)
  have reg: "0 < cf_MaxHeight (en_Cfg en)" "cf_MaxHeight (en_Cfg en) \<le> 2 ^ 40" "0 < W \<and> 0 < H \<Longrightarrow> W \<le> 8 * H \<and> H \<le> 8 * W"
    using assms(1) by (simp_all add: regular_def W_def H_def Let_def)
  have "0 < w \<and> even w \<and> w \<le> qp_MaxWidth q \<and> 0 < h \<and> even h \<and> h \<le> qp_MaxHeight q"
  proof (cases "bd_Height body > 0 \<and> W > 0 \<and> H > 0")
    case True
    then have a: "aspect_box W H (qp_MaxWidth q, qp_MaxHeight q) = (w, h)" using enc(1) by simp
    have "qp_MaxHeight q \<le> cf_MaxHeight (en_Cfg en)" using c reg(1) by (simp add: height_limits_def)
    then have "qp_MaxHeight q \<le> 2 ^ 40" using reg(2) by (rule order_trans)
    then show ?thesis
      using aspect_box_within [OF _ _ _ _ _ _ _ a] aspect_box_pos [OF _ _ _ _ _ _ _ a] c True reg(3) by simp
  next
    case False
    then have "w = qp_MaxWidth q" "h = qp_MaxHeight q" using enc(1) unfolding if_not_P [OF False] by simp_all
    then show ?thesis using c by simp
  qed
  moreover have "max_bitrate en b \<le> cf_MaxBitrate (en_Cfg en)" "0 < b \<Longrightarrow> max_bitrate en b \<le> b" for b
    by (auto simp: max_bitrate_def)
  ultimately show ?thesis using c enc(2) by (meson order_trans)
qed

lemma stacked_size:
  "start_size en body (stacked_file en f) c = start_size en body f c" "start_prefers en body (stacked_file en f) c = start_prefers en body f c"
  "start_limits en body (stacked_file en f) c = start_limits en body f c"
proof -
  have e: "encode_size en body (stacked_file en f) = encode_size en body f"
    by (simp add: encode_size_def chosen_quality_def stacked_same stacked_meta)
  show p: "start_prefers en body (stacked_file en f) c = start_prefers en body f c"
    by (simp add: start_prefers_def prefers_def size_before_def e source_hevc_def source_av1_def stacked_meta)
  show l: "start_limits en body (stacked_file en f) c = start_limits en body f c"
    by (simp add: start_limits_def output_limits_def stacked_same frame_rate_def stacked_meta)
  show "start_size en body (stacked_file en f) c = start_size en body f c"
    unfolding start_size_def p l size_before_def e limited_size_def frame_rate_def stacked_meta by (rule refl)
qed

lemma start_size_within:
  assumes "regular en body f" "0 \<le> bd_Height body" "start_size en body f False = (w, h, k)"
  shows "even w \<and> even h \<and> 0 \<le> w \<and> 0 < h \<and> 0 < k \<and> (\<forall>l \<in> width_limits en body f. 0 < l \<longrightarrow> w \<le> l)
    \<and> (\<forall>l \<in> height_limits en body f. 0 < l \<longrightarrow> h \<le> l) \<and> k \<le> cf_MaxBitrate (en_Cfg en)
    \<and> (0 < c_Kbps (bitrate_cap en f) \<longrightarrow> k \<le> c_Kbps (bitrate_cap en f))
    \<and> (\<forall>ol codec. start_limits en body f False = Some ol \<and> codec = predicted_codec (start_prefers en body f False) \<longrightarrow>
         (0 < LevelMaxKbps codec (LevelFor ol codec) \<longrightarrow> k \<le> LevelMaxKbps codec (LevelFor ol codec))
         \<and> (let m = LevelMaxHeight codec (LevelFor ol codec) (derefInt (mf_ResolutionW (fl_meta f)))
                 (derefInt (mf_ResolutionH (fl_meta f))) (frame_rate f) in 0 < m \<longrightarrow> h \<le> m))"
proof -
  obtain w0 h0 k0 where e: "encode_size en body f = (w0, h0, k0)" by (cases "encode_size en body f") auto
  note b = encode_size_within [OF assms(1,2) e]
  show ?thesis
  proof (cases "start_limits en body f False")
    case None
    then show ?thesis using assms(3) b e by (simp add: start_size_def limited_size_def size_before_def)
  next
    case (Some ol)
    let ?c = "predicted_codec (start_prefers en body f False)"
    have fit: "fitOutputLevel ?c (LevelFor ol ?c) (derefInt (mf_ResolutionW (fl_meta f))) (derefInt (mf_ResolutionH (fl_meta f)))
        (frame_rate f) (w0, h0, k0) = (w, h, k)"
      using assms(3) Some e by (simp add: start_size_def limited_size_def size_before_def)
    have "0 < w0" "0 < h0" "0 < k0" "even w0" "even h0" using b by blast+
    note r = fitOutputLevel_within [OF fit this]
    have "w \<le> l" if "l \<in> width_limits en body f" "0 < l" for l using r b that by (meson order_trans)
    moreover have "h \<le> l" if "l \<in> height_limits en body f" "0 < l" for l using r b that by (meson order_trans)
    moreover have "k \<le> cf_MaxBitrate (en_Cfg en)" "0 < c_Kbps (bitrate_cap en f) \<Longrightarrow> k \<le> c_Kbps (bitrate_cap en f)"
      using r b by (meson order_trans)+
    ultimately show ?thesis using r Some by (simp add: Let_def)
  qed
qed


section \<open>The rungs of a ladder\<close>

lemma dedupe_length: "length (dedupe_loop seen rs) \<le> length rs"
  by (induction seen rs rule: dedupe_loop.induct) auto

lemma BuildLadder_rungs:
  assumes "1 < length (BuildLadder W H src codec cap mk)" "0 < H" "r \<in> set (BuildLadder W H src codec cap mk)"
  shows "rd_Height r \<le> H \<and> (0 < cap \<longrightarrow> rd_Height r \<le> cap) \<and> (0 < mk \<longrightarrow> rd_BitrateKbps r \<le> mk) \<and> (0 < src \<longrightarrow> rd_BitrateKbps r \<le> src)"
proof -
  define aspect where "aspect = (if W > 0 \<and> H > 0 then fdiv (of_int W) (of_int H) else f64 (16 / 9))"
  define keep where "keep = filter (\<lambda>t. \<not> fst t > H \<and> \<not> (cap > 0 \<and> fst t > cap)) ladderTiers"
  define mkr where "mkr = (\<lambda>t. renditionAt (fst t) (snd t) aspect codec src mk)"
  have l: "BuildLadder W H src codec cap mk = dedupeByBitrate (if keep = [] then [renditionAt H (snd (last ladderTiers)) aspect codec src mk] else map mkr keep)"
    using assms(2) by (simp add: BuildLadder_def Let_def aspect_def keep_def mkr_def)
  have "keep \<noteq> []" using assms(1) by (auto simp: l dedupeByBitrate_def split: if_splits)
  then have "r \<in> set (map mkr keep)"
    using assms(3) dedupe_loop_sub [of "\<lambda>_ _. True" "map mkr keep" "[]"] by (auto simp: l dedupeByBitrate_def split: if_splits)
  then obtain t where t: "r = mkr t" "t \<in> set keep" by auto
  then have "rd_Height r \<le> H \<and> (0 < cap \<longrightarrow> rd_Height r \<le> cap)" by (auto simp: mkr_def renditionAt_def keep_def)
  moreover have "(0 < mk \<longrightarrow> rd_BitrateKbps r \<le> mk) \<and> (0 < src \<longrightarrow> rd_BitrateKbps r \<le> src)"
    using cap_to_le(1) [of mk "cap_to src (scaleBitrateForCodec (snd t) codec)"] cap_to_le(2) [of mk] cap_to_le(2) [of src]
    by (auto simp: t(1) mkr_def renditionAt_def rung_kbps_def intro: order_trans)
  ultimately show ?thesis by blast
qed

lemma lower_cap_le: "0 < l \<Longrightarrow> 0 \<le> v \<Longrightarrow> 0 < lower_cap l v \<and> lower_cap l v \<le> l" "0 < v \<Longrightarrow> 0 < lower_cap l v \<and> lower_cap l v \<le> v"
  by (auto simp: lower_cap_def)

lemma lower_rate_le: "0 < l \<Longrightarrow> 0 < lower_rate l v \<and> lower_rate l v \<le> l" "0 < v \<Longrightarrow> 0 < lower_rate l v \<and> lower_rate l v \<le> v"
  by (auto simp: lower_rate_def)

lemma ladder_kbps_le:
  "0 < l \<Longrightarrow> l \<in> {cf_MaxBitrate (en_Cfg en), c_Kbps (bitrate_cap en f), LevelMaxKbps codec (ladder_level limits codec)} \<Longrightarrow>
     0 < ladder_kbps en f limits codec \<and> ladder_kbps en f limits codec \<le> l"
  unfolding ladder_kbps_def using lower_rate_le by (auto intro: order_trans) (meson order_trans)+

lemma Start_Ladder:
  assumes "Start en body f0 = Inr (Ladder codec ladder ap)"
  obtains pn f where "plan_start en body f0 = Inr pn" "f = stacked_file en (pn_File pn)" "\<not> video_copy en body f (pn_Copy pn)"
    "wants_ladder en body f False (pn_Burn pn)" "1 < length ladder" "codec = ladder_codec en (start_caps en body) f (ts_segments body)"
    "ladder = start_ladder en body (start_caps en body) f (start_limits en body f False) codec" "ap = start_audio en body f (pn_Audio pn) False"
proof -
  obtain pn where p: "plan_start en body f0 = Inr pn" using assms by (auto simp: Start_def split: sum.splits)
  define f where "f = stacked_file en (pn_File pn)"
  define copy where "copy = video_copy en body f (pn_Copy pn)"
  have "start_reply en body pn = Inr (Ladder codec ladder ap)" using assms p by (simp add: Start_def)
  then have w: "wants_ladder en body f copy (pn_Burn pn)" "1 < length ladder" "codec = ladder_codec en (start_caps en body) f (ts_segments body)"
    "ladder = start_ladder en body (start_caps en body) f (start_limits en body f copy) codec" "ap = start_audio en body f (pn_Audio pn) copy"
    unfolding start_reply_def Let_def f_def [symmetric] copy_def [symmetric] by (auto split: if_splits)
  then have "\<not> copy" by (simp add: wants_ladder_def)
  then show ?thesis using that p f_def copy_def w by simp
qed

text \<open>
  C10 (safety).  A ladder is only started for an Auto playback that is re-encoded without a burn-in and is not Dolby
  Vision profile 5; its codec is one the client takes and some worker encodes, H.264 when the client wants TS segments;
  and no rung is above the source, the client's display, the administered height or the caps on the bitrate.
\<close>

theorem Start_ladder_safe:
  assumes "Start en body f0 = Inr (Ladder codec ladder ap)" "lazyReprobe en f0 = Inr f"
    "0 \<le> cf_ABRAutoMaxHeight (en_Cfg en)" "r \<in> set ladder"
  shows "bd_Height body = 0 \<and> bd_BurnSubtitleStreamIndex body = None \<and> DVProfileKey (fl_meta f) \<noteq> ''5''
    \<and> (codec = ''h264'' \<or> \<not> ts_segments body \<and> (codec = ''hevc'' \<and> SupportsHEVC (start_caps en body) \<and> en_CanEncode en ''hevc''
         \<or> codec = ''av1'' \<and> SupportsAV1 (start_caps en body) \<and> en_CanEncode en ''av1''))
    \<and> rd_Height r \<le> derefInt (mf_ResolutionH (fl_meta f))
    \<and> (\<forall>l \<in> {cc_MaxHeight (start_caps en body), cf_ABRMaxHeight (en_Cfg en), cf_ABRAutoMaxHeight (en_Cfg en)}. 0 < l \<longrightarrow> rd_Height r \<le> l)
    \<and> (\<forall>l \<in> {cf_MaxBitrate (en_Cfg en), c_Kbps (bitrate_cap en f)}. 0 < l \<longrightarrow> rd_BitrateKbps r \<le> l)"
proof -
  obtain pn where p: "plan_start en body f0 = Inr pn" "wants_ladder en body (stacked_file en (pn_File pn)) False (pn_Burn pn)" "1 < length ladder"
    "codec = ladder_codec en (start_caps en body) (stacked_file en (pn_File pn)) (ts_segments body)"
    "ladder = start_ladder en body (start_caps en body) (stacked_file en (pn_File pn)) (start_limits en body (stacked_file en (pn_File pn)) False) codec"
    using Start_Ladder [OF assms(1)] by metis
  have f: "pn_File pn = f" using plan_start_Inr [OF p(1)] assms(2) by simp
  let ?g = "stacked_file en f"
  let ?caps = "start_caps en body" and ?lim = "start_limits en body ?g False"
  have w: "bd_Height body = 0" "pn_Burn pn = None" "DVProfileKey (fl_meta f) \<noteq> ''5''" "0 < derefInt (mf_ResolutionH (fl_meta f))"
    using p(2) by (simp_all add: f wants_ladder_def stacked_meta)
  have burn: "bd_BurnSubtitleStreamIndex body = None"
    using plan_start_Inr [OF p(1)] w(2) by (auto simp: burn_request_def split: option.splits if_splits)
  have codec: "codec = ''h264'' \<or> \<not> ts_segments body \<and> (codec = ''hevc'' \<and> SupportsHEVC ?caps \<and> en_CanEncode en ''hevc''
         \<or> codec = ''av1'' \<and> SupportsAV1 ?caps \<and> en_CanEncode en ''av1'')"
    unfolding p(4) by (simp add: ladder_codec_def Let_def)
  have r: "rd_Height r \<le> derefInt (mf_ResolutionH (fl_meta f))"
    "0 < ladder_cap en body ?caps ?g ?lim codec \<Longrightarrow> rd_Height r \<le> ladder_cap en body ?caps ?g ?lim codec"
    "0 < ladder_kbps en ?g ?lim codec \<Longrightarrow> rd_BitrateKbps r \<le> ladder_kbps en ?g ?lim codec"
    using BuildLadder_rungs [of "derefInt (mf_ResolutionW (fl_meta ?g))" "derefInt (mf_ResolutionH (fl_meta ?g))"] p(3,5) w(4) assms(4)
    by (auto simp: f start_ladder_def stacked_meta)
  have base: "0 < ladder_cap en body ?caps ?g ?lim codec \<and> ladder_cap en body ?caps ?g ?lim codec \<le> l"
    if "l \<in> {cc_MaxHeight ?caps, cf_ABRMaxHeight (en_Cfg en), cf_ABRAutoMaxHeight (en_Cfg en)}" "0 < l" for l
  proof -
    define c where "c = abrLadderCap (bd_Height body) (cf_ABRAutoMaxHeight (en_Cfg en)) (cf_ABRMaxHeight (en_Cfg en))"
    have c: "0 \<le> c" "l \<noteq> cc_MaxHeight ?caps \<Longrightarrow> 0 < c \<and> c \<le> l"
      using that assms(3) w(1) by (auto simp: c_def abrLadderCap_def Let_def)
    then have "0 < lower_cap (cc_MaxHeight ?caps) c \<and> lower_cap (cc_MaxHeight ?caps) c \<le> l"
      using lower_cap_le [of "cc_MaxHeight ?caps" c] lower_cap_le(2) [of c "cc_MaxHeight ?caps"] that by (cases "l = cc_MaxHeight ?caps") auto
    then show ?thesis
      using lower_cap_le(2) by (auto simp: ladder_cap_def Let_def c_def [symmetric] intro: order_trans split: option.splits)
  qed
  have "rd_Height r \<le> l" if "l \<in> {cc_MaxHeight ?caps, cf_ABRMaxHeight (en_Cfg en), cf_ABRAutoMaxHeight (en_Cfg en)}" "0 < l" for l
    using base [OF that] r(2) by linarith
  moreover have "rd_BitrateKbps r \<le> l" if "l \<in> {cf_MaxBitrate (en_Cfg en), c_Kbps (bitrate_cap en f)}" "0 < l" for l
    using ladder_kbps_le [OF that(2), of en ?g codec ?lim] that r(3) by (auto simp: stacked_same)
  ultimately show ?thesis using w burn codec r(1) by blast
qed

section \<open>The film re-encoded\<close>

lemma film_regular: "regular sample_en (sample_body False 1080) big_film"
proof -
  have v: "cf_MaxBitrate (en_Cfg sample_en) = 20000" "cf_MaxWidth (en_Cfg sample_en) = 3840" "cf_MaxHeight (en_Cfg sample_en) = 2160"
    "cc_MaxWidth (start_caps sample_en (sample_body False 1080)) = 3840" "cc_MaxHeight (start_caps sample_en (sample_body False 1080)) = 2160"
    "derefInt (mf_ResolutionW (fl_meta big_film)) = 3840" "derefInt (mf_ResolutionH (fl_meta big_film)) = 2160" by code_simp+
  show ?thesis unfolding regular_def width_limits_def height_limits_def v by (simp add: sample_body_def)
qed

lemma film_encode_plan:
  "plan_start sample_en (sample_body False 1080) big_film
     = Inr \<lparr>pn_File = big_film, pn_Audio = - 1, pn_Burn = None, pn_MaxSessions = 5, pn_Copy = False\<rparr>"
  "plan_start sample_en (sample_body False 0) big_film
     = Inr \<lparr>pn_File = big_film, pn_Audio = - 1, pn_Burn = None, pn_MaxSessions = 5, pn_Copy = False\<rparr>"
  by code_simp+

lemma film_encoded:
  "Start sample_en (sample_body False 1080) big_film =
     Inr (Single (single_session sample_en (sample_body False 1080) big_film (- 1) False)
                 (single_job sample_en (sample_body False 1080) big_film (- 1) None False))"
proof (rule Start_SingleI [OF film_encode_plan(1) _ film_probed(2)])
  show "\<not> static_ladder sample_en big_film False None" by (simp add: static_ladder_def sample_en_def)
  show "\<not> wants_ladder sample_en (sample_body False 1080) big_film False None" by (simp add: wants_ladder_def sample_body_def)
  show "False \<or> DVProfileKey (fl_meta big_film) \<noteq> ''5''" by code_simp
qed (simp add: video_copy_def)


lemma film_ladder_args:
  "ladder_codec sample_en (start_caps sample_en (sample_body False 0)) big_film (ts_segments (sample_body False 0)) = ''hevc''"
  "start_limits sample_en (sample_body False 0) big_film False = None"
  "ladder_cap sample_en (sample_body False 0) (start_caps sample_en (sample_body False 0)) big_film None ''hevc'' = 1080"
  "ladder_kbps sample_en big_film None ''hevc'' = 20000"
  "derefInt (mf_ResolutionW (fl_meta big_film)) = 3840" "derefInt (mf_ResolutionH (fl_meta big_film)) = 2160"
  "(case fl_Bitrate big_film of Some b \<Rightarrow> go_div b 1000 | None \<Rightarrow> 0) = 25000"
  by code_simp+

lemma film_tiers: "map rd_Height (BuildLadder 3840 2160 25000 ''hevc'' 1080 20000) = [1080, 720, 480, 360]"
  by (simp add: ladder_eval)

lemma film_rungs:
  "map rd_Height (start_ladder sample_en (sample_body False 0) (start_caps sample_en (sample_body False 0)) big_film
     (start_limits sample_en (sample_body False 0) big_film False)
     (ladder_codec sample_en (start_caps sample_en (sample_body False 0)) big_film (ts_segments (sample_body False 0)))) = [1080, 720, 480, 360]"
  unfolding start_ladder_def film_ladder_args by (rule film_tiers)

lemma film_ladder:
  obtains l ap where "Start sample_en (sample_body False 0) big_film = Inr (Ladder ''hevc'' l ap)" "map rd_Height l = [1080, 720, 480, 360]"
proof -
  let ?l = "start_ladder sample_en (sample_body False 0) (start_caps sample_en (sample_body False 0)) big_film
     (start_limits sample_en (sample_body False 0) big_film False)
     (ladder_codec sample_en (start_caps sample_en (sample_body False 0)) big_film (ts_segments (sample_body False 0)))"
  have "length ?l = 4" using arg_cong [OF film_rungs, of length] by simp
  moreover have "\<not> static_ladder sample_en big_film False None" by (simp add: static_ladder_def sample_en_def)
  moreover have "wants_ladder sample_en (sample_body False 0) big_film False None" "DVProfileKey (fl_meta big_film) \<noteq> ''5''" by code_simp+
  moreover have "\<not> video_copy sample_en (sample_body False 0) big_film False" by (simp add: video_copy_def)
  ultimately show ?thesis
    using film_rungs that by (simp add: Start_def film_encode_plan film_probed start_reply_def Let_def film_ladder_args(1))
qed

text \<open>At Auto the film is given a ladder below the 1080 lines administered for it.\<close>

theorem Start_ladder_safe_witness:
  "\<exists>c l ap. Start sample_en (sample_body False 0) big_film = Inr (Ladder c l ap) \<and> length l = 4 \<and> (\<forall>r \<in> set l. rd_Height r \<le> 1080)"
proof -
  obtain l ap where l: "Start sample_en (sample_body False 0) big_film = Inr (Ladder ''hevc'' l ap)" "map rd_Height l = [1080, 720, 480, 360]"
    by (rule film_ladder)
  have v: "0 \<le> cf_ABRAutoMaxHeight (en_Cfg sample_en)" "cf_ABRAutoMaxHeight (en_Cfg sample_en) = 1080" by code_simp+
  have "length l = 4" using arg_cong [OF l(2), of length] by simp
  then show ?thesis using Start_ladder_safe [OF l(1) film_probed(1) v(1)] l(1) v(2) by auto
qed

end
