(* ===== verification/StartCommit.thy ===== *)
theory StartCommit
  imports StartBounds
begin

text \<open>
  The end of \<open>NativeTranscodeHandler.Start\<close> (\<open>internal/api/v1/transcode.go\<close>): the session is created under the
  viewer's cap, the job is dispatched, and a session whose job no worker takes is deleted again.
\<close>

section \<open>Creating the session and dispatching its job\<close>

datatype CommitError = CommitTooMany | CommitBurnInUnavailable | CommitInternal

definition commit_single ::
  "SessionStore \<Rightarrow> JobStore \<Rightarrow> int \<Rightarrow> LockSpin \<Rightarrow> int \<Rightarrow> Session \<Rightarrow> TranscodeJob
     \<Rightarrow> SessionStore \<times> JobStore \<times> (CommitError + string)" where
  "commit_single ss js now spin maxPerUser sess job =
    (case CreateWithUserCap ss now spin sess maxPerUser of
       (ss1, ErrUserAtCap) \<Rightarrow> (ss1, js, Inl CommitTooMany)
     | (ss1, ErrContext) \<Rightarrow> (ss1, js, Inl CommitInternal)
     | (ss1, Created) \<Rightarrow>
         (case DispatchJob js job of
            (js1, Inr addr) \<Rightarrow> (ss1, js1, Inr addr)
          | (js1, Inl ErrNoCapableWorker) \<Rightarrow>
              (Delete ss1 (ses_ID sess), js1,
               Inl (if tj_BurnSubtitle job \<noteq> None then CommitBurnInUnavailable else CommitInternal))))"

lemma Get_Delete: "Get (Delete st i) k = (if k = i then None else Get st k)"
  by (simp add: Get_def Delete_def SRem_def)

lemma Get_Create: "Get (Create st s) k = (if k = ses_ID s then Some s else Get st k)"
  by (simp add: Get_def Create_def SAdd_def)

lemma Get_List: "Get (fst (List_sessions st)) k = Get st k"
  by (simp add: Get_def List_sessions_def list_loop_sessions)

lemma CreateWithUserCap_Get:
  assumes "CreateWithUserCap st now spin sess cap = (st', r)"
  shows "Get st' k = (if r = Created \<and> k = ses_ID sess then Some sess else Get st k)"
  using assms unfolding CreateWithUserCap_def
  by (auto simp: Get_Create Get_List split: if_splits LockSpin.splits)

lemma DispatchJob_queues:
  assumes "DispatchJob js job = (js', r)"
  shows "(\<forall>e. r = Inl e \<longrightarrow> js_global js' = js_global js \<and> js_queue js' = js_queue js)
    \<and> (r = Inr [] \<and> snd (ListWorkers js) = [] \<longrightarrow> js_global js' = js_global js @ [job] \<and> js_queue js' = js_queue js)
    \<and> (\<forall>addr. r = Inr addr \<and> snd (ListWorkers js) \<noteq> [] \<longrightarrow> js_global js' = js_global js
         \<and> js_queue js' = (js_queue js)(addr := js_queue js addr @ [job\<lparr>tj_CostCenti := stamped_cost job\<rparr>]))"
proof (cases rule: DispatchJob_cases [of js job])
  case (worker w)
  then show ?thesis using assms by (auto simp: push_job_def ListWorkers_def)
qed (use assms in \<open>auto simp: ListWorkers_def EnqueueJob_def\<close>)

text \<open>
  C11 (error).  From the creation of the session on, a start is all or nothing: refused, it leaves every session and every
  queue as they were, and the refusal says why: the cap, no worker for the burn-in, or an internal error; accepted, it adds the
  session and one job, at the end of the queue of the worker it names, or of the shared queue when there is no worker.
\<close>

theorem commit_all_or_nothing:
  assumes "commit_single ss js now spin cap sess job = (ss', js', r)" "Get ss (ses_ID sess) = None"
  shows "(\<forall>e. r = Inl e \<longrightarrow> Get ss' = Get ss \<and> js_global js' = js_global js \<and> js_queue js' = js_queue js
         \<and> (e = CommitTooMany \<longleftrightarrow> snd (CreateWithUserCap ss now spin sess cap) = ErrUserAtCap)
         \<and> (e = CommitBurnInUnavailable \<longrightarrow> tj_BurnSubtitle job \<noteq> None))
    \<and> (\<forall>addr. r = Inr addr \<longrightarrow> Get ss' = (Get ss)(ses_ID sess \<mapsto> sess)
         \<and> (if snd (ListWorkers js) = [] then js_global js' = js_global js @ [job] \<and> js_queue js' = js_queue js
            else js_global js' = js_global js
              \<and> js_queue js' = (js_queue js)(addr := js_queue js addr @ [job\<lparr>tj_CostCenti := stamped_cost job\<rparr>])))"
proof -
  obtain ss1 c where c: "CreateWithUserCap ss now spin sess cap = (ss1, c)" by (cases "CreateWithUserCap ss now spin sess cap") auto
  obtain js1 d where d: "DispatchJob js job = (js1, d)" by (cases "DispatchJob js job") auto
  have g: "Get ss1 = (if c = Created then (Get ss)(ses_ID sess \<mapsto> sess) else Get ss)"
    using CreateWithUserCap_Get [OF c] by (auto simp: fun_eq_iff)
  have undo: "Get (Delete ss1 (ses_ID sess)) = Get ss" using g assms(2) by (auto simp: fun_eq_iff Get_Delete split: if_splits)
  have none: "d = Inr a \<Longrightarrow> snd (ListWorkers js) = [] \<Longrightarrow> a = []" for a
    using d by (auto simp: DispatchJob_def Let_def case_prod_beta split: if_splits)
  note q = DispatchJob_queues [OF d]
  show ?thesis
  proof (cases c)
    case Created
    then show ?thesis
    proof (cases d)
      case (Inl e)
      then have "(ss', js', r) = (Delete ss1 (ses_ID sess), js1,
          Inl (if tj_BurnSubtitle job \<noteq> None then CommitBurnInUnavailable else CommitInternal))"
        using assms(1) c d Created by (cases e) (simp add: commit_single_def)
      then have r: "ss' = Delete ss1 (ses_ID sess)" "js' = js1"
        "r = Inl (if tj_BurnSubtitle job \<noteq> None then CommitBurnInUnavailable else CommitInternal)" by simp_all
      show ?thesis unfolding r using q Inl undo c Created by auto
    next
      case (Inr a)
      then have r: "ss' = ss1" "js' = js1" "r = Inr a" using assms(1) c d Created by (simp_all add: commit_single_def)
      show ?thesis unfolding r using q Inr none g Created by auto
    qed
  qed (use assms(1) c g in \<open>auto simp: commit_single_def\<close>)
qed

section \<open>The film on a divided fleet\<close>

definition featured :: "string \<Rightarrow> string list \<Rightarrow> WorkerRegistration" where
  "featured i features = (sample_worker i [''libx264''] 0)\<lparr>wr_Features := features\<rparr>"

definition one_of_each :: JobStore where
  "one_of_each = RegisterWorker (RegisterWorker empty_store (featured ''a'' [''dolby_vision'']))
     (featured ''b'' [''audio_passthrough''])"

text \<open>
  The handler asks for each feature on its own: a fleet whose workers divide the two features of the film
  passes both questions, and no worker takes the job.
\<close>

lemma divided_fleet:
  assumes "j = single_job sample_en (sample_body True 0) big_film (- 1) None True"
  shows "set (jn_Features (jobNeeds j)) \<subseteq> Collect (FleetHasFeature one_of_each)
    \<and> snd (DispatchJob one_of_each j) = Inl ErrNoCapableWorker"
proof -
  have fs: "jn_Features (jobNeeds j) = [''dolby_vision'', ''audio_passthrough'']"
    by (simp add: assms jobNeeds_def single_job_fields film_dovi film_passthrough ReshapesDolbyVision_def IsVideoCopy_def
        job_audio_codec_def audio_plan_passthrough [OF film_passthrough [unfolded start_audio_def], folded start_audio_def] IsDolbyEncode_def)
  have f: "FleetHasFeature one_of_each ''dolby_vision''" "FleetHasFeature one_of_each ''audio_passthrough''"
    "list_all (\<lambda>w. \<not> hasAllFeatures (wr_Features w) [''dolby_vision'', ''audio_passthrough'']) (snd (ListWorkers one_of_each))"
    by code_simp+
  show ?thesis
  proof (cases rule: DispatchJob_cases [of one_of_each j])
    case (worker w)
    then show ?thesis using f(3) by (auto simp: fs list_all_iff hasAllFeatures_def)
  qed (use f fs in auto)
qed

lemma commit_undispatched:
  "snd (DispatchJob js job) = Inl e \<Longrightarrow> \<exists>e'. snd (snd (commit_single ss js now spin cap sess job)) = Inl e'"
  by (cases "DispatchJob js job"; cases "CreateWithUserCap ss now spin sess cap"; cases "snd (CreateWithUserCap ss now spin sess cap)"; cases e)
    (simp_all add: commit_single_def)

theorem commit_all_or_nothing_witness:
  "Get (fst (commit_single two_users one_of_each 5 LockAcquired 5 (sample_session ''s1'' ''ann'')
      (single_job sample_en (sample_body True 0) big_film (- 1) None True))) ''s1'' = None"
proof -
  let ?j = "single_job sample_en (sample_body True 0) big_film (- 1) None True"
  let ?c = "commit_single two_users one_of_each 5 LockAcquired 5 (sample_session ''s1'' ''ann'') ?j"
  have free: "Get two_users ''s1'' = None" by code_simp
  have c: "?c = (fst ?c, fst (snd ?c), snd (snd ?c))" by simp
  obtain e where "snd (snd ?c) = Inl e"
    using divided_fleet [OF refl] commit_undispatched by blast
  then show ?thesis
    using commit_all_or_nothing [OF c] free by (simp add: sample_session_def)
qed

end
