(* ===== verification/AbrTimeline.thy ===== *)
theory AbrTimeline
  imports Quality Filters
begin

text \<open>
  The timeline of an adaptive ladder (\<open>internal/api/v1/transcode_abr.go\<close>): where each segment of a rung
  begins, how many there are, and the media playlist that names them before any of them is encoded.  Seconds and
  frame rates are \<open>float64\<close> values.
\<close>

section \<open>The grid of segments\<close>

definition SegmentDuration :: int where
  "SegmentDuration = 4"

definition maxPredictedSegments :: int where
  "maxPredictedSegments = 50000"

definition abrSegmentBoundarySec :: "int \<Rightarrow> rat \<Rightarrow> rat" where
  "abrSegmentBoundarySec segIdx fps =
    (if fps \<le> 0 then fmul (f64 (of_int segIdx)) (of_int SegmentDuration)
     else fdiv (of_int \<lceil>fmul (fmul (f64 (of_int segIdx)) (of_int SegmentDuration)) fps\<rceil>) fps)"

text \<open>The total of the source, and the two loops over the grid.\<close>

definition total_sec :: "int \<Rightarrow> rat" where
  "total_sec durationMS = fdiv (f64 (of_int durationMS)) 1000"

function count_loop :: "rat \<Rightarrow> rat \<Rightarrow> int \<Rightarrow> int" where
  "count_loop tot fps i =
    (if i > 0 \<and> abrSegmentBoundarySec i fps \<ge> tot then i
     else if i > maxPredictedSegments then i
     else count_loop tot fps (i + 1))"
  by pat_completeness auto

termination
  by (relation "measure (\<lambda>(_, _, i). nat (maxPredictedSegments + 1 - i))") auto

declare count_loop.simps [simp del]

definition predictedSegmentCount :: "int \<Rightarrow> rat \<Rightarrow> int" where
  "predictedSegmentCount durationMS fps = (if durationMS \<le> 0 then 0 else count_loop (total_sec durationMS) fps 0)"

section \<open>The grid moves on\<close>

text \<open>Rounding is within a relative error of \<open>2\<^sup>-\<^sup>5\<^sup>3\<close>; what three roundings can take away or add.\<close>

lemma f64_int_near: "0 \<le> i \<Longrightarrow> of_int i * (1 - 1 / 2 ^ 53) \<le> f64 (of_int i) \<and> f64 (of_int i) \<le> of_int i * (1 + 1 / 2 ^ 53)"
  by (rule f64_near) simp

lemma fmul_near:
  assumes "0 \<le> a" "0 \<le> b" "a * (1 - 1 / 2 ^ 53) ^ n \<le> x" "x \<le> a * (1 + 1 / 2 ^ 53) ^ n"
  shows "a * b * (1 - 1 / 2 ^ 53) ^ Suc n \<le> fmul x b \<and> fmul x b \<le> a * b * (1 + 1 / 2 ^ 53) ^ Suc n"
proof -
  let ?l = "1 - 1 / 2 ^ 53 :: rat" and ?u = "1 + 1 / 2 ^ 53 :: rat"
  have x: "0 \<le> x" using assms(1,3) order_trans [of 0 "a * ?l ^ n" x] by simp
  have "(a * ?l ^ n) * (b * ?l) \<le> x * (b * ?l)" using assms(2,3) by (intro mult_right_mono) auto
  moreover have "x * (b * ?u) \<le> (a * ?u ^ n) * (b * ?u)" using assms(2,4) by (intro mult_right_mono) auto
  moreover have "x * b * ?l \<le> fmul x b \<and> fmul x b \<le> x * b * ?u" unfolding fmul_def using x assms(2) by (intro f64_near) simp
  ultimately show ?thesis by (simp add: mult.assoc mult.commute mult.left_commute)
qed

text \<open>What three roundings before and one after the ceiling can take away or add.\<close>

lemma grid_product_near:
  assumes "0 \<le> i" "0 < fps"
  shows "4 * of_int i * fps * (1 - 1 / 2 ^ 53) ^ 3 \<le> fmul (fmul (f64 (of_int i)) 4) fps
    \<and> fmul (fmul (f64 (of_int i)) 4) fps \<le> 4 * of_int i * fps * (1 + 1 / 2 ^ 53) ^ 3"
proof -
  have "of_int i * 4 * (1 - 1 / 2 ^ 53) ^ Suc 1 \<le> fmul (f64 (of_int i)) 4 \<and> fmul (f64 (of_int i)) 4 \<le> of_int i * 4 * (1 + 1 / 2 ^ 53) ^ Suc 1"
    using f64_int_near [OF assms(1)] assms(1) by (intro fmul_near) simp_all
  then have "of_int i * 4 * fps * (1 - 1 / 2 ^ 53) ^ Suc (Suc 1) \<le> fmul (fmul (f64 (of_int i)) 4) fps
      \<and> fmul (fmul (f64 (of_int i)) 4) fps \<le> of_int i * 4 * fps * (1 + 1 / 2 ^ 53) ^ Suc (Suc 1)"
    using assms by (intro fmul_near) simp_all
  then show ?thesis by (simp add: eval_nat_numeral mult.commute mult.left_commute)
qed

lemma flat_boundary_near:
  assumes "0 \<le> i" "fps \<le> 0"
  shows "4 * of_int i * (1 - 1 / 2 ^ 53) ^ 2 \<le> abrSegmentBoundarySec i fps \<and> abrSegmentBoundarySec i fps \<le> 4 * of_int i * (1 + 1 / 2 ^ 53) ^ 2"
proof -
  have "of_int i * 4 * (1 - 1 / 2 ^ 53) ^ Suc 1 \<le> fmul (f64 (of_int i)) 4 \<and> fmul (f64 (of_int i)) 4 \<le> of_int i * 4 * (1 + 1 / 2 ^ 53) ^ Suc 1"
    using f64_int_near [OF assms(1)] assms(1) by (intro fmul_near) simp_all
  then show ?thesis using assms(2) by (simp add: abrSegmentBoundarySec_def SegmentDuration_def eval_nat_numeral mult.commute mult.left_commute)
qed

lemma fdiv_near: "0 \<le> c \<Longrightarrow> 0 < fps \<Longrightarrow> c / fps * (1 - 1 / 2 ^ 53) \<le> fdiv c fps \<and> fdiv c fps \<le> c / fps * (1 + 1 / 2 ^ 53)"
  unfolding fdiv_def by (intro f64_near) simp

lemma boundary_near:
  assumes "0 \<le> i" "0 < fps"
  shows "4 * of_int i * (1 - 1 / 2 ^ 53) ^ 4 \<le> abrSegmentBoundarySec i fps
    \<and> abrSegmentBoundarySec i fps \<le> (4 * of_int i * (1 + 1 / 2 ^ 53) ^ 3 + 1 / fps) * (1 + 1 / 2 ^ 53)"
proof -
  let ?l = "1 - 1 / 2 ^ 53 :: rat" and ?u = "1 + 1 / 2 ^ 53 :: rat"
  define x where "x = fmul (fmul (f64 (of_int i)) 4) fps"
  have x: "4 * of_int i * fps * ?l ^ 3 \<le> x" "x \<le> 4 * of_int i * fps * ?u ^ 3"
    using grid_product_near [OF assms] by (simp_all add: x_def)
  have x0: "0 \<le> x" by (rule order_trans [OF _ x(1)]) (use assms in simp)
  have b: "abrSegmentBoundarySec i fps = fdiv (of_int \<lceil>x\<rceil>) fps"
    using assms(2) by (simp add: abrSegmentBoundarySec_def SegmentDuration_def x_def)
  have c: "x \<le> of_int \<lceil>x\<rceil>" "of_int \<lceil>x\<rceil> \<le> x + 1" by (simp_all add: of_int_ceiling_le_add_one)
  have d: "of_int \<lceil>x\<rceil> / fps * ?l \<le> fdiv (of_int \<lceil>x\<rceil>) fps \<and> fdiv (of_int \<lceil>x\<rceil>) fps \<le> of_int \<lceil>x\<rceil> / fps * ?u"
    using x0 assms(2) c(1) by (intro fdiv_near) linarith+
  have "4 * of_int i * ?l ^ 3 \<le> of_int \<lceil>x\<rceil> / fps" using order_trans [OF x(1) c(1)] assms(2) by (simp add: pos_le_divide_eq mult.assoc mult.commute mult.left_commute)
  then have "4 * of_int i * ?l ^ 3 * ?l \<le> of_int \<lceil>x\<rceil> / fps * ?l" by (rule mult_right_mono) simp
  moreover have "of_int \<lceil>x\<rceil> / fps \<le> 4 * of_int i * ?u ^ 3 + 1 / fps"
    using order_trans [OF c(2) add_right_mono [OF x(2)]] assms(2) by (simp add: pos_divide_le_eq distrib_left distrib_right mult.assoc mult.commute mult.left_commute)
  then have "of_int \<lceil>x\<rceil> / fps * ?u \<le> (4 * of_int i * ?u ^ 3 + 1 / fps) * ?u" by (rule mult_right_mono) simp
  ultimately show ?thesis unfolding b using d by (simp add: eval_nat_numeral mult.assoc)
qed

lemma boundary_ge: "0 \<le> i \<Longrightarrow> of_int i \<le> abrSegmentBoundarySec i fps"
proof -
  assume i: "0 \<le> i"
  have "(of_int i :: rat) * 1 \<le> of_int i * (4 * (1 - 1 / 2 ^ 53) ^ 4)" "(of_int i :: rat) * 1 \<le> of_int i * (4 * (1 - 1 / 2 ^ 53) ^ 2)"
    using i by (intro mult_left_mono; simp add: eval_nat_numeral)+
  then show ?thesis using boundary_near [OF i, of fps] flat_boundary_near [OF i, of fps] by (cases "0 < fps") (auto simp: mult.commute mult.left_commute)
qed

text \<open>A frame rate of ordinary material; with half a frame a second a segment is two frames.\<close>

definition usual_rate :: "rat \<Rightarrow> bool" where
  "usual_rate fps \<longleftrightarrow> fps \<le> 0 \<or> 1 / 2 \<le> fps \<and> fps \<le> 1000"

lemma grid_gap:
  assumes "0 \<le> i" "i \<le> 50001"
  shows "(1 / 2 :: rat) \<le> of_int (i + 1) * (1 - 1 / 2 ^ 53) ^ 3 - of_int i * (1 + 1 / 2 ^ 53) ^ 3"
proof -
  have "of_int i * ((1 + 1 / 2 ^ 53) ^ 3 - (1 - 1 / 2 ^ 53) ^ 3) \<le> 50001 * ((1 + 1 / 2 ^ 53) ^ 3 - (1 - 1 / 2 ^ 53 :: rat) ^ 3)"
    using assms by (intro mult_right_mono) (simp_all add: eval_nat_numeral)
  also have "\<dots> \<le> (1 - 1 / 2 ^ 53) ^ 3 - 1 / 2" by (simp add: eval_nat_numeral)
  finally show ?thesis by (simp add: algebra_simps)
qed

lemma boundary_strict:
  assumes "0 \<le> i" "i \<le> 50001" "usual_rate fps"
  shows "abrSegmentBoundarySec i fps < abrSegmentBoundarySec (i + 1) fps"
proof (cases "fps \<le> 0")
  case True
  have "4 * of_int i * (1 + 1 / 2 ^ 53) ^ 2 < 4 * of_int (i + 1) * (1 - 1 / 2 ^ 53 :: rat) ^ 2"
  proof -
    have "(of_int i :: rat) * ((1 + 1 / 2 ^ 53) ^ 2 - (1 - 1 / 2 ^ 53) ^ 2) \<le> 50001 * ((1 + 1 / 2 ^ 53) ^ 2 - (1 - 1 / 2 ^ 53) ^ 2)"
      using assms by (intro mult_right_mono) (simp_all add: eval_nat_numeral)
    also have "\<dots> < (1 - 1 / 2 ^ 53) ^ 2" by (simp add: eval_nat_numeral)
    finally show ?thesis by (simp add: algebra_simps)
  qed
  then show ?thesis
    using conjunct2 [OF flat_boundary_near [OF assms(1) True]] conjunct1 [OF flat_boundary_near [OF _ True, of "i + 1"]] assms(1) by linarith
next
  case False
  let ?l = "1 - 1 / 2 ^ 53 :: rat" and ?u = "1 + 1 / 2 ^ 53 :: rat"
  define x where "x = (\<lambda>i. fmul (fmul (f64 (of_int i)) 4) fps)"
  have fps: "0 < fps" "1 / 2 \<le> fps" "fps \<le> 1000" using assms(3) False by (simp_all add: usual_rate_def)
  have b: "abrSegmentBoundarySec k fps = fdiv (of_int \<lceil>x k\<rceil>) fps" for k
    using fps by (simp add: abrSegmentBoundarySec_def SegmentDuration_def x_def)
  have xi: "x i \<le> 4 * of_int i * fps * ?u ^ 3" and xj: "4 * of_int (i + 1) * fps * ?l ^ 3 \<le> x (i + 1)" and x0: "0 \<le> x i"
    using grid_product_near [OF assms(1) fps(1)] grid_product_near [of "i + 1", OF _ fps(1)] assms(1) fps(1)
    by (auto simp: x_def intro: order_trans [rotated])
  have "4 * (1 / 2) * (1 / 2) \<le> 4 * fps * (of_int (i + 1) * ?l ^ 3 - of_int i * ?u ^ 3)"
    using grid_gap [OF assms(1,2)] fps by (intro mult_mono) auto
  then have "x i + 1 \<le> x (i + 1)" using xi xj by (simp add: algebra_simps)
  then have c: "\<lceil>x i\<rceil> + 1 \<le> \<lceil>x (i + 1)\<rceil>" using ceiling_mono [of "x i + 1" "x (i + 1)"] by simp
  have "of_int i * fps * ?u ^ 3 \<le> 50001 * 1000 * 2" using assms fps by (intro mult_mono) (simp_all add: eval_nat_numeral)
  then have "of_int \<lceil>x i\<rceil> \<le> (2 ^ 40 :: rat)" using xi of_int_ceiling_le_add_one [of "x i"] by simp
  then have small: "\<lceil>x i\<rceil> \<le> 2 ^ 40" "0 \<le> \<lceil>x i\<rceil>" using x0 by (simp_all flip: of_int_power)
  have "of_int \<lceil>x i\<rceil> * (?u - ?l) \<le> 2 ^ 40 * (?u - ?l)" using small by (intro mult_right_mono) (simp_all flip: of_int_power)
  also have "\<dots> < ?l" by simp
  finally have "of_int \<lceil>x i\<rceil> * ?u < (of_int \<lceil>x i\<rceil> + 1) * ?l" by (simp add: algebra_simps)
  also have "\<dots> \<le> of_int \<lceil>x (i + 1)\<rceil> * ?l" using c by (intro mult_right_mono) (simp_all flip: of_int_add)
  finally have "of_int \<lceil>x i\<rceil> / fps * ?u < of_int \<lceil>x (i + 1)\<rceil> / fps * ?l" using fps by (simp add: divide_strict_right_mono)
  then show ?thesis
    using fdiv_near [of "of_int \<lceil>x i\<rceil>" fps] fdiv_near [of "of_int \<lceil>x (i + 1)\<rceil>" fps] small c fps unfolding b by (simp add: linorder_not_le) linarith
qed

section \<open>The predicted playlist\<close>

text \<open>The segments the loop writes: index, beginning and end.\<close>

lemma f64_positive: "0 < f64 x \<longleftrightarrow> 0 < x"
proof -
  have p: "0 < f64 y" if "0 < y" for y
  proof -
    have "0 < y * (1 - 1 / 2 ^ 53)" using that by simp
    also have "\<dots> \<le> f64 y" using that by (intro conjunct1 [OF f64_near]) simp
    finally show ?thesis .
  qed
  have "f64 x < 0" if "x < 0" using p [of "- x"] that by (simp add: f64_def)
  moreover have "f64 0 = 0" by (simp add: f64_def)
  ultimately show ?thesis using p by (metis less_asym linorder_neqE_linordered_idom)
qed

function segment_loop :: "rat \<Rightarrow> rat \<Rightarrow> nat \<Rightarrow> (nat \<times> rat \<times> rat) list" where
  "segment_loop tot fps i =
    (let start = abrSegmentBoundarySec (int i) fps; next = abrSegmentBoundarySec (int i + 1) fps;
         stop = (if next > tot then tot else next)
     in if i > 0 \<and> start \<ge> tot then []
        else if fsub stop start \<le> 0 then []
        else if stop \<ge> tot then [(i, start, stop)]
        else (i, start, stop) # segment_loop tot fps (i + 1))"
  by pat_completeness auto

termination
proof (relation "measure (\<lambda>(tot, _, i). nat \<lceil>tot\<rceil> - i)", goal_cases)
  case (2 tot fps i start "next" stop)
  have "start < stop" using 2 f64_positive [of "stop - start"] by (simp add: fsub_def not_le)
  moreover have "of_int (int i) \<le> start" unfolding 2 by (rule boundary_ge) simp
  moreover have "stop < tot" using 2 by simp
  ultimately have "(of_nat i :: rat) < tot" by simp
  then show ?case by (simp add: less_ceiling_iff) linarith
qed simp

declare segment_loop.simps [simp del]

definition predicted_segments :: "int \<Rightarrow> rat \<Rightarrow> (nat \<times> rat \<times> rat) list" where
  "predicted_segments durationMS fps = segment_loop (total_sec durationMS) fps 0"

definition publicSeg :: "string \<Rightarrow> string \<Rightarrow> string" where
  "publicSeg base path = (if base = [] then path else TrimRight (CHR ''/'') base @ path)"

definition abrSegExt :: "bool \<Rightarrow> string" where
  "abrSegExt fmp4 = (if fmp4 then ''.m4s'' else ''.ts'')"

definition rung_url :: "string \<Rightarrow> string \<Rightarrow> string \<Rightarrow> string" where
  "rung_url sid rung rest = ''/api/v1/transcode/sessions/'' @ sid @ ''/abr/'' @ rung @ ''/'' @ rest"

definition segment_lines :: "string \<Rightarrow> string \<Rightarrow> string \<Rightarrow> bool \<Rightarrow> string \<Rightarrow> nat \<times> rat \<times> rat \<Rightarrow> string list" where
  "segment_lines sid rung token fmp4 base = (\<lambda>(i, start, stop).
    [''#EXTINF:'' @ fmt_fixed 3 (fsub stop start) @ '','',
     publicSeg base (rung_url sid rung (''seg/'' @ Itoa (int i) @ abrSegExt fmp4 @ ''?token='' @ token))])"

definition variant_lines :: "int \<Rightarrow> rat \<Rightarrow> string \<Rightarrow> string \<Rightarrow> string \<Rightarrow> bool \<Rightarrow> string \<Rightarrow> string list" where
  "variant_lines durationMS fps sid rung token fmp4 base =
    [''#EXTM3U'', ''#EXT-X-VERSION:6'', ''#EXT-X-TARGETDURATION:'' @ Itoa SegmentDuration, ''#EXT-X-MEDIA-SEQUENCE:0'',
     ''#EXT-X-PLAYLIST-TYPE:VOD'']
    @ (if fmp4 then [''#EXT-X-MAP:URI='' @ [CHR 0x22] @ publicSeg base (rung_url sid rung (''seg/init.mp4?token='' @ token)) @ [CHR 0x22]]
       else [])
    @ concat (map (segment_lines sid rung token fmp4 base) (predicted_segments durationMS fps))
    @ [''#EXT-X-ENDLIST'']"

definition buildPredictedVariantPlaylist :: "int \<Rightarrow> rat \<Rightarrow> string \<Rightarrow> string \<Rightarrow> string \<Rightarrow> bool \<Rightarrow> string \<Rightarrow> string" where
  "buildPredictedVariantPlaylist durationMS fps sid rung token fmp4 base =
     concat (map (\<lambda>l. l @ [newline]) (variant_lines durationMS fps sid rung token fmp4 base))"

section \<open>The playlist and the bound of the segment handler agree\<close>

lemma boundary_zero: "abrSegmentBoundarySec 0 fps = 0"
  by (simp add: abrSegmentBoundarySec_def fmul_def fdiv_def f64_def)

lemma count_loop_ge: "i \<le> count_loop tot fps i"
proof (induction tot fps i rule: count_loop.induct)
  case (1 tot fps i)
  then show ?case by (subst count_loop.simps) (auto simp: algebra_simps)
qed

text \<open>The segments from the i-th on, when the count is not cut off by its limit.\<close>

lemma segment_loop_grid:
  assumes "abrSegmentBoundarySec (int i) fps < tot" "usual_rate fps" "count_loop tot fps (int i) \<le> maxPredictedSegments"
  shows "segment_loop tot fps i = map (\<lambda>k. (k, abrSegmentBoundarySec (int k) fps, min (abrSegmentBoundarySec (int k + 1) fps) tot))
    [i ..< nat (count_loop tot fps (int i))]"
  using assms
proof (induction tot fps i rule: segment_loop.induct)
  case (1 tot fps i)
  let ?b = "\<lambda>k. abrSegmentBoundarySec k fps"
  have lim: "int i \<le> maxPredictedSegments" using 1(4) count_loop_ge [of "int i" tot fps] by simp
  have up: "?b (int i) < ?b (int i + 1)" using lim 1(3) by (intro boundary_strict) (simp_all add: maxPredictedSegments_def)
  have c: "count_loop tot fps (int i) = count_loop tot fps (int i + 1)"
    using 1(2) lim by (subst count_loop.simps) simp
  have pos: "\<not> fsub (if ?b (int i + 1) > tot then tot else ?b (int i + 1)) (?b (int i)) \<le> 0"
    using up 1(2) f64_positive by (simp add: fsub_def not_le)
  have e: "segment_loop tot fps i = (if ?b (int i + 1) \<ge> tot then [(i, ?b (int i), min (?b (int i + 1)) tot)]
      else (i, ?b (int i), ?b (int i + 1)) # segment_loop tot fps (i + 1))"
    using 1(2) pos by (subst segment_loop.simps) (auto simp: Let_def min_def)
  show ?case
  proof (cases "?b (int i + 1) \<ge> tot")
    case True
    then have "count_loop tot fps (int i + 1) = int i + 1" by (subst count_loop.simps) simp
    then show ?thesis using True e c by (simp add: nat_add_distrib)
  next
    case False
    have "segment_loop tot fps (i + 1) = map (\<lambda>k. (k, ?b (int k), min (?b (int k + 1)) tot)) [i + 1 ..< nat (count_loop tot fps (int (i + 1)))]"
      using False pos 1(2-4) c by (intro 1(1) [OF refl refl refl]) (auto simp: ac_simps)
    moreover have "i < nat (count_loop tot fps (int i + 1))" using count_loop_ge [of "int i + 1" tot fps] by linarith
    ultimately show ?thesis using False e c by (simp add: upt_conv_Cons ac_simps)
  qed
qed

lemma total_sec_pos: "0 < d \<Longrightarrow> 0 < total_sec d"
  by (simp add: total_sec_def fdiv_def f64_positive)

text \<open>The count is the first index whose segment would begin at or after the end.\<close>

lemma count_loop_first:
  assumes "count_loop tot fps i \<le> maxPredictedSegments" "0 \<le> i" "i = 0 \<longrightarrow> abrSegmentBoundarySec 0 fps < tot"
  shows "0 < count_loop tot fps i \<and> tot \<le> abrSegmentBoundarySec (count_loop tot fps i) fps
    \<and> (\<forall>k. i \<le> k \<and> k < count_loop tot fps i \<longrightarrow> abrSegmentBoundarySec k fps < tot)"
  using assms
proof (induction tot fps i rule: count_loop.induct)
  case (1 tot fps i)
  show ?case
  proof (cases "i > 0 \<and> abrSegmentBoundarySec i fps \<ge> tot")
    case True
    then have "count_loop tot fps i = i" by (subst count_loop.simps) simp
    then show ?thesis using True by auto
  next
    case False
    have lim: "\<not> i > maxPredictedSegments" using 1(2) count_loop_ge [of i tot fps] by simp
    have e: "count_loop tot fps i = count_loop tot fps (i + 1)" using False lim by (subst count_loop.simps) auto
    have "0 < count_loop tot fps (i + 1) \<and> tot \<le> abrSegmentBoundarySec (count_loop tot fps (i + 1)) fps
        \<and> (\<forall>k. i + 1 \<le> k \<and> k < count_loop tot fps (i + 1) \<longrightarrow> abrSegmentBoundarySec k fps < tot)"
      using 1(2,3) e by (intro 1(1) [OF False lim]) auto
    moreover have "abrSegmentBoundarySec i fps < tot" using False 1(3,4) by (cases "i = 0") auto
    ultimately show ?thesis unfolding e by (metis order_le_less zless_imp_add1_zle)
  qed
qed


text \<open>
  C99 (bounds).  Each predicted segment begins within one frame after its multiple of four seconds, where ffmpeg forces the key
  frame; all the roundings of the arithmetic stay below a microsecond for two days of film.
\<close>

theorem segment_within_frame:
  assumes "0 \<le> i" "i \<le> 50001" "usual_rate fps"
  shows "4 * of_int i - 1 / 1000000 \<le> abrSegmentBoundarySec i fps
    \<and> abrSegmentBoundarySec i fps \<le> 4 * of_int i + (if 0 < fps then 1 / fps else 0) + 1 / 1000000"
proof -
  let ?l = "1 - 1 / 2 ^ 53 :: rat" and ?u = "1 + 1 / 2 ^ 53 :: rat"
  have i: "of_int i * c \<le> 50001 * c" if "0 \<le> c" for c :: rat using assms(1,2) that by (intro mult_right_mono) simp_all
  show ?thesis
  proof (cases "0 < fps")
    case True
    have inv: "1 / fps \<le> 2" using True assms(3) by (simp add: usual_rate_def pos_divide_le_eq)
    have "of_int i * (4 - 4 * ?l ^ 4) \<le> 50001 * (4 - 4 * ?l ^ 4)" by (rule i) (simp add: eval_nat_numeral)
    moreover have "50001 * (4 - 4 * ?l ^ 4) \<le> 1 / 1000000" by (simp add: eval_nat_numeral)
    moreover have "of_int i * (4 * ?u ^ 3 * ?u - 4) \<le> 50001 * (4 * ?u ^ 3 * ?u - 4)" by (rule i) (simp add: eval_nat_numeral)
    moreover have "50001 * (4 * ?u ^ 3 * ?u - 4) \<le> 1 / 2000000" by (simp add: eval_nat_numeral)
    moreover have "1 / fps * ?u \<le> 1 / fps + 1 / 2000000" using inv by (simp add: distrib_left)
    ultimately show ?thesis using boundary_near [OF assms(1) True] True by (simp add: algebra_simps)
  next
    case False
    have "of_int i * (4 - 4 * ?l ^ 2) \<le> 50001 * (4 - 4 * ?l ^ 2)" by (rule i) (simp add: eval_nat_numeral)
    moreover have "50001 * (4 - 4 * ?l ^ 2) \<le> 1 / 1000000" by (simp add: eval_nat_numeral)
    moreover have "of_int i * (4 * ?u ^ 2 - 4) \<le> 50001 * (4 * ?u ^ 2 - 4)" by (rule i) (simp add: eval_nat_numeral)
    moreover have "50001 * (4 * ?u ^ 2 - 4) \<le> 1 / 1000000" by (simp add: eval_nat_numeral)
    ultimately show ?thesis using flat_boundary_near [OF assms(1), of fps] False by (simp add: algebra_simps)
  qed
qed

text \<open>Ten seconds of film are three segments.\<close>

lemma ten_seconds: "predictedSegmentCount 10000 24 = 3"
  by code_simp


theorem segment_within_frame_witness: "abrSegmentBoundarySec 100 24 \<le> 400 + 1 / 24 + 1 / 1000000"
  using segment_within_frame [of 100 24] by (simp add: usual_rate_def)

text \<open>
  A source of less than a frame in four seconds has two segments with the same beginning: the playlist
  ends before the second, while the handler goes on accepting indices.
\<close>

lemma slow_source_cut_short:
  "map fst (predicted_segments 60000 (1 / 10)) = [0] \<and> 1 < predictedSegmentCount 60000 (1 / 10)"
proof -
  have b: "abrSegmentBoundarySec (int 0) (1 / 10) = 0" "abrSegmentBoundarySec (int 0 + 1) (1 / 10) = 10"
    "abrSegmentBoundarySec (int 1) (1 / 10) = 10" "abrSegmentBoundarySec (int 1 + 1) (1 / 10) = 10" "total_sec 60000 = 60" by code_simp+
  have z: "fsub 10 10 \<le> 0" "\<not> fsub 10 0 \<le> 0" by code_simp+
  have "segment_loop 60 (1 / 10) 1 = []" using b z by (subst segment_loop.simps) (simp add: Let_def)
  then have "segment_loop 60 (1 / 10) 0 = [(0, 0, 10)]" using b z by (subst segment_loop.simps) (simp add: Let_def)
  moreover have "count_loop 60 (1 / 10) 0 = count_loop 60 (1 / 10) 2"
    using b by (subst count_loop.simps, subst count_loop.simps) (simp add: maxPredictedSegments_def)
  then have "1 < predictedSegmentCount 60000 (1 / 10)"
    using count_loop_ge [of 2 60 "1 / 10"] b by (simp add: predictedSegmentCount_def)
  ultimately show ?thesis by (simp add: predicted_segments_def b)
qed

end
