(* ===== verification/AbrRungs.thy ===== *)
theory AbrRungs
  imports AbrTimeline StartCommit Worker Valkey
begin

text \<open>
  The rungs of an adaptive ladder (\<open>internal/api/v1/transcode_abr.go\<close>): the parent session that \<open>startABR\<close> stores, the
  child session a rung gets when a segment of it is asked for, its restart at another segment, and the teardown of
  a session with its rungs (\<open>tearDown\<close>, \<open>supersedeUserItem\<close> and \<open>Stop\<close> of \<open>transcode.go\<close>).

  Valkey answers every session and job command here; the outcome of the per-rung lock is an argument.  Times
  are nanoseconds.
\<close>

section \<open>The parent session\<close>

record AbrParent = Session +
  pa_ABR :: bool
  pa_Renditions :: "Rendition list"
  pa_FilePath :: string
  pa_SourceURL :: string
  pa_Parts :: "SourcePart list"
  pa_DurationMS :: int
  pa_FrameRate :: rat
  pa_AudioStreamIndex :: int
  pa_AudioChannels :: int
  pa_AudioBitrateKbps :: int
  pa_AudioPassthroughCodec :: string
  pa_AudioEncodeCodec :: string
  pa_NeedsToneMap :: bool
  pa_SourceIsHEVC :: bool
  pa_SourceIsAV1 :: bool
  pa_SourceIsH264 :: bool
  pa_OutputLimits :: "OutputLimits option"
  pa_SegToken :: string

definition source_is :: "MediaFile \<Rightarrow> string set \<Rightarrow> bool" where
  "source_is f names \<longleftrightarrow> (case mf_VideoCodec (fl_meta f) of Some c \<Rightarrow> ToLower c \<in> names | None \<Rightarrow> False)"

definition startABR :: "StartEnv \<Rightarrow> StartBody \<Rightarrow> MediaFile \<Rightarrow> int \<Rightarrow> OutputLimits option \<Rightarrow> string \<Rightarrow> Rendition list \<Rightarrow> AudioPlan \<Rightarrow> string \<Rightarrow> AbrParent" where
  "startABR en body f idx limits codec ladder ap segTok =
    \<lparr>ses_ID = en_SessionID en, ses_UserID = en_UserID en, ses_MediaItemID = en_ItemID en, ses_WorkerID = [], ses_WorkerAddr = [],
     ses_PositionMS = bd_PositionMS body, ses_CreatedAt = Some (en_Now en), ses_LastActivityAt = None,
     ses_HEVCOutput = (codec = ''hevc''), ses_AV1Output = (codec = ''av1''), ses_TSSegments = False,
     ses_FMP4Segments = ap_Passthrough ap, ses_ParentID = [], ses_Incarnation = 0, ses_SelectedRendition = [], ses_StartSeg = 0,
     pa_ABR = True, pa_Renditions = ladder, pa_FilePath = fl_FilePath f, pa_SourceURL = en_SourceURL en, pa_Parts = en_Parts en,
     pa_DurationMS = derefInt (fl_DurationMS f), pa_FrameRate = frame_rate f, pa_AudioStreamIndex = idx,
     pa_AudioChannels = ap_Channels ap, pa_AudioBitrateKbps = ap_Kbps ap, pa_AudioPassthroughCodec = ap_PassthroughCodec ap,
     pa_AudioEncodeCodec = ap_Encode ap, pa_NeedsToneMap = source_hdr f, pa_SourceIsHEVC = source_is f {''hevc'', ''h265''},
     pa_SourceIsAV1 = source_is f {''av1''}, pa_SourceIsH264 = source_is f {''h264'', ''avc'', ''avc1''}, pa_OutputLimits = limits, pa_SegToken = segTok\<rparr>"

text \<open>The session of the parent as the store's operations see it.\<close>

abbreviation parent_session :: "AbrParent \<Rightarrow> Session" where
  "parent_session p \<equiv> Session.truncate p"

definition commit_ladder :: "SessionStore \<Rightarrow> int \<Rightarrow> LockSpin \<Rightarrow> int \<Rightarrow> AbrParent \<Rightarrow> SessionStore \<times> CommitError option" where
  "commit_ladder ss now spin maxPerUser p =
    (case CreateWithUserCap ss now spin (parent_session p) maxPerUser of
       (ss1, Created) \<Rightarrow> (ss1, None)
     | (ss1, ErrUserAtCap) \<Rightarrow> (ss1, Some CommitTooMany)
     | (ss1, ErrContext) \<Rightarrow> (ss1, Some CommitInternal))"

definition abrIsFMP4 :: "AbrParent \<Rightarrow> bool" where
  "abrIsFMP4 p = NeedsFMP4 (Session_VideoOutput (parent_session p))"

definition abrRungAudioCodec :: "AbrParent \<Rightarrow> string" where
  "abrRungAudioCodec p = (if pa_AudioPassthroughCodec p \<noteq> [] then ''copy''
     else if IsDolbyEncode (pa_AudioEncodeCodec p) then pa_AudioEncodeCodec p else ''aac'')"

definition abrAudioCodec :: "AbrParent \<Rightarrow> string" where
  "abrAudioCodec p = (if pa_AudioPassthroughCodec p \<noteq> [] then pa_AudioPassthroughCodec p
     else if IsDolbyEncode (pa_AudioEncodeCodec p) then pa_AudioEncodeCodec p else [])"

definition abrAudioKbps :: "AbrParent \<Rightarrow> int" where
  "abrAudioKbps p = (if pa_AudioPassthroughCodec p \<noteq> [] then PassthroughAudioKbps (pa_AudioPassthroughCodec p)
     else if IsDolbyEncode (pa_AudioEncodeCodec p) then dolby_encode_kbps else 0)"

definition abrRungFMP4Audio :: "AbrParent \<Rightarrow> bool" where
  "abrRungFMP4Audio p \<longleftrightarrow> pa_AudioPassthroughCodec p \<in> {''truehd'', ''dts''}"

definition findRung :: "Rendition list \<Rightarrow> string \<Rightarrow> Rendition option" where
  "findRung rends label = find (\<lambda>r. rd_Label r = label) rends"

definition filepath_Base :: "string \<Rightarrow> string" where
  "filepath_Base s =
    (if s = [] then ''.'' else let t = TrimRight (CHR ''/'') s in
     if t = [] then ''/'' else rev (takeWhile (\<lambda>c. c \<noteq> CHR ''/'') (rev t)))"

definition abrChildID :: "string \<Rightarrow> string \<Rightarrow> string" where
  "abrChildID parentID rungLabel = filepath_Base parentID @ ''-r'' @ rungLabel"

text \<open>The master playlist: the codecs of the tallest rung, the levels held to the client's.\<close>

definition master_codecs :: "AbrParent \<Rightarrow> string" where
  "master_codecs p =
    (case pa_Renditions p of [] \<Rightarrow> []
     | tallest # _ \<Rightarrow>
        if ses_AV1Output p then MasterCodecs ''av1'' (rd_Height tallest)
          (case pa_OutputLimits p of Some ol \<Rightarrow> ol_AV1Level ol | None \<Rightarrow> 0) (abrAudioCodec p)
        else if ses_HEVCOutput p then MasterCodecs ''hevc'' (rd_Height tallest)
          (case pa_OutputLimits p of Some ol \<Rightarrow> ol_HEVCLevel ol | None \<Rightarrow> 0) (abrAudioCodec p)
        else [])"

definition serveABRMaster :: "AbrParent \<Rightarrow> string \<Rightarrow> string \<Rightarrow> string" where
  "serveABRMaster p token base = BuildMasterPlaylistAudio (pa_Renditions p) (master_codecs p) (abrAudioKbps p)
     (\<lambda>r. publicSeg base (rung_url (ses_ID p) (rd_Label r) (''index.m3u8?token='' @ token)))"

definition ABRVariantPlaylist :: "AbrParent option \<Rightarrow> string \<Rightarrow> string \<Rightarrow> string \<Rightarrow> string option" where
  "ABRVariantPlaylist parent label token base =
    (case parent of None \<Rightarrow> None
     | Some p \<Rightarrow> if \<not> pa_ABR p \<or> findRung (pa_Renditions p) label = None then None
         else Some (buildPredictedVariantPlaylist (pa_DurationMS p) (pa_FrameRate p) (ses_ID p) label token (abrIsFMP4 p) base))"

section \<open>The floor between forced restarts\<close>

definition abrMinRestartInterval :: int where
  "abrMinRestartInterval = 2 * 10 ^ 9"

text \<open>
  The interface: \<open>claim\<close> decides whether a child may be restarted now and stamps it, \<open>busy\<close> is whether a claim at a time would
  be refused if nothing but time passed.
\<close>

locale restart_floor =
  fixes claim :: "int \<Rightarrow> string \<Rightarrow> 's \<Rightarrow> 's \<times> bool"
    and busy :: "'s \<Rightarrow> int \<Rightarrow> string \<Rightarrow> bool"
    and interval :: int
  assumes claim_iff: "snd (claim now k st) \<longleftrightarrow> \<not> busy st now k"
    and claim_stamps: "snd (claim now k st) \<Longrightarrow> now \<le> t \<Longrightarrow> t < now + interval \<Longrightarrow> busy (fst (claim now k st)) t k"
    and claim_keeps: "busy st t k' \<Longrightarrow> now \<le> t \<Longrightarrow> busy (fst (claim now k st)) t k'"
    and claim_lapses: "\<not> busy st now k \<Longrightarrow> now + interval \<le> t \<Longrightarrow> now \<le> t \<Longrightarrow> \<not> busy (fst (claim now k st)) t k \<and> \<not> busy st t k"

text \<open>A run of claims, each a time and a child; what each was answered.\<close>

fun claims :: "(int \<Rightarrow> string \<Rightarrow> 's \<Rightarrow> 's \<times> bool) \<Rightarrow> 's \<Rightarrow> (int \<times> string) list \<Rightarrow> bool list" where
  "claims claim st [] = []"
| "claims claim st (c # cs) = snd (claim (fst c) (snd c) st) # claims claim (fst (claim (fst c) (snd c) st)) cs"

context restart_floor begin

lemma busy_refused:
  assumes "\<forall>t. lo \<le> t \<and> t < hi \<longrightarrow> busy st t k" "\<forall>c \<in> set cs. lo \<le> fst c" "sorted (map fst cs)"
    "j < length cs" "snd (cs ! j) = k" "fst (cs ! j) < hi"
  shows "\<not> claims claim st cs ! j"
  using assms
proof (induction cs arbitrary: st lo j)
  case (Cons c cs)
  show ?case
  proof (cases j)
    case 0
    then show ?thesis using Cons.prems by (auto simp: claim_iff)
  next
    case (Suc i)
    have "\<forall>t. fst c \<le> t \<and> t < hi \<longrightarrow> busy (fst (claim (fst c) (snd c) st)) t k"
      using Cons.prems(1,2) claim_keeps by auto
    then have "\<not> claims claim (fst (claim (fst c) (snd c) st)) cs ! i"
      using Cons.prems Suc by (intro Cons.IH [of "fst c"]) auto
    then show ?thesis by (simp add: Suc)
  qed
qed simp

lemma claims_apart:
  assumes "sorted (map fst cs)" "i < j" "j < length cs" "snd (cs ! i) = snd (cs ! j)" "claims claim st cs ! i" "claims claim st cs ! j"
  shows "fst (cs ! i) + interval \<le> fst (cs ! j)"
  using assms
proof (induction cs arbitrary: st i j)
  case (Cons c cs)
  show ?case
  proof (cases i)
    case (Suc m)
    then show ?thesis using Cons.prems using Cons.IH [of m _ "fst (claim (fst c) (snd c) st)"] by (cases j) auto
  next
    case 0
    obtain n where n: "j = Suc n" using Cons.prems(2) by (cases j) auto
    have ok: "snd (claim (fst c) (snd c) st)" using Cons.prems(5) 0 by simp
    have "\<not> fst (cs ! n) < fst c + interval"
      using busy_refused [of "fst c" "fst c + interval" "fst (claim (fst c) (snd c) st)" "snd c" cs n] claim_stamps [OF ok] Cons.prems n
      by (auto simp: 0)
    then show ?thesis by (simp add: 0 n)
  qed
qed simp

end

text \<open>The two implementations: a stamp in the process, a key with an expiry shared by the instances.\<close>

record RestartStamps =
  rs_memory :: "string \<Rightarrow> int option"
  rs_valkey :: "string kvs"

definition abrRestartKey :: "string \<Rightarrow> string" where
  "abrRestartKey childID = ''transcode:abrrestart:'' @ childID"

definition claim_memory :: "int \<Rightarrow> string \<Rightarrow> (string \<Rightarrow> int option) \<Rightarrow> (string \<Rightarrow> int option) \<times> bool" where
  "claim_memory now childID m =
    (case m childID of
       Some t \<Rightarrow> if now - t < abrMinRestartInterval then (m, False) else (m(childID \<mapsto> now), True)
     | None \<Rightarrow> (m(childID \<mapsto> now), True))"

text \<open>\<open>valkey\<close>: the lock client is configured and answers.\<close>

definition claimForcedRestart :: "bool \<Rightarrow> int \<Rightarrow> string \<Rightarrow> RestartStamps \<Rightarrow> RestartStamps \<times> bool" where
  "claimForcedRestart valkey now childID st =
    (if valkey
     then (let (m, fresh) = SetNX now (abrRestartKey childID) ''1'' abrMinRestartInterval (rs_valkey st) in (st\<lparr>rs_valkey := m\<rparr>, fresh))
     else (let (m, fresh) = claim_memory now childID (rs_memory st) in (st\<lparr>rs_memory := m\<rparr>, fresh)))"

definition restart_busy :: "bool \<Rightarrow> RestartStamps \<Rightarrow> int \<Rightarrow> string \<Rightarrow> bool" where
  "restart_busy valkey st t childID \<longleftrightarrow>
    (if valkey then kv_get (rs_valkey st) t (abrRestartKey childID) \<noteq> None
     else (case rs_memory st childID of Some s \<Rightarrow> t - s < abrMinRestartInterval | None \<Rightarrow> False))"

lemma kv_get_earlier: "kv_get m t k = Some v \<Longrightarrow> now \<le> t \<Longrightarrow> kv_get m now k = Some v"
  by (auto simp: kv_get_def split: option.splits if_splits)

lemma kv_get_lapsed: "kv_get m now k = None \<Longrightarrow> now \<le> t \<Longrightarrow> kv_get m t k = None"
  by (auto simp: kv_get_def split: option.splits if_splits)

interpretation rf: restart_floor "claimForcedRestart valkey" "restart_busy valkey" abrMinRestartInterval for valkey
  by unfold_locales
    (auto simp: claimForcedRestart_def restart_busy_def claim_memory_def Let_def SetNX_def kv_set_def kv_get_upd abrRestartKey_def
      split: option.splits if_splits dest: kv_get_earlier kv_get_lapsed)

text \<open>
  C24 (safety).  However requests force the restart of rungs, two granted restarts of one rung lie at least two seconds
  apart, on one instance and, with Valkey, over all of them.
\<close>

theorem forced_restarts_apart:
  assumes "sorted (map fst cs)" "i < j" "j < length cs" "snd (cs ! i) = snd (cs ! j)"
    "claims (claimForcedRestart valkey) st cs ! i" "claims (claimForcedRestart valkey) st cs ! j"
  shows "fst (cs ! i) + 2 * 10 ^ 9 \<le> fst (cs ! j)"
  using rf.claims_apart [OF assms] by (simp add: abrMinRestartInterval_def)

definition no_stamps :: RestartStamps where
  "no_stamps = \<lparr>rs_memory = (\<lambda>_. None), rs_valkey = (\<lambda>_. None)\<rparr>"

theorem forced_restarts_apart_witness:
  "claims (claimForcedRestart True) no_stamps [(0, ''a-r720p''), (10 ^ 9, ''a-r720p''), (3 * 10 ^ 9, ''a-r720p'')] = [True, False, True]
   \<and> (0 :: int) + 2 * 10 ^ 9 \<le> 3 * 10 ^ 9"
proof -
  let ?cs = "[(0, ''a-r720p''), (10 ^ 9, ''a-r720p''), (3 * 10 ^ 9, ''a-r720p'')]"
  have c: "claims (claimForcedRestart True) no_stamps ?cs = [True, False, True]" by code_simp
  show ?thesis using forced_restarts_apart [of ?cs 0 2 True no_stamps] c by simp
qed

section \<open>Starting and restarting a rung\<close>

text \<open>
  \<open>ab_killed\<close> lists the runs the embedded worker was told to stop, \<open>ab_wiped\<close> the directories removed at once, \<open>ab_later\<close>
  those removed half a minute later, \<open>ab_revoked\<close> the segment tokens revoked.
\<close>

record AbrState =
  ab_sessions :: SessionStore
  ab_jobs :: JobStore
  ab_stamps :: RestartStamps
  ab_killed :: "string list"
  ab_wiped :: "string list"
  ab_later :: "string list"
  ab_revoked :: "string list"

definition abrAnySeg :: int where
  "abrAnySeg = - 1"

text \<open>\<open>lockRungChild\<close>: the Valkey lease when it is configured; an error other than a timeout falls open.\<close>

datatype LeaseOutcome = LeaseHeld | LeaseTimeout | LeaseError

definition lockRungChild :: "bool \<Rightarrow> LeaseOutcome \<Rightarrow> bool" where
  "lockRungChild configured outcome \<longleftrightarrow> \<not> configured \<or> outcome \<noteq> LeaseTimeout"

definition rung_session :: "int \<Rightarrow> AbrParent \<Rightarrow> string \<Rightarrow> int \<Rightarrow> int \<Rightarrow> Session" where
  "rung_session now p childID startSeg incarnation =
    \<lparr>ses_ID = childID, ses_UserID = ses_UserID p, ses_MediaItemID = ses_MediaItemID p, ses_WorkerID = [], ses_WorkerAddr = [],
     ses_PositionMS = 0, ses_CreatedAt = Some now, ses_LastActivityAt = None, ses_HEVCOutput = False, ses_AV1Output = False,
     ses_TSSegments = False, ses_FMP4Segments = False, ses_ParentID = ses_ID p, ses_Incarnation = incarnation,
     ses_SelectedRendition = [], ses_StartSeg = startSeg\<rparr>"

definition rung_job :: "AbrParent \<Rightarrow> Rendition \<Rightarrow> string \<Rightarrow> int \<Rightarrow> int \<Rightarrow> TranscodeJob" where
  "rung_job p r childID startSeg incarnation =
    \<lparr>tj_SessionID = childID, tj_FilePath = pa_FilePath p, tj_SourceURL = pa_SourceURL p,
     tj_StartOffsetSec = abrSegmentBoundarySec startSeg (pa_FrameRate p), tj_Decision = ''transcode'', tj_Encoder = [],
     tj_Width = rd_Width r, tj_Height = rd_Height r, tj_BitrateKbps = rd_BitrateKbps r, tj_AudioCodec = abrRungAudioCodec p,
     tj_AudioChannels = pa_AudioChannels p, tj_AudioStreamIndex = pa_AudioStreamIndex p, tj_NeedsToneMap = pa_NeedsToneMap p,
     tj_IsHEVC = pa_SourceIsHEVC p, tj_IsAV1 = pa_SourceIsAV1 p, tj_IsH264 = pa_SourceIsH264 p, tj_PreferHEVC = ses_HEVCOutput p,
     tj_ForceFMP4 = abrIsFMP4 p, tj_TSSegments = False, tj_AudioRate = 0, tj_PreferAV1 = ses_AV1Output p, tj_SubtitleStreams = [],
     tj_Incarnation = incarnation, tj_OutputTSOffsetSec = abrSegmentBoundarySec startSeg (pa_FrameRate p),
     tj_AudioBitrateKbps = pa_AudioBitrateKbps p, tj_AudioOnly = False, tj_NoAudio = False, tj_Force8Bit = False,
     tj_OutputLimits = pa_OutputLimits p, tj_CostCenti = 0, tj_Parts = pa_Parts p, tj_AudioPassthrough = abrRungFMP4Audio p,
     tj_BurnSubtitle = None, tj_DolbyVision = DVNone, tj_DVProfileKey = []\<rparr>"

definition start_seg :: "int \<Rightarrow> int" where
  "start_seg globalSeg = (if globalSeg = abrAnySeg then 0 else globalSeg)"

definition next_incarnation :: "Session option \<Rightarrow> int" where
  "next_incarnation child = (case child of None \<Rightarrow> 0 | Some c \<Rightarrow> ses_Incarnation c + 1)"

definition stop_rung :: "string \<Rightarrow> Session option \<Rightarrow> AbrState \<Rightarrow> AbrState" where
  "stop_rung childID child st =
    (case child of None \<Rightarrow> st
     | Some c \<Rightarrow> st\<lparr>ab_killed := ab_killed st @ [childID], ab_sessions := Delete (ab_sessions st) childID,
         ab_wiped := ab_wiped st @ [SessionDirName childID (ses_Incarnation c)]\<rparr>)"

definition restart_rung :: "int \<Rightarrow> AbrParent \<Rightarrow> Rendition \<Rightarrow> string \<Rightarrow> int \<Rightarrow> AbrState \<Rightarrow> AbrState" where
  "restart_rung now p r childID globalSeg st =
    (let child = Get (ab_sessions st) childID; incarnation = next_incarnation child; seg = start_seg globalSeg;
         st1 = stop_rung childID child st;
         ss = Create (ab_sessions st1) (rung_session now p childID seg incarnation)
     in if Get ss (ses_ID p) = None then st1\<lparr>ab_sessions := Delete ss childID\<rparr>
        else st1\<lparr>ab_sessions := ss, ab_jobs := fst (DispatchJob (ab_jobs st1) (rung_job p r childID seg incarnation))\<rparr>)"

definition ensureRungChild :: "bool \<Rightarrow> bool \<Rightarrow> int \<Rightarrow> AbrParent \<Rightarrow> Rendition \<Rightarrow> string \<Rightarrow> int \<Rightarrow> bool \<Rightarrow> AbrState \<Rightarrow> AbrState" where
  "ensureRungChild locked valkey now p r childID globalSeg force st =
    (if \<not> locked then st
     else case Get (ab_sessions st) childID of
         None \<Rightarrow> restart_rung now p r childID globalSeg st
       | Some c \<Rightarrow>
           if globalSeg = abrAnySeg then st
           else if \<not> force \<and> globalSeg \<ge> ses_StartSeg c then st
           else if \<not> force then restart_rung now p r childID globalSeg st
           else (let (stamps, ok) = claimForcedRestart valkey now childID (ab_stamps st); st1 = st\<lparr>ab_stamps := stamps\<rparr> in
                 if ok then restart_rung now p r childID globalSeg st1 else st1))"

text \<open>Whether a request leaves the child alone: its lock, what it asks for, or the floor.\<close>

definition leaves_child :: "bool \<Rightarrow> bool \<Rightarrow> int \<Rightarrow> string \<Rightarrow> int \<Rightarrow> bool \<Rightarrow> AbrState \<Rightarrow> bool" where
  "leaves_child locked valkey now childID globalSeg force st \<longleftrightarrow>
    \<not> locked \<or> (\<exists>c. Get (ab_sessions st) childID = Some c
      \<and> (globalSeg = abrAnySeg \<or> \<not> force \<and> globalSeg \<ge> ses_StartSeg c
         \<or> force \<and> \<not> snd (claimForcedRestart valkey now childID (ab_stamps st))))"

lemma stop_rung_simps:
  "Get (ab_sessions (stop_rung childID (Get (ab_sessions st) childID) st)) k = (if k = childID then None else Get (ab_sessions st) k)"
  "ab_jobs (stop_rung childID c st) = ab_jobs st" "ab_stamps (stop_rung childID c st) = ab_stamps st"
  by (auto simp: stop_rung_def Get_Delete split: option.splits)

lemma ensureRungChild_left:
  "leaves_child locked valkey now childID g force st \<Longrightarrow>
     ab_sessions (ensureRungChild locked valkey now p r childID g force st) = ab_sessions st
     \<and> ab_jobs (ensureRungChild locked valkey now p r childID g force st) = ab_jobs st
     \<and> ab_wiped (ensureRungChild locked valkey now p r childID g force st) = ab_wiped st"
  by (auto simp: leaves_child_def ensureRungChild_def case_prod_beta Let_def)

lemma ensureRungChild_restarts:
  assumes "\<not> leaves_child locked valkey now childID g force st"
  obtains st1 where "ensureRungChild locked valkey now p r childID g force st = restart_rung now p r childID g st1"
    "ab_sessions st1 = ab_sessions st" "ab_jobs st1 = ab_jobs st" "ab_wiped st1 = ab_wiped st"
proof (cases "Get (ab_sessions st) childID")
  case None
  then show ?thesis using assms that [of st] by (simp add: leaves_child_def ensureRungChild_def)
next
  case (Some c)
  let ?cl = "claimForcedRestart valkey now childID (ab_stamps st)"
  show ?thesis
    using assms Some that [of st] that [of "st\<lparr>ab_stamps := fst ?cl\<rparr>"]
    by (cases force) (auto simp: leaves_child_def ensureRungChild_def case_prod_beta Let_def)
qed

lemma restart_rung_sessions:
  assumes "childID \<noteq> ses_ID p"
  shows "Get (ab_sessions (restart_rung now p r childID g st)) k =
    (if k = childID then (if Get (ab_sessions st) (ses_ID p) = None then None
        else Some (rung_session now p childID (start_seg g) (next_incarnation (Get (ab_sessions st) childID))))
     else Get (ab_sessions st) k)"
  using assms by (simp add: restart_rung_def Let_def Get_Create Get_Delete stop_rung_simps rung_session_def)

lemma restart_rung_jobs:
  assumes "childID \<noteq> ses_ID p"
  shows "ab_jobs (restart_rung now p r childID g st) =
    (if Get (ab_sessions st) (ses_ID p) = None then ab_jobs st
     else fst (DispatchJob (ab_jobs st) (rung_job p r childID (start_seg g) (next_incarnation (Get (ab_sessions st) childID)))))"
  using assms by (simp add: restart_rung_def Let_def Get_Create Get_Delete stop_rung_simps rung_session_def)

lemma restart_rung_wiped:
  "ab_wiped (restart_rung now p r childID g st) = ab_wiped st @ (case Get (ab_sessions st) childID of None \<Rightarrow> []
     | Some c \<Rightarrow> [SessionDirName childID (ses_Incarnation c)])"
  by (simp add: restart_rung_def Let_def stop_rung_def split: option.splits)

lemma SessionDirName_next: "0 \<le> n \<Longrightarrow> SessionDirName i (n + 1) \<noteq> SessionDirName i n"
  using Itoa_inj [of "n + 1" n] by (auto simp: SessionDirName_def)

text \<open>
  C13 (functional).  A request that does not leave the rung's child alone replaces it: with the parent still there the
  child starts at the asked segment, in the next incarnation and so in a directory none of whose predecessors is wiped, and
  its job carries that incarnation, starts at that segment's time and stamps its output from there, in the container the
  playlist named; with the parent gone nothing is left of it and nothing is queued.  A request that leaves it alone,
  because another instance holds the lock, the child covers the segment or the floor refuses, changes no session and no queue.
\<close>

theorem ensureRungChild_replaces:
  assumes "childID \<noteq> ses_ID p" "\<forall>c. Get (ab_sessions st) childID = Some c \<longrightarrow> 0 \<le> ses_Incarnation c"
    "st' = ensureRungChild locked valkey now p r childID g force st"
  shows "(\<forall>k. k \<noteq> childID \<longrightarrow> Get (ab_sessions st') k = Get (ab_sessions st) k)
    \<and> (leaves_child locked valkey now childID g force st \<longrightarrow> Get (ab_sessions st') childID = Get (ab_sessions st) childID \<and> ab_jobs st' = ab_jobs st)
    \<and> (\<not> leaves_child locked valkey now childID g force st \<and> Get (ab_sessions st) (ses_ID p) = None \<longrightarrow>
         Get (ab_sessions st') childID = None \<and> ab_jobs st' = ab_jobs st)
    \<and> (\<not> leaves_child locked valkey now childID g force st \<and> Get (ab_sessions st) (ses_ID p) \<noteq> None \<longrightarrow>
         (\<exists>c j. Get (ab_sessions st') childID = Some c \<and> ab_jobs st' = fst (DispatchJob (ab_jobs st) j)
           \<and> ses_StartSeg c = start_seg g \<and> ses_ParentID c = ses_ID p
           \<and> (\<forall>old. Get (ab_sessions st) childID = Some old \<longrightarrow> ses_Incarnation c = ses_Incarnation old + 1)
           \<and> (\<exists>wiped. ab_wiped st' = ab_wiped st @ wiped \<and> Session_DirName c \<notin> set wiped)
           \<and> tj_SessionID j = childID \<and> tj_Incarnation j = ses_Incarnation c \<and> tj_ForceFMP4 j = abrIsFMP4 p
           \<and> tj_StartOffsetSec j = abrSegmentBoundarySec (ses_StartSeg c) (pa_FrameRate p) \<and> tj_OutputTSOffsetSec j = tj_StartOffsetSec j))"
proof (cases "leaves_child locked valkey now childID g force st")
  case True
  then show ?thesis using ensureRungChild_left [OF True, of p r] assms(3) by simp
next
  case False
  obtain st1 where s: "st' = restart_rung now p r childID g st1" "ab_sessions st1 = ab_sessions st" "ab_jobs st1 = ab_jobs st"
      "ab_wiped st1 = ab_wiped st"
    using ensureRungChild_restarts [OF False, of p r] assms(3) by metis
  let ?c = "rung_session now p childID (start_seg g) (next_incarnation (Get (ab_sessions st) childID))"
  let ?j = "rung_job p r childID (start_seg g) (next_incarnation (Get (ab_sessions st) childID))"
  have "Session_DirName ?c \<notin> set (case Get (ab_sessions st) childID of None \<Rightarrow> [] | Some c \<Rightarrow> [SessionDirName childID (ses_Incarnation c)])"
    using assms(2) SessionDirName_next
    by (auto simp: Session_DirName_def rung_session_def next_incarnation_def split: option.splits)
  moreover have "ses_StartSeg ?c = start_seg g" "ses_ParentID ?c = ses_ID p" "tj_SessionID ?j = childID" "tj_Incarnation ?j = ses_Incarnation ?c"
    "tj_ForceFMP4 ?j = abrIsFMP4 p" "tj_StartOffsetSec ?j = abrSegmentBoundarySec (start_seg g) (pa_FrameRate p)"
    "tj_OutputTSOffsetSec ?j = tj_StartOffsetSec ?j" "ses_Incarnation ?c = next_incarnation (Get (ab_sessions st) childID)"
    by (simp_all add: rung_session_def rung_job_def)
  ultimately show ?thesis
    using False restart_rung_sessions [OF assms(1), of now r g st1] restart_rung_jobs [OF assms(1), of now r g st1] restart_rung_wiped [of now p r childID g st1]
    by (auto simp: s next_incarnation_def)
qed

text \<open>
  C23 (invariant).  The rungs never count against a viewer's streams: whatever a request does to a rung, every viewer's number of
  live sessions stays as it was.
\<close>

theorem rungs_uncounted:
  assumes "store_inv (ab_sessions st)" "ses_ID p \<noteq> []" "childID \<noteq> ses_ID p"
    "\<forall>c. Get (ab_sessions st) childID = Some c \<longrightarrow> ses_ParentID c \<noteq> []"
    "st' = ensureRungChild locked valkey now p r childID g force st"
  shows "CountByUser (ab_sessions st') t user = CountByUser (ab_sessions st) t user \<and> store_inv (ab_sessions st')
    \<and> (\<forall>c. Get (ab_sessions st') childID = Some c \<longrightarrow> ses_ParentID c \<noteq> [])"
proof (cases "leaves_child locked valkey now childID g force st")
  case True
  then show ?thesis using ensureRungChild_left [OF True, of p r] assms by simp
next
  case False
  obtain st1 where s: "st' = restart_rung now p r childID g st1" "ab_sessions st1 = ab_sessions st"
    using ensureRungChild_restarts [OF False, of p r] assms(5) by metis
  note g = restart_rung_sessions [OF assms(3), of now r g st1, unfolded s(2)]
  have inv: "store_inv (ab_sessions st')"
    using assms(1) by (auto simp: s restart_rung_def Let_def stop_rung_def intro!: Create_inv Delete_inv split: option.splits)
  have child: "ses_ParentID c \<noteq> []" if "Get (ab_sessions st') childID = Some c" for c
    using that assms(2) g [of childID] by (auto simp: s(1) rung_session_def split: if_splits)
  have "Get (ab_sessions st') (ses_ID x) = Some x \<and> counts_live t user x \<longleftrightarrow> Get (ab_sessions st) (ses_ID x) = Some x \<and> counts_live t user x" for x
    using g [of "ses_ID x"] child assms(4) by (cases "ses_ID x = childID") (auto simp: s(1) counts_live_def)
  then have "{x. Get (ab_sessions st') (ses_ID x) = Some x \<and> counts_live t user x} = {x. Get (ab_sessions st) (ses_ID x) = Some x \<and> counts_live t user x}"
    by auto
  then show ?thesis using CountByUser_card [OF inv] CountByUser_card [OF assms(1)] inv child by simp
qed

section \<open>Stopping a session with its rungs\<close>

definition cleanup_rung :: "AbrParent \<Rightarrow> AbrState \<Rightarrow> Rendition \<Rightarrow> AbrState" where
  "cleanup_rung p st r =
    (let childID = abrChildID (ses_ID p) (rd_Label r) in
        st\<lparr>ab_killed := ab_killed st @ [childID], ab_sessions := Delete (ab_sessions st) childID,
           ab_stamps := (ab_stamps st)\<lparr>rs_memory := (rs_memory (ab_stamps st))(childID := None)\<rparr>,
           ab_later := ab_later st @ [case Get (ab_sessions st) childID of Some c \<Rightarrow> Session_DirName c | None \<Rightarrow> SessionDirName childID 0]\<rparr>)"

definition cleanupRungChildren :: "AbrParent \<Rightarrow> AbrState \<Rightarrow> AbrState" where
  "cleanupRungChildren p st = foldl (cleanup_rung p) st (pa_Renditions p)"

definition tearDown :: "string \<Rightarrow> AbrParent \<Rightarrow> AbrState \<Rightarrow> AbrState" where
  "tearDown fallbackToken p st =
    (let st1 = st\<lparr>ab_killed := ab_killed st @ [ses_ID p]\<rparr>;
         st2 = (if pa_ABR p then cleanupRungChildren p st1 else st1);
         tok = (if pa_SegToken p = [] then fallbackToken else pa_SegToken p);
         st3 = (if tok \<noteq> [] then st2\<lparr>ab_revoked := ab_revoked st2 @ [tok]\<rparr> else st2)
     in st3\<lparr>ab_sessions := Delete (ab_sessions st3) (ses_ID p), ab_later := ab_later st3 @ [SessionDirName (filepath_Base (ses_ID p)) 0]\<rparr>)"

text \<open>The prior sessions of the viewer for the item, as the store lists them.\<close>

definition supersedeUserItem :: "AbrParent list \<Rightarrow> AbrState \<Rightarrow> AbrState" where
  "supersedeUserItem prior st = foldl (\<lambda>st p. tearDown [] p st) st prior"

datatype StopAnswer = Stopped | StopForbidden

definition Stop :: "AbrParent option \<Rightarrow> string \<Rightarrow> bool \<Rightarrow> string \<Rightarrow> AbrState \<Rightarrow> AbrState \<times> StopAnswer" where
  "Stop sess user isAdmin token st =
    (case sess of None \<Rightarrow> (st, Stopped)
     | Some p \<Rightarrow> if ses_UserID p \<noteq> user \<and> \<not> isAdmin then (st, StopForbidden) else (tearDown token p st, Stopped))"

definition own_ids :: "AbrParent \<Rightarrow> string set" where
  "own_ids p = insert (ses_ID p) (if pa_ABR p then (\<lambda>r. abrChildID (ses_ID p) (rd_Label r)) ` set (pa_Renditions p) else {})"

lemma cleanup_sessions:
  "Get (ab_sessions (cleanupRungChildren p st)) k =
     (if k \<in> (\<lambda>r. abrChildID (ses_ID p) (rd_Label r)) ` set (pa_Renditions p) then None else Get (ab_sessions st) k)"
proof -
  have "Get (ab_sessions (foldl (cleanup_rung p) st rs)) k =
      (if k \<in> (\<lambda>r. abrChildID (ses_ID p) (rd_Label r)) ` set rs then None else Get (ab_sessions st) k)" for rs st
    by (induction rs arbitrary: st) (auto simp: cleanup_rung_def Let_def Get_Delete)
  then show ?thesis by (simp add: cleanupRungChildren_def)
qed

lemma tearDown_sessions: "Get (ab_sessions (tearDown tok p st)) k = (if k \<in> own_ids p then None else Get (ab_sessions st) k)"
  by (simp add: tearDown_def Let_def own_ids_def Get_Delete cleanup_sessions)

text \<open>
  C22 (safety).  A stop takes a session away with all its rungs and nothing else, and only for its owner or an administrator;
  refused it changes nothing.
\<close>

theorem Stop_complete:
  assumes "Stop (Some p) user isAdmin token st = (st', answer)"
  shows "(answer = StopForbidden \<longleftrightarrow> ses_UserID p \<noteq> user \<and> \<not> isAdmin) \<and> (answer = StopForbidden \<longrightarrow> st' = st)
    \<and> (answer = Stopped \<longrightarrow> (\<forall>k. Get (ab_sessions st') k = (if k \<in> own_ids p then None else Get (ab_sessions st) k)))"
  using assms by (auto simp: Stop_def tearDown_sessions split: if_splits)

section \<open>A ladder of two rungs\<close>

definition rung :: "int \<Rightarrow> int \<Rightarrow> int \<Rightarrow> Rendition" where
  "rung w h kbps = \<lparr>rd_Label = Itoa h @ ''p'', rd_Height = h, rd_Width = w, rd_BitrateKbps = kbps\<rparr>"

definition plain_audio :: AudioPlan where
  "plain_audio = \<lparr>ap_Copy = False, ap_Passthrough = False, ap_PassthroughCodec = [], ap_Encode = [], ap_Channels = 2, ap_Kbps = 128\<rparr>"

definition film_parent :: AbrParent where
  "film_parent = startABR sample_en (sample_body False 0) big_film (- 1) None ''hevc'' [rung 1920 1080 4800, rung 1280 720 2400] plain_audio ''tok''"

definition film_state :: AbrState where
  "film_state = \<lparr>ab_sessions = Create \<lparr>ss_index = [], ss_sessions = (\<lambda>_. None)\<rparr> (parent_session film_parent), ab_jobs = sample_store,
     ab_stamps = no_stamps, ab_killed = [], ab_wiped = [], ab_later = [], ab_revoked = []\<rparr>"

lemma film_parent_fields:
  "ses_ID film_parent = ''s1''" "ses_UserID film_parent = ''ann''" "pa_ABR film_parent" "pa_FrameRate film_parent = 24"
  "map rd_Label (pa_Renditions film_parent) = [''1080p'', ''720p'']" "ses_ID (parent_session film_parent) = ''s1''"
  "pa_DurationMS film_parent = 7200000" "abrIsFMP4 film_parent"
  by (code_simp+)

lemma film_state_sessions: "Get (ab_sessions film_state) k = (if k = ''s1'' then Some (parent_session film_parent) else None)"
  by (simp add: film_state_def Get_Create film_parent_fields) (simp add: Get_def)

lemma film_state_inv: "store_inv (ab_sessions film_state)"
  using Create_inv [of "\<lparr>ss_index = [], ss_sessions = (\<lambda>_. None)\<rparr>" "parent_session film_parent"]
  by (simp add: film_state_def) (simp add: store_inv_def)

theorem ensureRungChild_replaces_witness:
  "\<exists>c. Get (ab_sessions (ensureRungChild True False 0 film_parent (rung 1280 720 2400) ''s1-r720p'' 300 False film_state)) ''s1-r720p'' = Some c
     \<and> ses_StartSeg c = 300"
proof -
  have g: "Get (ab_sessions film_state) ''s1-r720p'' = None" "Get (ab_sessions film_state) (ses_ID film_parent) \<noteq> None"
    by (simp_all add: film_state_sessions film_parent_fields)
  have l: "\<not> leaves_child True False 0 ''s1-r720p'' 300 False film_state" by (simp add: leaves_child_def g)
  show ?thesis
    using ensureRungChild_replaces [of "''s1-r720p''" film_parent film_state _ True False 0 "rung 1280 720 2400" 300 False, OF _ _ refl] g l
    by (auto simp: film_parent_fields start_seg_def abrAnySeg_def)
qed

theorem rungs_uncounted_witness:
  "CountByUser (ab_sessions (ensureRungChild True False 0 film_parent (rung 1280 720 2400) ''s1-r720p'' 300 False film_state)) 5 ''ann''
     = CountByUser (ab_sessions film_state) 5 ''ann''"
  using rungs_uncounted [OF film_state_inv _ _ _ refl, of film_parent "''s1-r720p''"] by (simp add: film_state_sessions film_parent_fields)

theorem Stop_complete_witness:
  "Get (ab_sessions (fst (Stop (Some film_parent) ''ann'' False [] film_state))) ''s1'' = None
   \<and> fst (Stop (Some film_parent) ''bob'' False [] film_state) = film_state"
proof -
  obtain s a where s: "Stop (Some film_parent) ''ann'' False [] film_state = (s, a)" by fastforce
  obtain t b where t: "Stop (Some film_parent) ''bob'' False [] film_state = (t, b)" by fastforce
  have "a = Stopped" using Stop_complete [OF s] by (cases a) (simp_all add: film_parent_fields)
  moreover have "b = StopForbidden" using Stop_complete [OF t] by (cases b) (simp_all add: film_parent_fields)
  ultimately show ?thesis using Stop_complete [OF s] Stop_complete [OF t] s t by (simp add: own_ids_def film_parent_fields)
qed

end
