(* ===== verification/AbrServe.thy ===== *)
theory AbrServe
  imports AbrRungs
begin

text \<open>
  Serving a segment of a rung (\<open>ABRVariantSegment\<close> of \<open>internal/api/v1/transcode_abr.go\<close>): the checks on the name, the
  child that is to produce the segment, its restart after a seek or a stall, and the file that is sent.

  What happens outside the request is its environment: the outcomes of the rung's lock, the child's encode head, whether
  a wait saw the file, and what the worker and others do to the store during a wait.  The segment token was accepted.
\<close>

section \<open>The handler\<close>

definition abrSeekLookahead :: int where
  "abrSeekLookahead = 6"

definition abrReachableSoon :: "int \<Rightarrow> int \<Rightarrow> bool" where
  "abrReachableSoon head localSeg \<longleftrightarrow>
    (if localSeg < 0 then False
     else if head < 0 then localSeg \<le> abrSeekLookahead
     else localSeg \<le> head + abrSeekLookahead)"

text \<open>The time a wait may take, in nanoseconds.\<close>

definition abrColdStartWait :: int where
  "abrColdStartWait = 30 * 10 ^ 9"

definition abrImminentWait :: int where
  "abrImminentWait = 10 * 10 ^ 9"

definition abrProducedWait :: int where
  "abrProducedWait = 4 * 10 ^ 9"

definition first_wait :: "int \<Rightarrow> int \<Rightarrow> int" where
  "first_wait head localSeg = (if head \<ge> 0 then if localSeg \<le> head then abrProducedWait else abrImminentWait else abrColdStartWait)"

record SegEnv =
  se_valkey :: bool
  se_now :: int
  se_lock1 :: bool
  se_lock2 :: bool
  se_lock3 :: bool
  se_head :: "Session \<Rightarrow> int"
  se_wait1 :: "string \<Rightarrow> bool"
  se_wait2 :: "string \<Rightarrow> bool"
  se_meanwhile1 :: "AbrState \<Rightarrow> AbrState"
  se_meanwhile2 :: "AbrState \<Rightarrow> AbrState"

datatype SegAnswer =
    SegNotFound | BadSegment | SegOutOfRange | SegUnavailable | SegNotReady
  | ServedInit Session
  | Served Session int

definition seg_name :: "int \<Rightarrow> bool \<Rightarrow> string" where
  "seg_name localSeg fmp4 = ''seg'' @ pad0 5 localSeg @ abrSegExt fmp4"

text \<open>The child as it is now, the activity stamp, and the file that is sent.\<close>

definition touch_child :: "int \<Rightarrow> string \<Rightarrow> AbrState \<Rightarrow> AbrState" where
  "touch_child now childID st = st\<lparr>ab_sessions := TouchActivity (ab_sessions st) now childID\<rparr>"

definition serve_segment :: "int \<Rightarrow> string \<Rightarrow> Session \<Rightarrow> int \<Rightarrow> AbrState \<Rightarrow> AbrState \<times> SegAnswer" where
  "serve_segment now childID child localSeg st =
    (let c = (case Get (ab_sessions st) childID of Some fresh \<Rightarrow> fresh | None \<Rightarrow> child) in
     (touch_child now childID st, Served c localSeg))"

definition serve_init :: "SegEnv \<Rightarrow> AbrParent \<Rightarrow> Rendition \<Rightarrow> string \<Rightarrow> AbrState \<Rightarrow> AbrState \<times> SegAnswer" where
  "serve_init en p r childID st =
    (let st1 = se_meanwhile1 en (ensureRungChild (se_lock1 en) (se_valkey en) (se_now en) p r childID abrAnySeg False st) in
     if \<not> se_wait1 en ''init.mp4'' then (st1, SegNotReady)
     else case Get (ab_sessions st1) childID of
         None \<Rightarrow> (st1, SegNotReady)
       | Some c \<Rightarrow> (touch_child (se_now en) childID st1, ServedInit c))"

text \<open>The last resort after a wait that saw nothing: restart at the segment, wait again.\<close>

definition retry_segment :: "SegEnv \<Rightarrow> AbrParent \<Rightarrow> Rendition \<Rightarrow> string \<Rightarrow> int \<Rightarrow> int \<Rightarrow> AbrState \<Rightarrow> AbrState \<times> SegAnswer" where
  "retry_segment en p r childID globalSeg waited st =
    (let now = se_now en + waited;
         st1 = ensureRungChild (se_lock3 en) (se_valkey en) now p r childID globalSeg True st
     in case Get (ab_sessions st1) childID of
         None \<Rightarrow> (st1, SegUnavailable)
       | Some c \<Rightarrow>
           (let st2 = se_meanwhile2 en st1 in
            if \<not> se_wait2 en (seg_name 0 (abrIsFMP4 p)) then (st2, SegNotReady) else serve_segment now childID c 0 st2))"

definition await_segment :: "SegEnv \<Rightarrow> AbrParent \<Rightarrow> Rendition \<Rightarrow> string \<Rightarrow> int \<Rightarrow> int \<Rightarrow> Session \<Rightarrow> int \<Rightarrow> AbrState \<Rightarrow> AbrState \<times> SegAnswer" where
  "await_segment en p r childID globalSeg head child localSeg st =
    (let st1 = se_meanwhile1 en st in
     if se_wait1 en (seg_name localSeg (abrIsFMP4 p)) then serve_segment (se_now en) childID child localSeg st1
     else retry_segment en p r childID globalSeg (first_wait head localSeg) st1)"

definition serve_media :: "SegEnv \<Rightarrow> AbrParent \<Rightarrow> Rendition \<Rightarrow> string \<Rightarrow> int \<Rightarrow> AbrState \<Rightarrow> AbrState \<times> SegAnswer" where
  "serve_media en p r childID globalSeg st =
    (let st1 = ensureRungChild (se_lock1 en) (se_valkey en) (se_now en) p r childID globalSeg False st in
     case Get (ab_sessions st1) childID of
       None \<Rightarrow> (st1, SegUnavailable)
     | Some c \<Rightarrow>
         (let localSeg = globalSeg - ses_StartSeg c; head = se_head en c in
          if abrReachableSoon head localSeg then await_segment en p r childID globalSeg head c localSeg st1
          else (let st2 = ensureRungChild (se_lock2 en) (se_valkey en) (se_now en) p r childID globalSeg True st1 in
                case Get (ab_sessions st2) childID of
                  None \<Rightarrow> (st2, SegUnavailable)
                | Some c2 \<Rightarrow> await_segment en p r childID globalSeg head c2 0 st2)))"

definition ABRVariantSegment :: "SegEnv \<Rightarrow> AbrParent option \<Rightarrow> string \<Rightarrow> string \<Rightarrow> AbrState \<Rightarrow> AbrState \<times> SegAnswer" where
  "ABRVariantSegment en parent label name st =
    (case parent of None \<Rightarrow> (st, SegNotFound)
     | Some p \<Rightarrow>
        if \<not> pa_ABR p then (st, SegNotFound)
        else case findRung (pa_Renditions p) label of None \<Rightarrow> (st, SegNotFound)
          | Some r \<Rightarrow>
             (let childID = abrChildID (ses_ID p) label;
                  st1 = st\<lparr>ab_sessions := SetSelectedRendition (ab_sessions st) (se_now en) (ses_ID p) label\<rparr>
              in if name = ''init.mp4'' then serve_init en p r childID st1
                 else case Atoi (TrimSuffix name (abrSegExt (abrIsFMP4 p))) of
                     None \<Rightarrow> (st1, BadSegment)
                   | Some g \<Rightarrow>
                       if g < 0 then (st1, BadSegment)
                       else if 0 < predictedSegmentCount (pa_DurationMS p) (pa_FrameRate p)
                           \<and> predictedSegmentCount (pa_DurationMS p) (pa_FrameRate p) \<le> g then (st1, SegOutOfRange)
                       else serve_media en p r childID g st1))"

section \<open>The segment that is asked for is the one that is sent\<close>

text \<open>During the waits of the request nobody else restarts this child or forces a restart of it.\<close>

definition quiet :: "string \<Rightarrow> (AbrState \<Rightarrow> AbrState) \<Rightarrow> bool" where
  "quiet childID meanwhile \<longleftrightarrow> (\<forall>st. ab_stamps (meanwhile st) = ab_stamps st
     \<and> (\<forall>c. Get (ab_sessions (meanwhile st)) childID = Some c \<longrightarrow>
          (\<exists>c0. Get (ab_sessions st) childID = Some c0 \<and> ses_StartSeg c = ses_StartSeg c0)))"

lemma mutate_Get:
  "Get (fst (mutateSession st i fn)) k = (if k = i then (case Get st i of None \<Rightarrow> None | Some s \<Rightarrow>
      (case fn s of None \<Rightarrow> Some s | Some s' \<Rightarrow> Some s')) else Get st k)"
  by (auto simp: mutateSession_def Get_def split: option.splits)

lemma serve_segment_position:
  assumes "serve_segment now childID child localSeg st = (st', Served c k)" "ses_StartSeg child + localSeg = g"
    "\<forall>fresh. Get (ab_sessions st) childID = Some fresh \<longrightarrow> ses_StartSeg fresh = ses_StartSeg child"
  shows "ses_StartSeg c + k = g"
  using assms by (auto simp: serve_segment_def Let_def split: option.splits)

text \<open>A forced restart that is let through leaves a child that starts at the segment, or none.\<close>

lemma forced_start:
  assumes "childID \<noteq> ses_ID p" "locked" "\<not> restart_busy valkey (ab_stamps st) now childID" "0 \<le> g"
    "Get (ab_sessions (ensureRungChild locked valkey now p r childID g True st)) childID = Some c"
  shows "ses_StartSeg c = g"
proof -
  have "\<not> leaves_child locked valkey now childID g True st"
    using assms(2,3,4) rf.claim_iff [of valkey now childID "ab_stamps st"] by (auto simp: leaves_child_def abrAnySeg_def)
  then obtain st1 where "ensureRungChild locked valkey now p r childID g True st = restart_rung now p r childID g st1"
    by (rule ensureRungChild_restarts)
  then show ?thesis using assms(4,5) restart_rung_sessions [OF assms(1), of now r g st1 childID]
    by (auto simp: rung_session_def start_seg_def abrAnySeg_def split: if_splits)
qed

lemma ensure_stamps:
  "ab_stamps (ensureRungChild locked valkey now p r childID g force st) = ab_stamps st
   \<or> force \<and> ab_stamps (ensureRungChild locked valkey now p r childID g force st) = fst (claimForcedRestart valkey now childID (ab_stamps st))"
proof -
  have "ab_stamps (restart_rung now p r childID g st1) = ab_stamps st1" for st1
    by (simp add: restart_rung_def Let_def stop_rung_simps)
  then show ?thesis by (auto simp: ensureRungChild_def case_prod_beta Let_def split: option.splits)
qed

lemma later_free:
  assumes "\<not> restart_busy valkey (ab_stamps st) now childID" "now + abrMinRestartInterval \<le> t"
  shows "\<not> restart_busy valkey (ab_stamps (ensureRungChild locked valkey now p r childID g force st)) t childID"
  using ensure_stamps [of locked valkey now p r childID g force st] rf.claim_lapses [OF assms] assms(2)
  by (auto simp: abrMinRestartInterval_def)

lemma quietD:
  assumes "quiet childID m" "Get (ab_sessions (m st)) childID = Some fresh" "Get (ab_sessions st) childID = Some c"
  shows "ses_StartSeg fresh = ses_StartSeg c"
  using assms by (force simp: quiet_def)

lemma await_segment_position:
  assumes "await_segment en p r childID g head child localSeg st = (st', Served c k)" "childID \<noteq> ses_ID p" "0 \<le> g"
    "Get (ab_sessions st) childID = Some child" "ses_StartSeg child + localSeg = g" "se_lock3 en"
    "\<forall>t \<ge> se_now en + abrMinRestartInterval. \<not> restart_busy (se_valkey en) (ab_stamps st) t childID"
    "quiet childID (se_meanwhile1 en)" "quiet childID (se_meanwhile2 en)"
  shows "ses_StartSeg c + k = g"
proof (cases "se_wait1 en (seg_name localSeg (abrIsFMP4 p))")
  case True
  then have s: "serve_segment (se_now en) childID child localSeg (se_meanwhile1 en st) = (st', Served c k)"
    using assms(1) by (simp add: await_segment_def Let_def)
  show ?thesis by (rule serve_segment_position [OF s assms(5)]) (use quietD [OF assms(8) _ assms(4)] in blast)
next
  case False
  let ?t = "se_now en + first_wait head localSeg"
  let ?st = "se_meanwhile1 en st"
  let ?e = "ensureRungChild (se_lock3 en) (se_valkey en) ?t p r childID g True ?st"
  have t: "se_now en + abrMinRestartInterval \<le> ?t"
    by (simp add: first_wait_def abrMinRestartInterval_def abrProducedWait_def abrImminentWait_def abrColdStartWait_def)
  have "retry_segment en p r childID g (first_wait head localSeg) ?st = (st', Served c k)"
    using False assms(1) by (simp add: await_segment_def Let_def)
  then obtain c2 where c2: "Get (ab_sessions ?e) childID = Some c2" "serve_segment ?t childID c2 0 (se_meanwhile2 en ?e) = (st', Served c k)"
    by (auto simp: retry_segment_def Let_def split: option.splits if_splits)
  have "\<not> restart_busy (se_valkey en) (ab_stamps ?st) ?t childID" using assms(7,8) t by (simp add: quiet_def)
  then have "ses_StartSeg c2 = g" by (rule forced_start [OF assms(2,6) _ assms(3) c2(1)])
  then show ?thesis
    by (intro serve_segment_position [OF c2(2)]) (use quietD [OF assms(9) _ c2(1)] in auto)
qed

lemma serve_media_position:
  assumes "serve_media en p r childID g st = (st', Served c k)" "childID \<noteq> ses_ID p" "0 \<le> g" "se_lock2 en" "se_lock3 en"
    "\<not> restart_busy (se_valkey en) (ab_stamps st) (se_now en) childID"
    "quiet childID (se_meanwhile1 en)" "quiet childID (se_meanwhile2 en)"
  shows "ses_StartSeg c + k = g"
proof -
  let ?s1 = "ensureRungChild (se_lock1 en) (se_valkey en) (se_now en) p r childID g False st"
  let ?s2 = "ensureRungChild (se_lock2 en) (se_valkey en) (se_now en) p r childID g True ?s1"
  have s1: "ab_stamps ?s1 = ab_stamps st" using ensure_stamps [of "se_lock1 en" "se_valkey en" "se_now en" p r childID g False st] by simp
  have free: "\<forall>t \<ge> se_now en + abrMinRestartInterval. \<not> restart_busy (se_valkey en) (ab_stamps ?s1) t childID"
    using rf.claim_lapses [OF assms(6)] s1 by (auto simp: abrMinRestartInterval_def)
  have free2: "\<forall>t \<ge> se_now en + abrMinRestartInterval. \<not> restart_busy (se_valkey en) (ab_stamps ?s2) t childID"
    using later_free [of "se_valkey en" ?s1 "se_now en" childID] assms(6) s1 by simp
  obtain c1 where c1: "Get (ab_sessions ?s1) childID = Some c1" using assms(1) by (auto simp: serve_media_def Let_def split: option.splits)
  show ?thesis
  proof (cases "abrReachableSoon (se_head en c1) (g - ses_StartSeg c1)")
    case True
    then have "await_segment en p r childID g (se_head en c1) c1 (g - ses_StartSeg c1) ?s1 = (st', Served c k)"
      using assms(1) c1 by (simp add: serve_media_def Let_def)
    then show ?thesis by (rule await_segment_position [OF _ assms(2,3) c1 _ assms(5) free assms(7,8)]) simp
  next
    case False
    then obtain c2 where c2: "Get (ab_sessions ?s2) childID = Some c2"
        "await_segment en p r childID g (se_head en c1) c2 0 ?s2 = (st', Served c k)"
      using assms(1) c1 by (auto simp: serve_media_def Let_def split: option.splits)
    have "\<not> restart_busy (se_valkey en) (ab_stamps ?s1) (se_now en) childID" using assms(6) s1 by simp
    then have "ses_StartSeg c2 = g" by (rule forced_start [OF assms(2,4) _ assms(3) c2(1)])
    then show ?thesis by (intro await_segment_position [OF c2(2) assms(2,3) c2(1) _ assms(5) free2 assms(7,8)]) simp
  qed
qed


section \<open>A seek, and one too soon\<close>

lemma count_loop_beyond:
  assumes "\<forall>k. i \<le> k \<and> k \<le> n \<longrightarrow> k \<le> 0 \<or> abrSegmentBoundarySec k fps < tot" "n \<le> maxPredictedSegments" "i \<le> n + 1"
  shows "n < count_loop tot fps i"
  using assms
proof (induction tot fps i rule: count_loop.induct)
  case (1 tot fps i)
  show ?case
  proof (cases "i \<le> n")
    case True
    then have "\<not> (i > 0 \<and> abrSegmentBoundarySec i fps \<ge> tot)" "\<not> i > maxPredictedSegments" using 1(2,3) by force+
    moreover from this have "n < count_loop tot fps (i + 1)" using 1(2,3) True by (intro 1(1)) auto
    ultimately show ?thesis by (subst count_loop.simps) auto
  next
    case False
    then show ?thesis using count_loop_ge [of i tot fps] by linarith
  qed
qed

lemma film_count: "1600 < predictedSegmentCount 7200000 24"
proof -
  have "abrSegmentBoundarySec k 24 < total_sec 7200000" if "k \<le> 1600" "0 < k" for k
  proof -
    have t: "total_sec 7200000 = 7200" by code_simp
    have "(of_int k :: rat) \<le> 1600" using that(1) by simp
    then have "(4 * of_int k * (1 + 1 / 2 ^ 53) ^ 3 + 1 / 24) * (1 + 1 / 2 ^ 53) \<le> (4 * 1600 * (1 + 1 / 2 ^ 53) ^ 3 + 1 / 24) * (1 + 1 / 2 ^ 53 :: rat)"
      by (intro mult_right_mono add_right_mono mult_left_mono) simp_all
    also have "\<dots> < 7200" by (simp add: eval_nat_numeral)
    finally show ?thesis using boundary_near [of k 24] that(2) by (simp add: t)
  qed
  then have "\<forall>k. 0 \<le> k \<and> k \<le> 1600 \<longrightarrow> k \<le> 0 \<or> abrSegmentBoundarySec k 24 < total_sec 7200000" by (metis linorder_not_le)
  then have "1600 < count_loop (total_sec 7200000) 24 0" by (rule count_loop_beyond) (simp_all add: maxPredictedSegments_def)
  then show ?thesis by (simp add: predictedSegmentCount_def)
qed

definition seek_env :: "int \<Rightarrow> int \<Rightarrow> SegEnv" where
  "seek_env now head = \<lparr>se_valkey = True, se_now = now, se_lock1 = True, se_lock2 = True, se_lock3 = True, se_head = (\<lambda>_. head),
     se_wait1 = (\<lambda>_. True), se_wait2 = (\<lambda>_. True), se_meanwhile1 = (\<lambda>st. st), se_meanwhile2 = (\<lambda>st. st)\<rparr>"

lemma film_ids:
  "abrChildID (ses_ID film_parent) ''720p'' = ''s1-r720p''" "abrChildID ''s1'' ''720p'' = ''s1-r720p''" "findRung (pa_Renditions film_parent) ''720p'' = Some (rung 1280 720 2400)"
  "Atoi (TrimSuffix ''300.m4s'' (abrSegExt (abrIsFMP4 film_parent))) = Some 300"
  "Atoi (TrimSuffix ''900.m4s'' (abrSegExt (abrIsFMP4 film_parent))) = Some 900"
  "Atoi (TrimSuffix ''1500.m4s'' (abrSegExt (abrIsFMP4 film_parent))) = Some 1500"
  by code_simp+

lemma film_in_range: "g \<le> 1600 \<Longrightarrow> \<not> (predictedSegmentCount (pa_DurationMS film_parent) (pa_FrameRate film_parent) \<le> g)"
  using film_count by (simp add: film_parent_fields)

lemma film_request:
  assumes "Atoi (TrimSuffix name (abrSegExt (abrIsFMP4 film_parent))) = Some g" "0 \<le> g" "g \<le> 1600" "name \<noteq> ''init.mp4''"
  shows "ABRVariantSegment en (Some film_parent) ''720p'' name st = serve_media en film_parent (rung 1280 720 2400) ''s1-r720p'' g
    (st\<lparr>ab_sessions := SetSelectedRendition (ab_sessions st) (se_now en) ''s1'' ''720p''\<rparr>)"
  using assms film_in_range [OF assms(3)] by (simp add: ABRVariantSegment_def film_ids film_parent_fields Let_def)

lemma film_selected: "Get (ab_sessions (film_state\<lparr>ab_sessions := SetSelectedRendition (ab_sessions film_state) now ''s1'' ''720p''\<rparr>)) k
    = (if k = ''s1'' then Get (SetSelectedRendition (ab_sessions film_state) now ''s1'' ''720p'') ''s1'' else None)"
  by (simp add: SetSelectedRendition_def mutate_Get film_state_sessions)


text \<open>
  The hypothesis on the floor is needed.  A forward seek whose restart the floor refuses finds the child as it was, and the handler
  still goes for its first file: whatever segment was asked for, the one the child started at is sent.
\<close>

lemma refused_seek_serves_start:
  assumes "Get (ab_sessions st) childID = Some c" "ses_StartSeg c \<le> g" "0 \<le> g" "\<not> abrReachableSoon (se_head en c) (g - ses_StartSeg c)"
    "restart_busy (se_valkey en) (ab_stamps st) (se_now en) childID" "se_wait1 en (seg_name 0 (abrIsFMP4 p))"
    "se_meanwhile1 en = (\<lambda>st. st)"
  shows "snd (serve_media en p r childID g st) = Served c 0"
proof -
  have e1: "leaves_child (se_lock1 en) (se_valkey en) (se_now en) childID g False st"
    using assms(1,2) by (simp add: leaves_child_def)
  let ?s1 = "ensureRungChild (se_lock1 en) (se_valkey en) (se_now en) p r childID g False st"
  have s1: "Get (ab_sessions ?s1) childID = Some c" "ab_stamps ?s1 = ab_stamps st"
    using ensureRungChild_left [OF e1, of p r] ensure_stamps [of "se_lock1 en" "se_valkey en" "se_now en" p r childID g False st] assms(1) by auto
  have e2: "leaves_child (se_lock2 en) (se_valkey en) (se_now en) childID g True ?s1"
    using s1 assms(5) rf.claim_iff by (simp add: leaves_child_def)
  then have "Get (ab_sessions (ensureRungChild (se_lock2 en) (se_valkey en) (se_now en) p r childID g True ?s1)) childID = Some c"
    using ensureRungChild_left [OF e2, of p r] s1 by simp
  then show ?thesis using s1 assms(4,6,7) by (simp add: serve_media_def await_segment_def serve_segment_def Let_def)
qed

text \<open>
  A child whose job no worker takes stays in the store, and the next request for it takes it for one that is running.
\<close>

lemma undispatched_child_stays:
  assumes "childID \<noteq> ses_ID p" "Get (ab_sessions st) childID = None" "Get (ab_sessions st) (ses_ID p) \<noteq> None" "0 \<le> g"
    "snd (DispatchJob (ab_jobs st) (rung_job p r childID g 0)) = Inl ErrNoCapableWorker"
    "st1 = ensureRungChild True valkey now p r childID g False st"
  shows "Get (ab_sessions st1) childID \<noteq> None \<and> js_queue (ab_jobs st1) = js_queue (ab_jobs st)
    \<and> ab_sessions (ensureRungChild True valkey later p r childID g False st1) = ab_sessions st1"
proof -
  have s: "st1 = restart_rung now p r childID g st" using assms(2,6) by (simp add: ensureRungChild_def)
  have c: "Get (ab_sessions st1) childID = Some (rung_session now p childID g 0)"
    using restart_rung_sessions [OF assms(1), of now r g st childID] assms(2-4) by (simp add: s start_seg_def abrAnySeg_def next_incarnation_def)
  obtain js where "DispatchJob (ab_jobs st) (rung_job p r childID g 0) = (js, Inl ErrNoCapableWorker)"
    using assms(5) by (metis prod.collapse)
  then have "js_queue (ab_jobs st1) = js_queue (ab_jobs st)"
    using restart_rung_jobs [OF assms(1), of now r g st] assms(2-4) DispatchJob_queues
    by (fastforce simp: s start_seg_def abrAnySeg_def next_incarnation_def)
  moreover have "leaves_child True valkey later childID g False st1" using c by (simp add: leaves_child_def rung_session_def)
  ultimately show ?thesis using c ensureRungChild_left by simp
qed

end
