(* ===== verification/Container.thy ===== *)
theory Container
  imports AbrServe RunJob
begin

text \<open>
  The container across the components: what \<open>Start\<close> and \<open>startABR\<close> announce, what the worker stamps, and what every run
  of ffmpeg writes.
\<close>

section \<open>From the request to the names of the files\<close>

text \<open>The worker picks an HEVC or AV1 encoder only for a job that prefers one.\<close>

lemma plain_encoder:
  assumes "tj_Encoder j = []" "\<not> tj_PreferHEVC j" "\<not> tj_PreferAV1 j"
  shows "\<not> IsHEVCEncoder (fst (pick_encoder es j rot)) \<and> \<not> IsAV1Encoder (fst (pick_encoder es j rot))"
proof -
  have x: "\<not> IsHEVCEncoder ''libx264'' \<and> \<not> IsAV1Encoder ''libx264''" by code_simp
  then have "\<not> IsHEVCEncoder (BestH264Encoder es) \<and> \<not> IsAV1Encoder (BestH264Encoder es)"
    using first_such_member [of "\<lambda>e. \<not> IsHEVCEncoder e \<and> \<not> IsAV1Encoder e" "''libx264''" es] by (auto simp: BestH264Encoder_def)
  then show ?thesis using assms x by (simp add: pick_encoder_def hevc_encoder_def av1_encoder_def first_encoder_def Let_def)
qed

lemma Start_Ladder_audio:
  assumes "Start en body f0 = Inr (Ladder codec ladder ap)"
  obtains f idx where "ap = start_audio en body f idx False"
proof -
  obtain pn where p: "start_reply en body pn = Inr (Ladder codec ladder ap)" using assms by (auto simp: Start_def split: sum.splits)
  define f where "f = stacked_file en (pn_File pn)"
  define copy where "copy = video_copy en body f (pn_Copy pn)"
  have "ap = start_audio en body f (pn_Audio pn) copy" "\<not> copy"
    using p unfolding start_reply_def Let_def f_def [symmetric] copy_def [symmetric] by (auto simp: wants_ladder_def split: if_splits)
  then show ?thesis using that by simp
qed

lemma ladder_passthrough: "ap_PassthroughCodec (start_audio en body f idx False) \<in> {''truehd'', ''dts''} \<Longrightarrow> ap_Passthrough (start_audio en body f idx False)"
proof -
  have c: "CanonicalAudioCodec ''truehd'' = ''truehd''" "CanonicalAudioCodec ''dts'' = ''dts''" by code_simp+
  assume "ap_PassthroughCodec (start_audio en body f idx False) \<in> {''truehd'', ''dts''}"
  then show ?thesis
    by (auto simp: start_audio_def audio_plan_def audio_copy_plan_def transcodeAudioPassthrough_def Let_def c split: prod.splits if_splits)
qed

text \<open>
  C8 (equivalence).  A rung's playlist names the files ffmpeg writes: for every rung of a ladder a start decides on, on any worker and
  in every run of the rung's job, the segments have the extension that the playlists of the ladder name, whatever
  encoder the worker picks, whatever the source and whatever fails.
\<close>

theorem rung_container:
  assumes "Start en body f0 = Inr (Ladder codec ladder ap)" "p = startABR en body f idx limits codec ladder ap segTok"
    "runJob env reachable probe listDir sroot w (rung_job p r childID seg incarnation) = Inr (ls, fin)" "Hls a \<in> set ls"
    "''copy'' \<notin> set (w_encoders w)"
  shows "SegExt (video_output (effective_args a)) = abrSegExt (abrIsFMP4 p)"
proof -
  let ?j = "rung_job p r childID seg incarnation"
  have j: "tj_ForceFMP4 ?j = abrIsFMP4 p" "tj_Encoder ?j = []" "\<not> tj_TSSegments ?j" "tj_DolbyVision ?j = DVNone" "tj_PreferHEVC ?j = ses_HEVCOutput p"
    "tj_PreferAV1 ?j = ses_AV1Output p" "tj_AudioPassthrough ?j = abrRungFMP4Audio p" "\<not> tj_AudioOnly ?j"
    by (simp_all add: rung_job_def)
  obtain f1 idx1 where ap: "ap = start_audio en body f1 idx1 False" by (rule Start_Ladder_audio [OF assms(1)])
  have p: "ses_FMP4Segments p = ap_Passthrough ap" "pa_AudioPassthroughCodec p = ap_PassthroughCodec ap" "\<not> ses_TSSegments p"
    by (simp_all add: assms(2) startABR_def)
  have q: "abrIsFMP4 p" if "tj_AudioPassthrough ?j"
  proof -
    have "ap_PassthroughCodec ap \<in> {''truehd'', ''dts''}" using that j(7) p(2) by (simp add: abrRungFMP4Audio_def)
    then have "ap_Passthrough ap" using ladder_passthrough unfolding ap by blast
    then show ?thesis using p(1) by (simp add: abrIsFMP4_def Session_VideoOutput_def NeedsFMP4_def Session.truncate_def)
  qed
  obtain sp where s: "SegExt (video_output (effective_args a)) = SegExt (stamped_output ?j (job_encoder w ?j sp))"
      "same_output (job_encoder w ?j sp) (a_Encoder a)"
    using run_segments [OF assms(3,4) j(8) assms(5)] assms(4) by metis
  have "NeedsFMP4 (stamped_output ?j (job_encoder w ?j sp)) = abrIsFMP4 p"
  proof (cases "abrIsFMP4 p")
    case True
    then show ?thesis by (simp add: stamped_output_def ResolveVideoOutput_def NeedsFMP4_def ForcesFMP4_def j)
  next
    case False
    then have "\<not> tj_PreferHEVC ?j" "\<not> tj_PreferAV1 ?j"
      by (auto simp: j p(3) abrIsFMP4_def Session_VideoOutput_def NeedsFMP4_def Session.truncate_def)
    then have e: "\<not> IsHEVCEncoder (job_encoder w ?j sp)" "\<not> IsAV1Encoder (job_encoder w ?j sp)"
      using plain_encoder [of "upright_job ?j sp" "w_encoders w" "rotated sp"] j(2) by (simp_all add: job_encoder_def upright_job_def)
    have "job_encoder w ?j sp \<noteq> ''copy''"
      using copied_job [OF assms(5), of "upright_job ?j sp" "rotated sp"] j(2) by (auto simp: job_encoder_def upright_simps)
    then show ?thesis using e q False by (auto simp: stamped_output_def ResolveVideoOutput_def NeedsFMP4_def ForcesFMP4_def j IsVideoCopy_def)
  qed
  then show ?thesis using s(1) by (simp add: SegExt_def abrSegExt_def)
qed

lemma single_session_fields:
  "ses_FMP4Segments (single_session en body f idx copy) \<longleftrightarrow> ap_Passthrough (start_audio en body f idx copy) \<or> start_dovi en body f copy \<noteq> DVNone"
  "ses_TSSegments (single_session en body f idx copy) = ts_segments body"
  by (simp_all add: single_session_def Let_def)



text \<open>The film, once remuxed with its Dolby Vision and its passed-through audio, once as a rung of HEVC on a worker that only encodes H.264.\<close>

lemma film_run: "ran (sample_run plays [''hevc_nvenc''] (single_job sample_en (sample_body True 0) big_film (- 1) None True)) 0"
  by code_simp


theorem rung_container_witness:
  "\<exists>l ap ls fin a. Start sample_en (sample_body False 0) big_film = Inr (Ladder ''hevc'' l ap)
     \<and> runJob plays (\<lambda>_. True) (\<lambda>_. upright) ''/tmp/l'' ''/tmp/s'' (sample_caps [''h264_nvenc''])
         (rung_job (startABR sample_en (sample_body False 0) big_film (- 1) None ''hevc'' l ap ''tok'') (rung 1280 720 2400) ''s1-r720p'' 3 0) = Inr (ls, fin)
     \<and> Hls a \<in> set ls \<and> SegExt (video_output (effective_args a)) = ''.m4s''"
proof -
  obtain l ap where l: "Start sample_en (sample_body False 0) big_film = Inr (Ladder ''hevc'' l ap)"
    by (rule film_ladder)
  let ?p = "startABR sample_en (sample_body False 0) big_film (- 1) None ''hevc'' l ap ''tok''"
  let ?j = "rung_job ?p (rung 1280 720 2400) ''s1-r720p'' 3 0"
  have j: "length (tj_Parts ?j) \<le> 1" "tj_Decision ?j \<noteq> ''directStream''" "\<not> ReshapesDolbyVision ?j"
    by (simp_all add: rung_job_def startABR_def sample_en_def ReshapesDolbyVision_def)
  obtain ls fin a where r: "runJob plays (\<lambda>_. True) (\<lambda>_. upright) ''/tmp/l'' ''/tmp/s'' (sample_caps [''h264_nvenc'']) ?j = Inr (ls, fin)" "Hls a \<in> set ls"
    by (rule runJob_launches [OF j])
  have "''copy'' \<notin> set (w_encoders (sample_caps [''h264_nvenc'']))" by code_simp
  from rung_container [OF l refl r this] have "SegExt (video_output (effective_args a)) = abrSegExt (abrIsFMP4 ?p)" .
  moreover have "abrIsFMP4 ?p"
    by (simp add: abrIsFMP4_def startABR_def Session_VideoOutput_def NeedsFMP4_def Session.truncate_def)
  ultimately have "SegExt (video_output (effective_args a)) = ''.m4s''" by (simp add: abrSegExt_def)
  then show ?thesis using l r by blast
qed

end
