(* ===== verification/Spec2Isabelle.thy ===== *)
theory Spec2Isabelle
  imports Decision Quality Dispatch Sessions Worker Valkey Totp RateLimit Playlist IntroMarker SegToken SafeHttp Pcp Portmap Watch FFSafe Dvr Requests RunJob StartCommit AbrServe Container
begin

text \<open>
  OnScreen: a self-hosted media server in Go (\<open>cmd/\<close> and \<open>internal/\<close>).  A client asks the API server to play a
  file; the server decides whether the file is played as it is, remuxed or re-encoded, stores a
  session, and dispatches a job to a transcode worker, which runs ffmpeg and serves the HLS segments.  Around
  this core stand the shared store (Valkey) with its locks and limits, authentication, the policies
  on viewing and on the network, and the media jobs: recording, requests, intro detection.

  This development models the parts whose correctness is a matter of logic, as functions and step relations
  over explicit state, and proves what they promise.

  \<^bold>\<open>From the request to the segments.\<close>  In the order a playback runs through them:

  \<^item> \<open>Caps\<close>, \<open>ProfileLevel\<close>: the \<open>X-Client-Capabilities\<close> header and the profile and level tables
    (\<open>internal/transcode/capability.go\<close>, \<open>profilelevel.go\<close>).
  \<^item> \<open>Decision\<close>: \<open>Decide\<close>, \<open>ForStack\<close>, Dolby Vision planning and the reasons shown (\<open>decision.go\<close>,
    \<open>dolbyvision.go\<close>, \<open>decision_reasons.go\<close>).
  \<^item> \<open>StreamCap\<close>: the limits of a viewer, the decision endpoint and the gate of the stream route
    (\<open>internal/api/v1/remote_limits.go\<close>, \<open>quality_profile.go\<close>, \<open>decision_enforce.go\<close>, \<open>transcode_decision.go\<close>,
    \<open>optimize.go\<close>).
  \<^item> \<open>Quality\<close>: sizes, bitrates, the adaptive ladder, its master playlist, audio targets (\<open>quality.go\<close>, \<open>abr.go\<close>,
    \<open>audio.go\<close>).
  \<^item> \<open>StartJob\<close>, \<open>StartBounds\<close>, \<open>StartCommit\<close>: \<open>NativeTranscodeHandler.Start\<close>
    (\<open>internal/api/v1/transcode.go\<close>, \<open>transcode_passthrough.go\<close>): gates, copy or re-encode, size, codec,
    audio, the session and the job or the ladder, and the commit with its rollback.
  \<^item> \<open>Sessions\<close>, \<open>SegToken\<close>, \<open>Dispatch\<close>: the session store, the segment tokens, the worker registry with its queues
    (\<open>session.go\<close>, \<open>segtoken.go\<close>).
  \<^item> \<open>AbrTimeline\<close>, \<open>AbrRungs\<close>, \<open>AbrServe\<close>: a ladder once it is started (\<open>internal/api/v1/transcode_abr.go\<close>): the grid of
    segments and the predicted playlists, the child session of each rung with its restarts, the segment handler;
    and \<open>tearDown\<close>, \<open>Stop\<close> and \<open>supersedeUserItem\<close> of \<open>transcode.go\<close>.
  \<^item> \<open>Encoders\<close>, \<open>Worker\<close>, \<open>RunJob\<close>: encoder detection and fail-over, the worker's slots and watchdog, one job with all its
    runs of ffmpeg (\<open>hardware.go\<close>, \<open>videooutput.go\<close>, \<open>worker.go\<close>, \<open>parts.go\<close>).
  \<^item> \<open>Filters\<close>, \<open>BuildHLS\<close>, \<open>Frames\<close>, \<open>FFSafe\<close>: the command lines (\<open>ffmpeg.go\<close>), the specification of where
    frames lie in memory, and what ffmpeg may open (\<open>internal/ffsafe\<close>).
  \<^item> \<open>Container\<close>: from a start to the names of the files ffmpeg writes, through session, ladder and worker.
  \<^item> \<open>Playlist\<close>: continuing a session past a defect of its source (\<open>continuation.go\<close>).

  \<^bold>\<open>Around it.\<close>  \<open>Valkey\<close> (expiring keys, leases, the election of the master: \<open>internal/valkey\<close>,
  \<open>internal/worker/master.go\<close>), \<open>RateLimit\<close> (sliding window and failure throttle), \<open>Totp\<close> (second factors),
  \<open>SafeHttp\<close> (the dial policy of outbound fetches), \<open>Pcp\<close> and \<open>Portmap\<close> (the router's port mapping), \<open>Watch\<close>
  (parental limits), \<open>Dvr\<close> (recording rules), \<open>Requests\<close> (state of a media request), \<open>IntroMarker\<close> (intro detection).
  \<open>OSPrelude\<close>, \<open>GoText\<close> and \<open>GoFloat\<close> hold what all share: the fragments of Go's library the code calls, and the rounding of
  \<open>float64\<close>.  This theory states what spans several of them.

  \<^bold>\<open>Reading the model.\<close>  A definition has the name of the Go function or type it stands for; a part of a long
  function has a name of its own.  A struct is a record whose fields carry a short prefix, a nil
  pointer \<^const>\<open>None\<close>, an error a value of a sum type, an \<open>int\<close> or \<open>int64\<close> an \<^typ>\<open>int\<close> (with \<open>wrap64\<close> where input
  can accumulate), a \<open>float64\<close> a rational rounded to 53 bits after each operation.  State is passed explicitly;
  concurrent parties are inductive step relations over one shared state.  What lies outside the
  sources (ffmpeg and ffprobe, the file system, the database, Valkey's scheduling, routers, hash functions, the
  clock) enters as arguments or environment records, never as made-up definitions.

  \<^bold>\<open>What is shown.\<close>  Decision and limits: a copy is only ever given to a client that takes the bitstream and
  within every limit of the viewer, in \<open>Decide\<close>, in the endpoint, in the gate and in \<open>Start\<close>; size and bitrate of a re-encode and of
  every rung stay inside all bounds, the double arithmetic included.  Jobs: a job is consistent, asks for features
  some worker has, and is committed all or nothing; the in-flight counters are exact; every run of ffmpeg keeps
  frames where filters expect them, writes the container the session announced and opens only what the allowlist
  permits.  Ladders: the playlist names exactly the segments the handler accepts and the files ffmpeg writes, a segment
  that is sent is the one asked for, and a stop leaves no rung behind.  Store: transactions apply exactly once, caps hold under the lock, deletion and revocation are exact and
  complete, there is one master at a time and soon another when it is gone, a code or challenge is spent once,
  and limiters keep their bounds against reference counters.  Network and policy: the dial policy equals a numeric
  specification, the router exposes what the admin asked for, watch limits hold per profile.  Formats: concat lists, playlists and
  PCP packets are read back as written.  Where the code falls short of its comments, a lemma shows the case and the
  finding names it.

  \<^bold>\<open>Bounds and termination.\<close>  Loops with a decreasing measure are total functions (\<open>checkIP\<close> on the embedded
  addresses, the level search, digit printing).  The tempo chain of \<open>BuildHLS\<close> is a \<open>partial_function\<close> in the option
  type, because nothing in its code bounds it; it is shown to return.  The retries of a job, the continuation
  attempts and the PCP resends are bounded by constants of the code, which the model keeps.
  Of the two loops over the segments of a ladder the count ends at the code's limit of 50000, the playlist with the
  film, because no segment in it is empty.

  \<^bold>\<open>Not modelled.\<close>  Database access (generated by sqlc) and the HTTP handlers around it; the library scanner, the
  metadata and media-request clients and the importers, which are input and output with third-party services; the subtitle,
  trickplay, photo and plug-in helpers, which run external programs; live TV capture; the server's start-up and wiring;
  logging, metrics, audit.  Overflow, subnormals and NaN of \<open>float64\<close> are left out: sizes, rates and times stay far inside
  its range.
\<close>

section \<open>From the job to what ffmpeg opens\<close>

text \<open>
  C37 (refinement).  The parts of a stacked movie reach ffmpeg as they stand in the job: when every file is there, or every
  part has a source URL, the worker writes a list that ffmpeg reads back as exactly those files, or those
  URLs, in order; the network protocols are allowed only when the list holds URLs, and it holds URLs
  only when a file is missing.
\<close>

theorem stacked_movie_inputs:
  assumes "length (tj_Parts j) > 1"
    "\<forall>p \<in> set (tj_Parts j). clean_input False (pt_FilePath p) \<and> (pt_SourceURL p \<noteq> [] \<longrightarrow> clean_input True (pt_SourceURL p))"
    "list_all (\<lambda>p. reachable (pt_FilePath p)) (tj_Parts j) \<or> list_all (\<lambda>p. pt_SourceURL p \<noteq> []) (tj_Parts j)"
  shows "\<exists>entries script remote. job_input j reachable lp = Inr (lp, entries) \<and> WriteConcatList entries = Inr script
    \<and> read_files script = map (if remote then pt_SourceURL else pt_FilePath) (tj_Parts j)
    \<and> source_guard lp entries = (if remote then networkProtocols else localProtocols)
    \<and> remote = (\<not> list_all (\<lambda>p. reachable (pt_FilePath p)) (tj_Parts j))"
proof -
  obtain es remote where r: "resolvePartInputs (tj_Parts j) reachable = Some (es, remote)"
      "remote = (\<not> list_all (\<lambda>p. reachable (pt_FilePath p)) (tj_Parts j))"
    using assms(3) by (auto simp: resolvePartInputs_def Let_def)
  have ne: "tj_Parts j \<noteq> []" using assms(1) by auto
  have c: "checkConcatParts es = Inr remote" "map cp_Input es = map (if remote then pt_SourceURL else pt_FilePath) (tj_Parts j)"
    using resolved_entries [OF r(1) ne assms(2)] by auto
  have "es \<noteq> []" using c(2) ne by (metis Nil_is_map_conv)
  moreover obtain script where s: "WriteConcatList es = Inr script" "read_files script = map cp_Input es"
    using read_files_written [OF c(1)] c(1) by (simp add: WriteConcatList_def)
  moreover have "job_input j reachable lp = Inr (lp, es)" using assms(1) r(1) s(1) by (simp add: job_input_def Let_def)
  ultimately show ?thesis using c r(2) by (auto simp: source_guard_def)
qed

text \<open>Two parts, one with a quote in its name, on a worker that does not see the library.\<close>

definition two_parts :: "SourcePart list" where
  "two_parts = [\<lparr>pt_FileID = ''1'', pt_FilePath = ''/films/it'' @ CHR 0x27 # ''s a cd1.avi'', pt_SourceURL = ''http://p/1'', pt_DurationMS = 1000\<rparr>,
     \<lparr>pt_FileID = ''2'', pt_FilePath = ''/films/cd2.avi'', pt_SourceURL = ''http://p/2'', pt_DurationMS = 1000\<rparr>]"

definition stacked_job :: TranscodeJob where
  "stacked_job = sample_job\<lparr>tj_Parts := two_parts\<rparr>"

theorem stacked_movie_inputs_witness:
  "(\<exists>script. read_files script = [''http://p/1'', ''http://p/2''])
   \<and> (\<exists>script. read_files script = [''/films/it'' @ CHR 0x27 # ''s a cd1.avi'', ''/films/cd2.avi''])"
proof -
  have f: "length (tj_Parts stacked_job) > 1" by code_simp
  have c: "\<forall>p \<in> set (tj_Parts stacked_job). clean_input False (pt_FilePath p) \<and> (pt_SourceURL p \<noteq> [] \<longrightarrow> clean_input True (pt_SourceURL p))"
    by code_simp
  have r: "list_all (\<lambda>p. False) (tj_Parts stacked_job) \<or> list_all (\<lambda>p. pt_SourceURL p \<noteq> []) (tj_Parts stacked_job)"
    "list_all (\<lambda>p. True) (tj_Parts stacked_job) \<or> list_all (\<lambda>p. pt_SourceURL p \<noteq> []) (tj_Parts stacked_job)"
    "\<not> list_all (\<lambda>p. False) (tj_Parts stacked_job)"
    by code_simp+
  have m: "map pt_SourceURL (tj_Parts stacked_job) = [''http://p/1'', ''http://p/2'']"
    "map pt_FilePath (tj_Parts stacked_job) = [''/films/it'' @ CHR 0x27 # ''s a cd1.avi'', ''/films/cd2.avi'']"
    by code_simp+
  show ?thesis
    using stacked_movie_inputs [of stacked_job "\<lambda>_. False" "''/tmp/l''", OF f c r(1)]
      stacked_movie_inputs [of stacked_job "\<lambda>_. True" "''/tmp/l''", OF f c r(2)] r(3) m
    by (auto simp: list_all_iff)
qed

end
